(* ===== verification/Go_Prelude.thy ===== *)
theory Go_Prelude
  imports Main "HOL-Library.Word"
begin

text \<open>
  Shared vocabulary of the development: the machine types of Go that the
  artifact store uses, Go errors and the chain walk of \<open>errors.Is\<close>,
  structured log records, byte streams with the \<open>io.LimitReader\<close> /
  \<open>io.ReadAll\<close> reading discipline, and the generic lemmas the components share.

  Go strings are byte sequences, which is what HOL's \<^typ>\<open>string\<close> is; a Go
  \<open>[]byte\<close> is a list of 8-bit words; \<open>int64\<close> (and \<open>time.Duration\<close>, which
  is an \<open>int64\<close>) is a 64-bit word read with \<^const>\<open>sint\<close>, so that addition
  and multiplication wrap as in Go.
\<close>

type_synonym byte = "8 word"
type_synonym bytes = "byte list"
type_synonym int64 = "64 word"

section \<open>Collections of facts\<close>

named_theorems go_simps \<open>evaluation of the Go library functions\<close>
named_theorems err_simps \<open>errors.Is on the errors the components build\<close>

section \<open>Errors\<close>

text \<open>
  The sentinel errors that the code compares with \<open>errors.Is\<close>. The first two come
  from the SDK's \<open>storage\<close> package, the token sentinels from \<open>api/token.go\<close>, the
  next four from the SDK's \<open>lifecycle/artifact\<close> package, and the last three are
  the internal not-found markers of the three key services.
\<close>

datatype sentinel =
    ErrContentNotFound
  | ErrNotSupported
  | ErrTokenMalformed
  | ErrTokenBadSignature
  | ErrTokenExpired
  | ErrTokenCIDMismatch
  | ErrTokenSizeMismatch
  | ErrTokenPayloadInvalid
  | ErrTokenUnknownKid
  | ErrKeyNotFound
  | ErrServiceUnavailable
  | ErrCiphertextMismatch
  | ErrInvalidRecipientKey
  | ErrVaultNotFound
  | ErrGCPNotFound
  | ErrPKCS11NotFound

text \<open>
  A formatted message is a list of fragments: literal text, a value printed with
  \<open>%v\<close> (or by \<open>err.Error()\<close>), or an error wrapped with \<open>%w\<close>. An error is a
  sentinel, a \<open>pkcs11.Error\<close> return code, an error built outside the modelled code
  (known by the name of the operation that made it), or the result of
  \<open>fmt.Errorf\<close> / \<open>errors.New\<close>.
\<close>

datatype 'e frag = Lit string | Val 'e | Wrp 'e

datatype goerr =
    Sentinel sentinel
  | Pkcs11Error nat
  | Foreign string
  | Errorf "goerr frag list"

type_synonym message = "goerr frag list"

text \<open>\<open>errors.Is(err, sentinel)\<close>: only \<open>%w\<close> links are followed.\<close>

fun errors_is :: "goerr \<Rightarrow> sentinel \<Rightarrow> bool" where
  "errors_is (Sentinel s) t = (s = t)"
| "errors_is (Pkcs11Error n) t = False"
| "errors_is (Foreign m) t = False"
| "errors_is (Errorf fs) t =
     list_ex (\<lambda>f. case f of Lit m \<Rightarrow> False | Val e \<Rightarrow> False | Wrp e \<Rightarrow> errors_is e t) fs"

text \<open>\<open>errors.As(err, &pErr)\<close> for \<open>pkcs11.Error\<close>: the first return code in the chain.\<close>

fun errors_as_pkcs11 :: "goerr \<Rightarrow> nat option" where
  "errors_as_pkcs11 (Sentinel s) = None"
| "errors_as_pkcs11 (Pkcs11Error n) = Some n"
| "errors_as_pkcs11 (Foreign m) = None"
| "errors_as_pkcs11 (Errorf fs) =
     fold (\<lambda>f acc. case acc of Some n \<Rightarrow> Some n | None \<Rightarrow>
            (case f of Lit m \<Rightarrow> None | Val e \<Rightarrow> None | Wrp e \<Rightarrow> errors_as_pkcs11 e)) fs None"

section \<open>Logging\<close>

datatype level = LevelInfo | LevelWarn | LevelError

datatype attr = AStr string | AInt int | ABool bool | AErr goerr | AMsg message
  | AStrs "string list"

record log_record =
  lr_level :: level
  lr_msg :: string
  lr_attrs :: "(string \<times> attr) list"

definition log_attr :: "log_record \<Rightarrow> string \<Rightarrow> attr option" where
  "log_attr r k = map_of (lr_attrs r) k"

definition warn :: "string \<Rightarrow> (string \<times> attr) list \<Rightarrow> log_record" where
  "warn m as = \<lparr>lr_level = LevelWarn, lr_msg = m, lr_attrs = as\<rparr>"

definition info :: "string \<Rightarrow> (string \<times> attr) list \<Rightarrow> log_record" where
  "info m as = \<lparr>lr_level = LevelInfo, lr_msg = m, lr_attrs = as\<rparr>"

lemma warn_sel [simp]:
  "lr_level (warn m as) = LevelWarn" "lr_msg (warn m as) = m" "lr_attrs (warn m as) = as"
  by (simp_all add: warn_def)

lemma info_sel [simp]:
  "lr_level (info m as) = LevelInfo" "lr_msg (info m as) = m" "lr_attrs (info m as) = as"
  by (simp_all add: info_def)

section \<open>Outcomes and byte streams\<close>

text \<open>A call either returns or panics (a nil dereference).\<close>

datatype 'a outcome = Returns 'a | Panics string

text \<open>
  A body is a stream: the bytes that can be read and the error that the read after
  the last of them reports (none: end of file).
\<close>

record stream =
  st_data :: bytes
  st_err :: "goerr option"

definition read_all :: "stream \<Rightarrow> bytes \<times> goerr option" where
  "read_all b = (st_data b, st_err b)"

text \<open>
  \<open>io.ReadAll(io.LimitReader(b, n))\<close>: a limit of zero or less reads nothing; a limit
  the data reaches cuts it there, before the stream's own error is seen.
\<close>

definition read_all_limited :: "int64 \<Rightarrow> stream \<Rightarrow> bytes \<times> goerr option" where
  "read_all_limited n b =
     (if sint n \<le> 0 then ([], None)
      else if sint n \<le> int (length (st_data b)) then (take (nat (sint n)) (st_data b), None)
      else (st_data b, st_err b))"

definition stream_of :: "bytes \<Rightarrow> stream" where
  "stream_of d = \<lparr>st_data = d, st_err = None\<rparr>"

lemma read_all_stream_of [simp]: "read_all (stream_of d) = (d, None)"
  by (simp add: read_all_def stream_of_def)

lemma stream_of_sel [simp]: "st_data (stream_of d) = d" "st_err (stream_of d) = None"
  by (simp_all add: stream_of_def)

section \<open>Machine integers\<close>

definition max_int64 :: int where
  "max_int64 = 2 ^ 63 - 1"

lemma sint_int64_range: "- (2 ^ 63) \<le> sint (w :: int64) \<and> sint w \<le> max_int64"
  using sint_ge [of w] sint_lt [of w] by (simp add: max_int64_def)

lemma sint_of_int64:
  "- (2 ^ 63) \<le> i \<Longrightarrow> i \<le> max_int64 \<Longrightarrow> sint (of_int i :: int64) = i"
  by (simp add: max_int64_def signed_of_int signed_take_bit_int_eq_self)

lemma sint_of_nat64:
  "int n \<le> max_int64 \<Longrightarrow> sint (of_nat n :: int64) = int n"
  using sint_of_int64 [of "int n"] by simp

lemma sint_add64:
  assumes "- (2 ^ 63) \<le> sint a + sint b" "sint a + sint b \<le> max_int64"
  shows "sint (a + b :: int64) = sint a + sint b"
proof -
  have "sint (of_int (sint a + sint b) :: int64) = sint a + sint b"
    using assms by (rule sint_of_int64)
  then show ?thesis by simp
qed

lemma sint_mult64:
  assumes "- (2 ^ 63) \<le> sint a * sint b" "sint a * sint b \<le> max_int64"
  shows "sint (a * b :: int64) = sint a * sint b"
proof -
  have "sint (of_int (sint a * sint b) :: int64) = sint a * sint b"
    using assms by (rule sint_of_int64)
  then show ?thesis by simp
qed

text \<open>The reading discipline of a bounded body: what the limit plus one detects.\<close>

lemma read_all_limited_length:
  "length (fst (read_all_limited n b)) \<le> nat (sint n)"
  by (auto simp: read_all_limited_def)

lemma read_all_limited_within:
  assumes "0 \<le> sint m" "sint m < max_int64" "int (length (st_data b)) \<le> sint m"
  shows "read_all_limited (m + 1) b = (st_data b, st_err b)"
proof -
  have "sint (m + 1) = sint m + 1"
    using assms sint_add64 [of m 1] by simp
  with assms show ?thesis by (auto simp: read_all_limited_def)
qed

lemma read_all_limited_beyond:
  assumes "0 \<le> sint m" "sint m < max_int64" "sint m < int (length (st_data b))"
  shows "read_all_limited (m + 1) b = (take (nat (sint m) + 1) (st_data b), None)"
proof -
  have "sint (m + 1) = sint m + 1"
    using assms sint_add64 [of m 1] by simp
  with assms show ?thesis by (auto simp: read_all_limited_def nat_add_distrib)
qed

end
