(* ===== verification/Go_Strings.thy ===== *)
theory Go_Strings
  imports Go_Prelude
begin

text \<open>
  The parts of Go's \<open>strings\<close> and \<open>strconv\<close> packages that the artifact store
  calls, on byte strings: searching, cutting, splitting and trimming, decimal
  printing and parsing of \<open>int64\<close> values, and \<open>ParseBool\<close>.
\<close>

section \<open>Searching and cutting\<close>

text \<open>\<open>strings.IndexByte\<close>, with \<^const>\<open>None\<close> for -1.\<close>

fun index_byte :: "char \<Rightarrow> string \<Rightarrow> nat option" where
  "index_byte c [] = None"
| "index_byte c (x # xs) = (if x = c then Some 0 else map_option Suc (index_byte c xs))"

lemma index_byte_append:
  "c \<notin> set xs \<Longrightarrow> index_byte c (xs @ c # ys) = Some (length xs)"
  by (induction xs) auto

lemma index_byte_None: "index_byte c s = None \<longleftrightarrow> c \<notin> set s"
  by (induction s) auto

lemma index_byte_SomeD:
  "index_byte c s = Some i \<Longrightarrow> s = take i s @ c # drop (Suc i) s \<and> c \<notin> set (take i s) \<and> i < length s"
proof (induction s arbitrary: i)
  case Nil
  then show ?case by simp
next
  case (Cons x s)
  show ?case
  proof (cases "x = c")
    case True
    with Cons.prems show ?thesis by simp
  next
    case False
    with Cons.prems obtain j where j: "index_byte c s = Some j" "i = Suc j"
      by auto
    with Cons.IH [OF j(1)] False show ?thesis by auto
  qed
qed

definition has_prefix :: "string \<Rightarrow> string \<Rightarrow> bool" where
  "has_prefix s p = (take (length p) s = p)"

lemma has_prefix_append [simp]: "has_prefix (p @ s) p"
  by (simp add: has_prefix_def)

lemma has_prefixD: "has_prefix s p \<Longrightarrow> s = p @ drop (length p) s"
  by (metis append_take_drop_id has_prefix_def)

lemma has_prefix_Nil [simp]: "has_prefix s []"
  by (simp add: has_prefix_def)

lemma has_prefix_Cons [simp]:
  "has_prefix (c # s) (d # p) = (c = d \<and> has_prefix s p)"
  "\<not> has_prefix [] (d # p)"
  by (auto simp: has_prefix_def)

definition has_suffix :: "string \<Rightarrow> string \<Rightarrow> bool" where
  "has_suffix s p = has_prefix (rev s) (rev p)"

lemma has_suffix_append [simp]: "has_suffix (s @ p) p"
  by (simp add: has_suffix_def)

definition trim_prefix :: "string \<Rightarrow> string \<Rightarrow> string" where
  "trim_prefix s p = (if has_prefix s p then drop (length p) s else s)"

definition trim_suffix :: "string \<Rightarrow> string \<Rightarrow> string" where
  "trim_suffix s p = (if has_suffix s p then take (length s - length p) s else s)"

lemma trim_prefix_append [simp]: "trim_prefix (p @ s) p = s"
  by (simp add: trim_prefix_def)

lemma trim_suffix_append [simp]: "trim_suffix (s @ p) p = s"
  by (simp add: trim_suffix_def)

text \<open>\<open>strings.Cut\<close>: the text before and after the first occurrence of the separator.\<close>

fun cut_str :: "string \<Rightarrow> string \<Rightarrow> (string \<times> string) option" where
  "cut_str sep [] = (if sep = [] then Some ([], []) else None)"
| "cut_str sep (c # s) =
     (if has_prefix (c # s) sep then Some ([], drop (length sep) (c # s))
      else map_option (\<lambda>(a, b). (c # a, b)) (cut_str sep s))"

definition contains :: "string \<Rightarrow> string \<Rightarrow> bool" where
  "contains s sub = (cut_str sub s \<noteq> None)"

lemma cut_SomeD: "cut_str sep s = Some (a, b) \<Longrightarrow> s = a @ sep @ b"
proof (induction s arbitrary: a)
  case Nil
  then show ?case by (simp split: if_splits)
next
  case (Cons c s)
  show ?case
  proof (cases "has_prefix (c # s) sep")
    case True
    with Cons.prems has_prefixD [OF True] show ?thesis by simp
  next
    case False
    with Cons.prems obtain a' where "cut_str sep s = Some (a', b)" "a = c # a'"
      by auto
    with Cons.IH show ?thesis by simp
  qed
qed

lemma cut_first:
  "c \<notin> set a \<Longrightarrow> cut_str (c # t) (a @ (c # t) @ b) = Some (a, b)"
  by (induction a) auto

lemma cut_absent:
  "c \<notin> set s \<Longrightarrow> cut_str (c # t) s = None"
  by (induction s) auto

lemma contains_append: "contains (a @ sub @ b) sub"
proof -
  have "cut_str sub (a @ sub @ b) \<noteq> None"
  proof (induction a)
    case Nil
    have "has_prefix (sub @ b) sub" by simp
    then show ?case by (cases "sub @ b") auto
  next
    case (Cons c a)
    then show ?case by auto
  qed
  then show ?thesis by (simp add: contains_def)
qed

text \<open>\<open>strings.SplitN(s, sep, 2)\<close>, and \<open>strings.Split\<close> on a one-byte separator.\<close>

definition split_n2 :: "string \<Rightarrow> string \<Rightarrow> string list" where
  "split_n2 s sep = (case cut_str sep s of None \<Rightarrow> [s] | Some (a, b) \<Rightarrow> [a, b])"

fun split_byte :: "char \<Rightarrow> string \<Rightarrow> string list" where
  "split_byte c [] = [[]]"
| "split_byte c (x # xs) =
     (if x = c then [] # split_byte c xs
      else case split_byte c xs of [] \<Rightarrow> [[x]] | w # ws \<Rightarrow> (x # w) # ws)"

fun join :: "string \<Rightarrow> string list \<Rightarrow> string" where
  "join sep [] = []"
| "join sep [w] = w"
| "join sep (w # ws) = w @ sep @ join sep ws"

lemma split_byte_nonempty: "split_byte c s \<noteq> []"
  by (induction s) (auto split: list.splits)

lemma join_split_byte: "join [c] (split_byte c s) = s"
proof (induction s)
  case Nil
  show ?case by simp
next
  case (Cons x s)
  obtain w ws where sp: "split_byte c s = w # ws"
    using split_byte_nonempty [of c s] by (cases "split_byte c s") auto
  with Cons show ?case by (cases ws) auto
qed

lemma split_byte_no_sep: "c \<notin> set s \<Longrightarrow> split_byte c s = [s]"
  by (induction s) auto

lemma split_byte_append:
  "c \<notin> set w \<Longrightarrow> split_byte c (w @ c # s) = w # split_byte c s"
proof (induction w)
  case Nil
  show ?case by simp
next
  case (Cons x w)
  then show ?case by auto
qed

lemma split_byte_pieces: "w \<in> set (split_byte c s) \<Longrightarrow> c \<notin> set w"
proof (induction s arbitrary: w)
  case Nil
  then show ?case by simp
next
  case (Cons x s)
  obtain v vs where sp: "split_byte c s = v # vs"
    using split_byte_nonempty [of c s] by (cases "split_byte c s") auto
  with Cons.prems Cons.IH show ?case by (auto split: if_splits)
qed

section \<open>Trimming\<close>

text \<open>
  The UTF-8 encodings of the runes \<open>unicode.IsSpace\<close> accepts: the six ASCII ones,
  U+0085, U+00A0, U+1680, U+2000 to U+200A, U+2028, U+2029, U+202F, U+205F, U+3000.
\<close>

definition ascii_spaces :: "char list" where
  "ascii_spaces = map char_of [9, 10, 11, 12, 13, 32 :: nat]"

definition space_runes :: "string list" where
  "space_runes =
     map (\<lambda>c. [c]) ascii_spaces @
     map (map char_of)
      ([[0xC2, 0x85], [0xC2, 0xA0], [0xE1, 0x9A, 0x80]] @
       map (\<lambda>i. [0xE2, 0x80, 0x80 + i]) [0 ..< 11] @
       [[0xE2, 0x80, 0xA8], [0xE2, 0x80, 0xA9], [0xE2, 0x80, 0xAF],
        [0xE2, 0x81, 0x9F], [0xE3, 0x80, 0x80 :: nat]])"

definition strip_any :: "string list \<Rightarrow> string \<Rightarrow> string option" where
  "strip_any rs s =
     (case find (\<lambda>r. r \<noteq> [] \<and> has_prefix s r) rs of
        None \<Rightarrow> None | Some r \<Rightarrow> Some (drop (length r) s))"

lemma strip_any_shorter: "strip_any rs s = Some t \<Longrightarrow> length t < length s"
proof -
  assume "strip_any rs s = Some t"
  then obtain r where r: "r \<noteq> []" "has_prefix s r" "t = drop (length r) s"
    by (auto simp: strip_any_def find_Some_iff split: option.splits)
  from r(1,2) have "s \<noteq> []" by (auto simp: has_prefix_def)
  with r show ?thesis by simp
qed

function trim_left_any :: "string list \<Rightarrow> string \<Rightarrow> string" where
  "trim_left_any rs s =
     (case strip_any rs s of None \<Rightarrow> s | Some t \<Rightarrow> trim_left_any rs t)"
  by pat_completeness auto
termination
  by (relation "measure (\<lambda>(rs, s). length s)") (auto dest: strip_any_shorter)

declare trim_left_any.simps [simp del]

text \<open>\<open>strings.TrimSpace\<close>.\<close>

definition trim_space :: "string \<Rightarrow> string" where
  "trim_space s =
     rev (trim_left_any (map rev space_runes) (rev (trim_left_any space_runes s)))"

text \<open>\<open>strings.TrimRight(s, "/")\<close>.\<close>

definition trim_right_byte :: "char \<Rightarrow> string \<Rightarrow> string" where
  "trim_right_byte c s = rev (dropWhile (\<lambda>x. x = c) (rev s))"

lemma trim_left_any_fixed: "strip_any rs s = None \<Longrightarrow> trim_left_any rs s = s"
  by (simp add: trim_left_any.simps [of rs s])

lemma strip_any_trim_left: "strip_any rs (trim_left_any rs s) = None"
proof (induction rs s rule: trim_left_any.induct)
  case (1 rs s)
  show ?case
  proof (cases "strip_any rs s")
    case None
    then show ?thesis by (simp add: trim_left_any_fixed)
  next
    case (Some t)
    with "1.IH" show ?thesis by (simp add: trim_left_any.simps [of rs s])
  qed
qed

lemma strip_any_Cons_None:
  "(\<And>r. r \<in> set rs \<Longrightarrow> r \<noteq> [] \<Longrightarrow> hd r \<noteq> c) \<Longrightarrow> strip_any rs (c # s) = None"
proof -
  assume h: "\<And>r. r \<in> set rs \<Longrightarrow> r \<noteq> [] \<Longrightarrow> hd r \<noteq> c"
  have "find (\<lambda>r. r \<noteq> [] \<and> has_prefix (c # s) r) rs = None"
    unfolding find_None_iff
  proof
    assume "\<exists>r. r \<in> set rs \<and> r \<noteq> [] \<and> has_prefix (c # s) r"
    then obtain r where "r \<in> set rs" "r \<noteq> []" "has_prefix (c # s) r" by blast
    with h [of r] show False by (cases r) auto
  qed
  then show ?thesis by (simp add: strip_any_def)
qed

lemma strip_any_Nil [simp]: "strip_any rs [] = None"
proof -
  have "find (\<lambda>r. r \<noteq> [] \<and> has_prefix [] r) rs = None"
    by (auto simp: find_None_iff has_prefix_def)
  then show ?thesis by (simp add: strip_any_def)
qed

text \<open>
  A printable ASCII byte is neither the first nor the last byte of a space rune, so
  a string that starts and ends with one is left alone.
\<close>

definition graphic :: "char \<Rightarrow> bool" where
  "graphic c = (33 \<le> (of_char c :: nat) \<and> (of_char c :: nat) \<le> 126)"

lemma graphic_not_space_byte:
  assumes "graphic c" "r \<in> set space_runes" "x \<in> set r"
  shows "x \<noteq> c"
proof -
  have "\<forall>r \<in> set space_runes. \<forall>x \<in> set r. \<not> graphic x"
    by (simp add: space_runes_def ascii_spaces_def upt_rec graphic_def)
  with assms show ?thesis by auto
qed

lemma trim_space_graphic:
  assumes "s \<noteq> []" "graphic (hd s)" "graphic (last s)"
  shows "trim_space s = s"
proof -
  have "strip_any space_runes s = None"
    using assms(1,2) graphic_not_space_byte hd_in_set
    by (cases s) (auto intro!: strip_any_Cons_None)
  then have l: "trim_left_any space_runes s = s" by (rule trim_left_any_fixed)
  have "strip_any (map rev space_runes) (last s # rev (butlast s)) = None"
  proof (rule strip_any_Cons_None)
    fix r assume "r \<in> set (map rev space_runes)" "r \<noteq> []"
    then obtain q where "q \<in> set space_runes" "r = rev q" by auto
    with \<open>r \<noteq> []\<close> have "hd r \<in> set q" by (metis hd_in_set set_rev)
    with \<open>q \<in> set space_runes\<close> assms(3) show "hd r \<noteq> last s"
      using graphic_not_space_byte by blast
  qed
  then have "strip_any (map rev space_runes) (rev s) = None"
    using assms(1) by (metis append_butlast_last_id rev.simps(2) rev_rev_ident rev_append
        append_Cons append_Nil rev_singleton_conv)
  then have "trim_left_any (map rev space_runes) (rev s) = rev s" by (rule trim_left_any_fixed)
  with l show ?thesis by (simp add: trim_space_def)
qed

lemma trim_space_Nil [simp]: "trim_space [] = []"
  by (simp add: trim_space_def trim_left_any_fixed)

section \<open>Decimal numbers and booleans\<close>

definition digit_char :: "nat \<Rightarrow> char" where
  "digit_char d = char_of (48 + d)"

definition digit_val :: "char \<Rightarrow> nat option" where
  "digit_val c = (let n = of_char c in if 48 \<le> n \<and> n \<le> 57 then Some (n - 48) else None)"

fun nat_str :: "nat \<Rightarrow> string" where
  "nat_str n = (if n < 10 then [digit_char n] else nat_str (n div 10) @ [digit_char (n mod 10)])"

declare nat_str.simps [simp del]

text \<open>\<open>strconv.Itoa\<close> and the \<open>%d\<close> verb.\<close>

definition itoa :: "int \<Rightarrow> string" where
  "itoa i = (if i < 0 then CHR ''-'' # nat_str (nat (- i)) else nat_str (nat i))"

fun parse_digits :: "nat \<Rightarrow> string \<Rightarrow> nat option" where
  "parse_digits acc [] = Some acc"
| "parse_digits acc (c # s) =
     (case digit_val c of None \<Rightarrow> None | Some d \<Rightarrow> parse_digits (10 * acc + d) s)"

definition parse_uint :: "string \<Rightarrow> nat option" where
  "parse_uint s = (if s = [] then None else parse_digits 0 s)"

text \<open>\<open>strconv.ParseInt(s, 10, 64)\<close>, with \<^const>\<open>None\<close> for its syntax and range errors.\<close>

definition parse_int64 :: "string \<Rightarrow> int64 option" where
  "parse_int64 s =
     (case s of
        [] \<Rightarrow> None
      | c # t \<Rightarrow>
          (let neg = (c = CHR ''-'');
               u = (if c = CHR ''+'' \<or> neg then t else s)
           in case parse_uint u of
                None \<Rightarrow> None
              | Some n \<Rightarrow>
                  if \<not> neg \<and> 2 ^ 63 \<le> n then None
                  else if neg \<and> 2 ^ 63 < n then None
                  else Some (of_int (if neg then - int n else int n))))"

text \<open>\<open>strconv.ParseBool\<close>.\<close>

definition parse_bool :: "string \<Rightarrow> bool option" where
  "parse_bool s =
     (if s \<in> set [''1'', ''t'', ''T'', ''true'', ''TRUE'', ''True''] then Some True
      else if s \<in> set [''0'', ''f'', ''F'', ''false'', ''FALSE'', ''False''] then Some False
      else None)"

lemma digit_val_char [simp]: "d < 10 \<Longrightarrow> digit_val (digit_char d) = Some d"
  by (simp add: digit_val_def digit_char_def Let_def)

lemma graphic_digit_char: "d < 10 \<Longrightarrow> graphic (digit_char d)"
  by (simp add: graphic_def digit_char_def)

lemma digit_char_not_sign:
  assumes "d < 10"
  shows "digit_char d \<noteq> CHR ''-'' \<and> digit_char d \<noteq> CHR ''+''"
proof -
  have "digit_val (digit_char d) = Some d" using assms by simp
  moreover have "digit_val (CHR ''-'') = None" "digit_val (CHR ''+'') = None"
    by (simp_all add: digit_val_def)
  ultimately show ?thesis by auto
qed

lemma parse_digits_append:
  "parse_digits acc (s @ t) =
     (case parse_digits acc s of None \<Rightarrow> None | Some a \<Rightarrow> parse_digits a t)"
  by (induction s arbitrary: acc) (auto split: option.splits)

lemma parse_digits_nat_str: "parse_digits 0 (nat_str n) = Some n"
proof (induction n rule: nat_str.induct)
  case (1 n)
  show ?case
  proof (cases "n < 10")
    case True
    then show ?thesis by (simp add: nat_str.simps [of n])
  next
    case False
    with "1.IH" show ?thesis
      by (simp add: nat_str.simps [of n] parse_digits_append)
  qed
qed

lemma nat_str_hd: "\<exists>d t. nat_str n = digit_char d # t \<and> d < 10"
proof (induction n rule: nat_str.induct)
  case (1 n)
  show ?case
  proof (cases "n < 10")
    case True
    then show ?thesis by (auto simp: nat_str.simps [of n])
  next
    case False
    with "1.IH" show ?thesis by (auto simp: nat_str.simps [of n])
  qed
qed

lemma parse_uint_nat_str: "parse_uint (nat_str n) = Some n"
  using nat_str_hd [of n] by (auto simp: parse_uint_def parse_digits_nat_str)

text \<open>Printing an \<open>int64\<close> and parsing it back gives the same value.\<close>

lemma parse_int64_itoa: "parse_int64 (itoa (sint w)) = Some w"
proof (cases "sint w < 0")
  case True
  have "nat (- sint w) \<le> 2 ^ 63"
    using sint_int64_range [of w] by (simp add: nat_le_iff)
  with True show ?thesis
    by (simp add: itoa_def parse_int64_def parse_uint_nat_str)
next
  case False
  obtain d t where dt: "nat_str (nat (sint w)) = digit_char d # t" "d < 10"
    using nat_str_hd by blast
  have "nat (sint w) < 2 ^ 63"
    using sint_int64_range [of w] False by (simp add: max_int64_def nat_less_iff)
  with False dt digit_char_not_sign [OF dt(2)] show ?thesis
    using parse_uint_nat_str [of "nat (sint w)"]
    by (simp add: itoa_def parse_int64_def)
qed

lemma parse_int64_range:
  "parse_int64 s = Some w \<Longrightarrow> - (2 ^ 63) \<le> sint w \<and> sint w \<le> max_int64"
  by (rule sint_int64_range)

end
