(* ===== verification/Go_Encoding.thy ===== *)
theory Go_Encoding
  imports Go_Strings
begin

text \<open>
  \<open>encoding/hex\<close> and \<open>encoding/base64\<close> as the artifact store uses them: hexadecimal
  of digests and keys, and the four base64 variants (standard and URL alphabet, padded
  and raw). Decoding skips carriage returns and newlines, as Go's decoder does.
  The round-trip lemmas serve the upload tokens and the key-service wire formats.
\<close>

section \<open>Bytes and strings\<close>

definition str_bytes :: "string \<Rightarrow> bytes" where
  "str_bytes s = map (\<lambda>c. word_of_nat (of_char c)) s"

definition bytes_str :: "bytes \<Rightarrow> string" where
  "bytes_str b = map (\<lambda>w. char_of (unat w)) b"

lemma unat_byte_less: "unat (b :: byte) < 256"
proof -
  have "unat b < 2 ^ LENGTH(8)" by (rule unsigned_less)
  then show ?thesis by simp
qed

lemma of_char_less: "(of_char c :: nat) < 256"
  by (metis of_char_mod_256 mod_less_divisor zero_less_numeral)

lemma bytes_str_inverse [simp]: "str_bytes (bytes_str b) = b"
  by (simp add: str_bytes_def bytes_str_def comp_def unat_byte_less)

lemma str_bytes_inverse [simp]: "bytes_str (str_bytes s) = s"
  by (simp add: str_bytes_def bytes_str_def comp_def unat_of_nat of_char_mod_256 take_bit_eq_mod)

lemma length_str_bytes [simp]: "length (str_bytes s) = length s"
  by (simp add: str_bytes_def)

lemma length_bytes_str [simp]: "length (bytes_str b) = length b"
  by (simp add: bytes_str_def)

section \<open>Hexadecimal\<close>

definition hex_chars :: string where
  "hex_chars = ''0123456789abcdef''"

definition hex_pair :: "byte \<Rightarrow> string" where
  "hex_pair b = [hex_chars ! (unat b div 16), hex_chars ! (unat b mod 16)]"

definition hex_encode :: "bytes \<Rightarrow> string" where
  "hex_encode bs = concat (map hex_pair bs)"

definition hex_val :: "char \<Rightarrow> nat option" where
  "hex_val c =
     (let n = of_char c in
      if 48 \<le> n \<and> n \<le> 57 then Some (n - 48)
      else if 97 \<le> n \<and> n \<le> 102 then Some (n - 87)
      else if 65 \<le> n \<and> n \<le> 70 then Some (n - 55)
      else None)"

fun hex_decode :: "string \<Rightarrow> bytes option" where
  "hex_decode [] = Some []"
| "hex_decode [c] = None"
| "hex_decode (a # b # s) =
     (case (hex_val a, hex_val b, hex_decode s) of
        (Some x, Some y, Some r) \<Rightarrow> Some (word_of_nat (16 * x + y) # r)
      | _ \<Rightarrow> None)"

lemma nat16_cases:
  "n < 16 \<Longrightarrow> n \<in> {0, 1, 2, 3, 4, 5, 6, 7, 8, 9, 10, 11, 12, 13, 14, 15 :: nat}"
  by (simp only: insert_iff empty_iff) presburger

lemma hex_val_chars: "n < 16 \<Longrightarrow> hex_val (hex_chars ! n) = Some n"
  by (drule nat16_cases) (auto simp: hex_val_def hex_chars_def)

lemma hex_pair_decode: "hex_decode (hex_pair b @ s) = map_option ((#) b) (hex_decode s)"
proof -
  have "unat b div 16 < 16" "unat b mod 16 < 16"
    using unat_byte_less [of b] by auto
  then show ?thesis
    by (simp add: hex_pair_def hex_val_chars split: option.splits)
qed

lemma hex_decode_encode [simp]: "hex_decode (hex_encode bs) = Some bs"
  by (induction bs) (simp_all add: hex_encode_def hex_pair_decode)

lemma hex_encode_inject [simp]: "hex_encode a = hex_encode b \<longleftrightarrow> a = b"
  by (metis hex_decode_encode option.inject)

lemma length_hex_encode [simp]: "length (hex_encode bs) = 2 * length bs"
  by (induction bs) (simp_all add: hex_encode_def hex_pair_def)

lemma hex_decode_length: "hex_decode s = Some b \<Longrightarrow> length s = 2 * length b"
  by (induction s arbitrary: b rule: hex_decode.induct) (auto split: option.splits prod.splits)

lemma hex_chars_set: "n < 16 \<Longrightarrow> hex_chars ! n \<in> set hex_chars"
  by (rule nth_mem) (simp add: hex_chars_def)

lemma set_hex_encode: "set (hex_encode bs) \<subseteq> set hex_chars"
proof (induction bs)
  case Nil
  show ?case by (simp add: hex_encode_def)
next
  case (Cons b bs)
  have "unat b div 16 < 16" "unat b mod 16 < 16"
    using unat_byte_less [of b] by auto
  with Cons show ?case by (simp add: hex_encode_def hex_pair_def hex_chars_set)
qed

section \<open>Base64\<close>

definition b64_std :: string where
  "b64_std = ''ABCDEFGHIJKLMNOPQRSTUVWXYZabcdefghijklmnopqrstuvwxyz0123456789+/''"

definition b64_url :: string where
  "b64_url = ''ABCDEFGHIJKLMNOPQRSTUVWXYZabcdefghijklmnopqrstuvwxyz0123456789-_''"

definition b64_pad :: char where
  "b64_pad = CHR ''=''"

definition b64_ok :: "string \<Rightarrow> bool" where
  "b64_ok al \<longleftrightarrow> length al = 64 \<and> distinct al \<and>
     b64_pad \<notin> set al \<and> CHR 0x0D \<notin> set al \<and> CHR 0x0A \<notin> set al"

fun b64_encode :: "string \<Rightarrow> bool \<Rightarrow> bytes \<Rightarrow> string" where
  "b64_encode al pad [] = []"
| "b64_encode al pad [a] =
     (let n = 16 * unat a
      in [al ! (n div 64), al ! (n mod 64)] @ (if pad then [b64_pad, b64_pad] else []))"
| "b64_encode al pad [a, b] =
     (let n = 1024 * unat a + 4 * unat b
      in [al ! (n div 4096), al ! (n div 64 mod 64), al ! (n mod 64)] @ (if pad then [b64_pad] else []))"
| "b64_encode al pad (a # b # c # r) =
     (let n = 65536 * unat a + 256 * unat b + unat c
      in [al ! (n div 262144), al ! (n div 4096 mod 64), al ! (n div 64 mod 64), al ! (n mod 64)])
     @ b64_encode al pad r"

definition b64_one :: "string \<Rightarrow> char \<Rightarrow> char \<Rightarrow> bytes option" where
  "b64_one al a b =
     (case (index_byte a al, index_byte b al) of
        (Some x, Some y) \<Rightarrow> Some [word_of_nat ((64 * x + y) div 16)]
      | _ \<Rightarrow> None)"

definition b64_two :: "string \<Rightarrow> char \<Rightarrow> char \<Rightarrow> char \<Rightarrow> bytes option" where
  "b64_two al a b c =
     (case (index_byte a al, index_byte b al, index_byte c al) of
        (Some x, Some y, Some z) \<Rightarrow>
          (let n = 4096 * x + 64 * y + z
           in Some [word_of_nat (n div 1024), word_of_nat (n div 4 mod 256)])
      | _ \<Rightarrow> None)"

definition b64_three :: "string \<Rightarrow> char \<Rightarrow> char \<Rightarrow> char \<Rightarrow> char \<Rightarrow> bytes option" where
  "b64_three al a b c d =
     (case (index_byte a al, index_byte b al, index_byte c al, index_byte d al) of
        (Some x, Some y, Some z, Some w) \<Rightarrow>
          (let n = 262144 * x + 4096 * y + 64 * z + w
           in Some [word_of_nat (n div 65536), word_of_nat (n div 256 mod 256),
                    word_of_nat (n mod 256)])
      | _ \<Rightarrow> None)"

fun b64_quanta :: "string \<Rightarrow> bool \<Rightarrow> string \<Rightarrow> bytes option" where
  "b64_quanta al pad [] = Some []"
| "b64_quanta al pad [a] = None"
| "b64_quanta al pad [a, b] = (if pad then None else b64_one al a b)"
| "b64_quanta al pad [a, b, c] = (if pad then None else b64_two al a b c)"
| "b64_quanta al pad (a # b # c # d # r) =
     (if pad \<and> d = b64_pad \<and> r = []
      then (if c = b64_pad then b64_one al a b else b64_two al a b c)
      else case (b64_three al a b c d, b64_quanta al pad r) of
             (Some q, Some rest) \<Rightarrow> Some (q @ rest)
           | _ \<Rightarrow> None)"

text \<open>\<open>Encoding.DecodeString\<close>, with \<^const>\<open>None\<close> for a \<open>CorruptInputError\<close>.\<close>

definition b64_decode :: "string \<Rightarrow> bool \<Rightarrow> string \<Rightarrow> bytes option" where
  "b64_decode al pad s = b64_quanta al pad (filter (\<lambda>c. c \<noteq> CHR 0x0D \<and> c \<noteq> CHR 0x0A) s)"

lemma b64_std_ok: "b64_ok b64_std"
  by (simp add: b64_ok_def b64_std_def b64_pad_def)

lemma b64_url_ok: "b64_ok b64_url"
  by (simp add: b64_ok_def b64_url_def b64_pad_def)

lemma index_byte_nth: "distinct al \<Longrightarrow> n < length al \<Longrightarrow> index_byte (al ! n) al = Some n"
proof (induction al arbitrary: n)
  case Nil
  then show ?case by simp
next
  case (Cons x al)
  then show ?case by (cases n) auto
qed

lemma b64_index: "b64_ok al \<Longrightarrow> n < 64 \<Longrightarrow> index_byte (al ! n) al = Some n"
  by (simp add: b64_ok_def index_byte_nth)

lemma b64_nth_plain:
  "b64_ok al \<Longrightarrow> n < 64 \<Longrightarrow> al ! n \<noteq> b64_pad \<and> al ! n \<noteq> CHR 0x0D \<and> al ! n \<noteq> CHR 0x0A"
  unfolding b64_ok_def by (metis nth_mem)

lemma sextets2: "64 * (n div 64) + n mod 64 = (n :: nat)"
  by (rule mult_div_mod_eq)

lemma sextets3: "4096 * (n div 4096) + 64 * (n div 64 mod 64) + n mod 64 = (n :: nat)"
proof -
  have split: "4096 * p + 64 * q + r = m" if "64 * k + r = m" "64 * p + q = k" for p q r k m :: nat
    using that by simp
  have "n div 4096 = n div 64 div 64" by (simp add: div_mult2_eq [symmetric])
  then show ?thesis
    using split [OF sextets2 [of n] sextets2 [of "n div 64"]] by (simp only:)
qed

lemma sextets4:
  "262144 * (n div 262144) + 4096 * (n div 4096 mod 64) + 64 * (n div 64 mod 64) + n mod 64 = (n :: nat)"
proof -
  have split: "262144 * p + 4096 * q + 64 * s + r = m"
    if "64 * k + r = m" "4096 * p + 64 * q + s = k" for p q r s k m :: nat
    using that by simp
  have "n div 262144 = n div 64 div 4096" "n div 4096 = n div 64 div 64"
    by (simp_all add: div_mult2_eq [symmetric])
  then show ?thesis
    using split [OF sextets2 [of n] sextets3 [of "n div 64"]] by (simp only:)
qed

lemma b64_one_encode:
  assumes "b64_ok al" and n: "n = 16 * unat (a :: byte)"
  shows "b64_one al (al ! (n div 64)) (al ! (n mod 64)) = Some [a]"
proof -
  have "n div 64 < 64" "n mod 64 < 64"
    using unat_byte_less [of a] n by auto
  moreover have "n div 16 = unat a" using n by simp
  ultimately show ?thesis using assms(1) sextets2 [of n] by (simp add: b64_one_def b64_index)
qed

lemma b64_two_encode:
  assumes "b64_ok al" and n: "n = 1024 * unat (a :: byte) + 4 * unat (b :: byte)"
  shows "b64_two al (al ! (n div 4096)) (al ! (n div 64 mod 64)) (al ! (n mod 64)) = Some [a, b]"
proof -
  have "n < 262144" using unat_byte_less [of a] unat_byte_less [of b] n by linarith
  then have "n div 4096 < 64" "n div 64 mod 64 < 64" "n mod 64 < 64" by auto
  moreover have "n div 1024 = unat a"
    using unat_byte_less [of b] n by (intro div_nat_eqI) auto
  moreover have "n div 4 mod 256 = unat b"
  proof -
    have "n div 4 = 256 * unat a + unat b" using n by (intro div_nat_eqI) auto
    then show ?thesis using unat_byte_less [of b] by simp
  qed
  ultimately show ?thesis
    using assms(1) sextets3 [of n] by (simp add: b64_two_def b64_index Let_def)
qed

lemma b64_three_encode:
  assumes "b64_ok al" and n: "n = 65536 * unat (a :: byte) + 256 * unat (b :: byte) + unat (c :: byte)"
  shows "b64_three al (al ! (n div 262144)) (al ! (n div 4096 mod 64)) (al ! (n div 64 mod 64))
           (al ! (n mod 64)) = Some [a, b, c]"
proof -
  note lts = unat_byte_less [of a] unat_byte_less [of b] unat_byte_less [of c]
  have "n < 16777216" using lts n by linarith
  then have "n div 262144 < 64" "n div 4096 mod 64 < 64" "n div 64 mod 64 < 64" "n mod 64 < 64"
    by auto
  moreover have "n div 65536 = unat a" using lts n by (intro div_nat_eqI) auto
  moreover have "n div 256 mod 256 = unat b"
  proof -
    have "n div 256 = 256 * unat a + unat b" using lts n by (intro div_nat_eqI) auto
    then show ?thesis using lts by simp
  qed
  moreover have "n mod 256 = unat c"
  proof -
    have "n = unat c + 256 * (256 * unat a + unat b)" using n by simp
    then show ?thesis using lts by (metis mod_less mod_mult_self2)
  qed
  ultimately show ?thesis
    using assms(1) sextets4 [of n] by (simp add: b64_three_def b64_index Let_def)
qed

lemma b64_quanta_encode: "b64_ok al \<Longrightarrow> b64_quanta al pad (b64_encode al pad bs) = Some bs"
proof (induction al pad bs rule: b64_encode.induct)
  case (1 al pad)
  show ?case by simp
next
  case (2 al pad a)
  then show ?case using b64_one_encode [OF _ refl, of al a] by (simp add: Let_def)
next
  case (3 al pad a b)
  let ?n = "1024 * unat a + 4 * unat b"
  have "?n mod 64 < 64" by simp
  with 3 have "al ! (?n mod 64) \<noteq> b64_pad" by (simp add: b64_nth_plain)
  with 3 show ?case using b64_two_encode [OF _ refl, of al a b] by (simp add: Let_def)
next
  case (4 al pad a b c r)
  let ?n = "65536 * unat a + 256 * unat b + unat c"
  have "?n mod 64 < 64" by simp
  with 4 have "al ! (?n mod 64) \<noteq> b64_pad" by (simp add: b64_nth_plain)
  with 4 show ?case using b64_three_encode [OF _ refl, of al a b c] by (simp add: Let_def)
qed

lemma set_b64_encode:
  assumes "b64_ok al" "x \<in> set (b64_encode al pad bs)"
  shows "x \<in> set al \<or> pad \<and> x = b64_pad"
  using assms
proof (induction al pad bs rule: b64_encode.induct)
  case (1 al pad)
  then show ?case by simp
next
  case (2 al pad a)
  have "16 * unat a div 64 < 64" using unat_byte_less [of a] by simp
  with 2 show ?case by (auto simp: Let_def b64_ok_def split: if_splits)
next
  case (3 al pad a b)
  let ?n = "1024 * unat a + 4 * unat b"
  have "?n < 262144" using unat_byte_less [of a] unat_byte_less [of b] by linarith
  then have "?n div 4096 < 64" "?n div 64 mod 64 < 64" "?n mod 64 < 64" by auto
  with 3 show ?case by (auto simp: Let_def b64_ok_def split: if_splits)
next
  case (4 al pad a b c r)
  let ?n = "65536 * unat a + 256 * unat b + unat c"
  have "?n < 16777216"
    using unat_byte_less [of a] unat_byte_less [of b] unat_byte_less [of c] by linarith
  then have "?n div 262144 < 64" "?n div 4096 mod 64 < 64" "?n div 64 mod 64 < 64" "?n mod 64 < 64"
    by auto
  with 4 show ?case by (auto simp: Let_def b64_ok_def)
qed

text \<open>Every variant decodes what it encodes.\<close>

lemma b64_decode_encode:
  assumes "b64_ok al"
  shows "b64_decode al pad (b64_encode al pad bs) = Some bs"
proof -
  have "filter (\<lambda>c. c \<noteq> CHR 0x0D \<and> c \<noteq> CHR 0x0A) (b64_encode al pad bs) = b64_encode al pad bs"
  proof (rule filter_True, rule ballI)
    fix x assume "x \<in> set (b64_encode al pad bs)"
    with set_b64_encode [OF assms this] assms show "x \<noteq> CHR 0x0D \<and> x \<noteq> CHR 0x0A"
      by (auto simp: b64_ok_def b64_pad_def)
  qed
  with assms show ?thesis by (simp add: b64_decode_def b64_quanta_encode)
qed

lemma b64_encode_inject: "b64_ok al \<Longrightarrow> b64_encode al pad a = b64_encode al pad b \<longleftrightarrow> a = b"
  by (metis b64_decode_encode option.inject)

lemma b64_encode_Nil_iff [simp]: "b64_encode al pad bs = [] \<longleftrightarrow> bs = []"
  by (induction al pad bs rule: b64_encode.induct) (auto simp: Let_def)

end
