(* ===== verification/Go_Url.thy ===== *)
theory Go_Url
  imports Go_Encoding
begin

text \<open>
  Go's \<open>net/url\<close> as the backends use it: \<open>PathEscape\<close>, \<open>QueryEscape\<close>, their
  inverses, \<open>url.Parse\<close> (the check \<open>http.NewRequest\<close> makes on every URL) and
  \<open>Values.Get\<close> on a raw query. The main lemmas say that an escaped object name is
  one path segment (or one query value) that decodes to the name again, and how an
  absolute URL with a given base is taken apart.
\<close>

section \<open>Escaping\<close>

definition is_alpha :: "char \<Rightarrow> bool" where
  "is_alpha c = (let n = (of_char c :: nat) in 65 \<le> n \<and> n \<le> 90 \<or> 97 \<le> n \<and> n \<le> 122)"

definition is_digit :: "char \<Rightarrow> bool" where
  "is_digit c = (let n = (of_char c :: nat) in 48 \<le> n \<and> n \<le> 57)"

definition unreserved :: "char \<Rightarrow> bool" where
  "unreserved c = (is_alpha c \<or> is_digit c \<or> c \<in> set ''-_.~'')"

definition keep_path_segment :: "char \<Rightarrow> bool" where
  "keep_path_segment c = (unreserved c \<or> c \<in> set ''$&+:=@'')"

definition upper_hex :: string where
  "upper_hex = ''0123456789ABCDEF''"

definition percent :: "char \<Rightarrow> string" where
  "percent c = (let n = of_char c in [CHR ''%'', upper_hex ! (n div 16), upper_hex ! (n mod 16)])"

definition path_escape :: "string \<Rightarrow> string" where
  "path_escape s = concat (map (\<lambda>c. if keep_path_segment c then [c] else percent c) s)"

definition query_escape :: "string \<Rightarrow> string" where
  "query_escape s =
     concat (map (\<lambda>c. if unreserved c then [c]
                      else if c = CHR '' '' then ''+'' else percent c) s)"

text \<open>\<open>unescape\<close>; the flag is the query-component mode, where a plus is a space.\<close>

fun unescape :: "bool \<Rightarrow> string \<Rightarrow> string option" where
  "unescape q [] = Some []"
| "unescape q (c # s) =
     (if c = CHR ''%'' then
        (case s of
           a # b # r \<Rightarrow>
             (case (hex_val a, hex_val b, unescape q r) of
                (Some x, Some y, Some t) \<Rightarrow> Some (char_of (16 * x + y) # t)
              | _ \<Rightarrow> None)
         | _ \<Rightarrow> None)
      else map_option ((#) (if q \<and> c = CHR ''+'' then CHR '' '' else c)) (unescape q s))"

lemma upper_hex_val: "n < 16 \<Longrightarrow> hex_val (upper_hex ! n) = Some n"
  by (drule nat16_cases) (auto simp: hex_val_def upper_hex_def)

lemma unescape_percent: "unescape q (percent c @ s) = map_option ((#) c) (unescape q s)"
proof -
  have "of_char c div 16 < (16 :: nat)"
    using nat_of_char_less_256 [of c] by linarith
  then show ?thesis
    by (simp add: percent_def Let_def upper_hex_val split: option.splits)
qed

lemma unreserved_not_special: "unreserved c \<Longrightarrow> c \<noteq> CHR ''%'' \<and> c \<noteq> CHR ''+''"
  by (auto simp: unreserved_def is_alpha_def is_digit_def)

lemma keep_path_not_percent: "keep_path_segment c \<Longrightarrow> c \<noteq> CHR ''%''"
  by (auto simp: keep_path_segment_def dest: unreserved_not_special)

lemma unescape_path_escape: "unescape False (path_escape s) = Some s"
proof (induction s)
  case Nil
  show ?case by (simp add: path_escape_def)
next
  case (Cons c s)
  then show ?case
    by (simp add: path_escape_def unescape_percent keep_path_not_percent)
qed

lemma unescape_query_escape: "unescape True (query_escape s) = Some s"
proof (induction s)
  case Nil
  show ?case by (simp add: query_escape_def)
next
  case (Cons c s)
  then show ?case
    using unreserved_not_special [of c]
    by (auto simp: query_escape_def unescape_percent)
qed

lemma unescape_plain:
  "CHR ''%'' \<notin> set s \<Longrightarrow> unescape False s = Some s"
  by (induction s) auto

lemma unescape_append:
  "unescape q s = Some t \<Longrightarrow> unescape q (s @ u) = map_option ((@) t) (unescape q u)"
proof (induction q s arbitrary: t rule: unescape.induct)
  case (1 q)
  then show ?case by (cases "unescape q u") auto
next
  case (2 q c s)
  show ?case
  proof (cases "c = CHR ''%''")
    case True
    with "2.prems" obtain a b r x y w where
      s: "s = a # b # r" "hex_val a = Some x" "hex_val b = Some y" "unescape q r = Some w"
        "t = char_of (16 * x + y) # w"
      by (auto split: list.splits option.splits)
    with "2.IH"(1) [OF True, of a "b # r" b r] True show ?thesis
      by (cases "unescape q u") auto
  next
    case False
    with "2.prems" obtain w where "unescape q s = Some w"
        "t = (if q \<and> c = CHR ''+'' then CHR '' '' else c) # w"
      by auto
    with "2.IH"(2) [OF False] False show ?thesis by (cases "unescape q u") auto
  qed
qed

text \<open>The characters an escaped string is made of.\<close>

lemma upper_hex_set: "n < 16 \<Longrightarrow> is_alpha (upper_hex ! n) \<or> is_digit (upper_hex ! n)"
  by (drule nat16_cases) (auto simp: is_alpha_def is_digit_def upper_hex_def)

lemma percent_set: "x \<in> set (percent c) \<Longrightarrow> x = CHR ''%'' \<or> unreserved x"
proof -
  assume "x \<in> set (percent c)"
  moreover have "of_char c div 16 < (16 :: nat)" "of_char c mod 16 < (16 :: nat)"
    using nat_of_char_less_256 [of c] by linarith+
  ultimately show ?thesis
    using upper_hex_set [of "of_char c div 16"] upper_hex_set [of "of_char c mod 16"]
    unfolding percent_def Let_def unreserved_def by auto
qed

lemma path_escape_set: "x \<in> set (path_escape s) \<Longrightarrow> x = CHR ''%'' \<or> keep_path_segment x"
  by (auto simp: path_escape_def keep_path_segment_def split: if_splits dest: percent_set)

lemma query_escape_set:
  "x \<in> set (query_escape s) \<Longrightarrow> x = CHR ''%'' \<or> x = CHR ''+'' \<or> unreserved x"
  by (auto simp: query_escape_def split: if_splits dest: percent_set)

section \<open>Queries\<close>

definition query_pairs :: "string \<Rightarrow> (string \<times> string) list" where
  "query_pairs rq =
     List.map_filter
       (\<lambda>kv. if kv = [] \<or> CHR '';'' \<in> set kv then None
             else let (k, v) = (case cut_str ''='' kv of None \<Rightarrow> (kv, []) | Some p \<Rightarrow> p)
                  in case (unescape True k, unescape True v) of
                       (Some k', Some v') \<Rightarrow> Some (k', v')
                     | _ \<Rightarrow> None)
       (split_byte CHR ''&'' rq)"

text \<open>\<open>r.URL.Query().Get(k)\<close>: the first value, or the empty string.\<close>

definition query_get :: "string \<Rightarrow> string \<Rightarrow> string" where
  "query_get rq k = (case map_of (query_pairs rq) k of None \<Rightarrow> [] | Some v \<Rightarrow> v)"

section \<open>Parsing an URL\<close>

record url =
  u_scheme :: string
  u_host :: string
  u_path :: string
  u_rawpath :: string
  u_rawquery :: string

definition is_ctl :: "char \<Rightarrow> bool" where
  "is_ctl c = ((of_char c :: nat) < 32 \<or> (of_char c :: nat) = 127)"

definition scheme_char :: "char \<Rightarrow> bool" where
  "scheme_char c = (is_alpha c \<or> is_digit c \<or> c \<in> set ''+-.'')"

text \<open>\<open>getScheme\<close>: \<^const>\<open>None\<close> is its "missing protocol scheme" error.\<close>

definition get_scheme :: "string \<Rightarrow> (string \<times> string) option" where
  "get_scheme s =
     (let p = takeWhile scheme_char s; r = dropWhile scheme_char s in
      case r of
        c # t \<Rightarrow>
          if c = CHR '':'' then
            (case p of [] \<Rightarrow> None | a # _ \<Rightarrow> if is_alpha a then Some (p, t) else Some ([], s))
          else Some ([], s)
      | [] \<Rightarrow> Some ([], s))"

definition host_char :: "char \<Rightarrow> bool" where
  "host_char c =
     (unreserved c \<or> c \<in> set ''!$&()*+,;=:[]<>'' \<or> (of_char c :: nat) \<in> {34, 39} \<or>
      128 \<le> (of_char c :: nat))"

fun unescape_host :: "string \<Rightarrow> string option" where
  "unescape_host [] = Some []"
| "unescape_host (c # s) =
     (if c = CHR ''%'' then
        (case s of
           a # b # r \<Rightarrow>
             (case (hex_val a, hex_val b, unescape_host r) of
                (Some x, Some y, Some t) \<Rightarrow>
                  if x < 8 \<and> \<not> (x = 2 \<and> y = 5) then None else Some (char_of (16 * x + y) # t)
              | _ \<Rightarrow> None)
         | _ \<Rightarrow> None)
      else if host_char c then map_option ((#) c) (unescape_host s) else None)"

definition valid_optional_port :: "string \<Rightarrow> bool" where
  "valid_optional_port p = (case p of [] \<Rightarrow> True | c # t \<Rightarrow> c = CHR '':'' \<and> list_all is_digit t)"

text \<open>\<open>s[strings.LastIndex(s, c):]\<close>, with the empty string when there is none.\<close>

definition from_last :: "char \<Rightarrow> string \<Rightarrow> string" where
  "from_last c s =
     (if c \<in> set s then c # rev (takeWhile (\<lambda>x. x \<noteq> c) (rev s)) else [])"

definition parse_host :: "string \<Rightarrow> string option" where
  "parse_host h =
     (if has_prefix h ''['' then
        (if CHR '']'' \<notin> set h then None
         else if \<not> valid_optional_port (tl (from_last CHR '']'' h)) then None
         else unescape_host h)
      else if \<not> valid_optional_port (from_last CHR '':'' h) then None
      else unescape_host h)"

definition userinfo_char :: "char \<Rightarrow> bool" where
  "userinfo_char c =
     (is_alpha c \<or> is_digit c \<or> c \<in> set ''-._:~!$&()*+,;=%@'' \<or> (of_char c :: nat) = 39)"

definition parse_authority :: "string \<Rightarrow> string option" where
  "parse_authority a =
     (if CHR ''@'' \<notin> set a then parse_host a
      else
        let host = tl (from_last CHR ''@'' a);
            user = take (length a - Suc (length host)) a
        in case parse_host host of
             None \<Rightarrow> None
           | Some h \<Rightarrow>
               if \<not> list_all userinfo_char user \<or> unescape False user = None then None else Some h)"

definition mk_url :: "string \<Rightarrow> string \<Rightarrow> string \<Rightarrow> string \<Rightarrow> url option" where
  "mk_url sch host p q =
     (case unescape False p of
        None \<Rightarrow> None
      | Some d \<Rightarrow> Some \<lparr>u_scheme = sch, u_host = host, u_path = d, u_rawpath = p, u_rawquery = q\<rparr>)"

text \<open>\<open>url.Parse\<close>, with \<^const>\<open>None\<close> for its errors.\<close>

definition parse_url :: "string \<Rightarrow> url option" where
  "parse_url raw =
     (let (u, frag) = (case cut_str ''#'' raw of None \<Rightarrow> (raw, []) | Some p \<Rightarrow> p) in
      if list_ex is_ctl u \<or> unescape False frag = None then None
      else case get_scheme u of
        None \<Rightarrow> None
      | Some (sch, r0) \<Rightarrow>
          let (r, q) = (case cut_str ''?'' r0 of None \<Rightarrow> (r0, []) | Some p \<Rightarrow> p) in
          if \<not> has_prefix r ''/'' then
            (if sch \<noteq> [] then
               Some \<lparr>u_scheme = sch, u_host = [], u_path = [], u_rawpath = [], u_rawquery = q\<rparr>
             else if CHR '':'' \<in> set (takeWhile (\<lambda>c. c \<noteq> CHR ''/'') r) then None
             else mk_url [] [] r q)
          else if (sch \<noteq> [] \<or> \<not> has_prefix r ''///'') \<and> has_prefix r ''//'' then
            (let a = takeWhile (\<lambda>c. c \<noteq> CHR ''/'') (drop 2 r);
                 p = dropWhile (\<lambda>c. c \<noteq> CHR ''/'') (drop 2 r)
             in case parse_authority a of None \<Rightarrow> None | Some h \<Rightarrow> mk_url sch h p q)
          else mk_url sch [] r q)"

section \<open>Absolute URLs over a base\<close>

text \<open>
  A base such as \<^verbatim>\<open>https://storage.googleapis.com\<close>: a scheme, \<^verbatim>\<open>://\<close> and an
  authority that \<open>url.Parse\<close> accepts.
\<close>

definition plain_url_char :: "char \<Rightarrow> bool" where
  "plain_url_char c = (\<not> is_ctl c \<and> c \<noteq> CHR ''#'' \<and> c \<noteq> CHR ''?'')"

definition base_parts :: "string \<Rightarrow> string \<Rightarrow> string \<Rightarrow> string \<Rightarrow> bool" where
  "base_parts b sch auth host \<longleftrightarrow>
     b = sch @ ''://'' @ auth \<and> sch \<noteq> [] \<and> list_all is_alpha sch \<and>
     list_all plain_url_char auth \<and> CHR ''/'' \<notin> set auth \<and> parse_authority auth = Some host"

lemma is_alpha_props:
  "is_alpha c \<Longrightarrow> scheme_char c \<and> plain_url_char c \<and> c \<noteq> CHR '':'' \<and> c \<noteq> CHR ''/''"
  by (auto simp: is_alpha_def scheme_char_def plain_url_char_def is_ctl_def Let_def)

lemma get_scheme_base:
  assumes "sch \<noteq> []" "list_all is_alpha sch"
  shows "get_scheme (sch @ '':'' @ t) = Some (sch, t)"
proof -
  have nc: "\<not> scheme_char (CHR '':'')"
    by (simp add: scheme_char_def is_alpha_def is_digit_def)
  have al: "\<And>x. x \<in> set sch \<Longrightarrow> scheme_char x"
    using assms(2) is_alpha_props by (auto simp: list_all_iff)
  have "takeWhile scheme_char (sch @ CHR '':'' # t) = sch"
    "dropWhile scheme_char (sch @ CHR '':'' # t) = CHR '':'' # t"
    using al nc by (simp_all add: takeWhile_append2 dropWhile_append2)
  with assms show ?thesis
    by (cases sch) (auto simp: get_scheme_def)
qed

lemma cut_str_absent1: "c \<notin> set s \<Longrightarrow> cut_str [c] s = None"
  by (rule cut_absent)

lemma cut_str_first1: "c \<notin> set a \<Longrightarrow> cut_str [c] (a @ c # b) = Some (a, b)"
  using cut_first [of c a "[]" b] by simp

lemma plain_url_string:
  "list_all plain_url_char s \<Longrightarrow> CHR ''#'' \<notin> set s \<and> CHR ''?'' \<notin> set s \<and> \<not> list_ex is_ctl s"
  unfolding list_all_iff list_ex_iff plain_url_char_def by blast

text \<open>The shape every backend URL has: base, path, and an optional raw query.\<close>

lemma parse_url_base:
  assumes base: "base_parts b sch auth host"
    and p: "has_prefix p ''/''" "list_all plain_url_char p" "unescape False p = Some d"
    and q: "CHR ''#'' \<notin> set q" "\<not> list_ex is_ctl q"
  shows "parse_url (b @ p @ (if hasq then CHR ''?'' # q else [])) =
           Some \<lparr>u_scheme = sch, u_host = host, u_path = d, u_rawpath = p,
                 u_rawquery = (if hasq then q else [])\<rparr>"
proof -
  let ?tail = "if hasq then CHR ''?'' # q else []"
  let ?raw = "b @ p @ ?tail"
  from base have b: "b = sch @ ''://'' @ auth" and sch: "sch \<noteq> []" "list_all is_alpha sch"
    and auth: "list_all plain_url_char auth" "CHR ''/'' \<notin> set auth"
      "parse_authority auth = Some host"
    by (auto simp: base_parts_def)
  have plain: "list_all plain_url_char (''//'' @ auth @ p)"
    using auth(1) p(2) by (simp add: plain_url_char_def is_ctl_def)
  have schp: "list_all plain_url_char (sch @ '':'')"
    using sch(2) is_alpha_props by (auto simp: list_all_iff plain_url_char_def is_ctl_def)
  note pl = plain_url_string [OF plain] plain_url_string [OF schp]
  have raw: "?raw = (sch @ '':'') @ (''//'' @ auth @ p) @ ?tail" by (simp add: b)
  have "CHR ''#'' \<notin> set ?raw"
    unfolding raw set_append using pl q(1) by simp
  then have c1: "cut_str ''#'' ?raw = None" by (rule cut_str_absent1)
  have "\<not> list_ex is_ctl ?tail" using q(2) by (simp add: is_ctl_def)
  then have ctl: "\<not> list_ex is_ctl ?raw"
    unfolding raw using pl by (simp only: list_ex_append) blast
  have gs: "get_scheme ?raw = Some (sch, (''//'' @ auth @ p) @ ?tail)"
    using get_scheme_base [OF sch, of "(''//'' @ auth @ p) @ ?tail"] by (simp add: b)
  have nq: "CHR ''?'' \<notin> set (''//'' @ auth @ p)"
    using pl by blast
  have c2: "(case cut_str ''?'' ((''//'' @ auth @ p) @ ?tail) of
               None \<Rightarrow> ((''//'' @ auth @ p) @ ?tail, []) | Some x \<Rightarrow> x)
            = (''//'' @ auth @ p, if hasq then q else [])"
    using cut_str_first1 [OF nq, of q] cut_str_absent1 [OF nq] by simp
  obtain p' where p': "p = CHR ''/'' # p'"
    using p(1) by (cases p) auto
  have tw: "takeWhile (\<lambda>c. c \<noteq> CHR ''/'') (auth @ p) = auth"
    "dropWhile (\<lambda>c. c \<noteq> CHR ''/'') (auth @ p) = p"
    using auth(2) p' by (auto simp: takeWhile_append dropWhile_append)
  show ?thesis
    unfolding parse_url_def Let_def c1 option.case prod.case gs c2
    using ctl sch(1) auth(3) p(3) tw by (simp add: mk_url_def)
qed

end
