(* ===== verification/Go_Json.thy ===== *)
theory Go_Json
  imports Go_Url
begin

text \<open>
  Go's \<open>encoding/json\<close> as the service uses it: \<open>Marshal\<close> / \<open>Encoder.Encode\<close> with
  HTML escaping, the scanner and the string unquoting of \<open>Unmarshal\<close> (UTF-8, surrogate
  pairs, the replacement character, the nesting limit of 10000), and the decoding of an
  object into a struct with case-insensitive field names. The main lemma is the round
  trip: what is encoded from ASCII strings, integers, booleans, arrays and objects parses
  back to the same value.
\<close>

datatype json =
    JNull
  | JBool bool
  | JNum string
  | JStr string
  | JArr "json list"
  | JObj "(string \<times> json) list"

section \<open>UTF-8\<close>

definition code :: "char \<Rightarrow> nat" where
  "code c = of_char c"

definition in_range :: "nat \<Rightarrow> nat \<Rightarrow> char \<Rightarrow> bool" where
  "in_range a b c = (a \<le> code c \<and> code c \<le> b)"

text \<open>
  The width of the rune at the front, as \<open>utf8.DecodeRune\<close> finds it; 0 for a byte that
  starts no valid encoding.
\<close>

definition rune_width :: "string \<Rightarrow> nat" where
  "rune_width s =
     (case s of
        [] \<Rightarrow> 0
      | c # r \<Rightarrow>
          if code c < 128 then 1
          else if in_range 194 223 c \<and> (case r of a # _ \<Rightarrow> in_range 128 191 a | _ \<Rightarrow> False) then 2
          else if (case r of a # b # _ \<Rightarrow>
                     in_range 128 191 b \<and>
                     (in_range 224 224 c \<and> in_range 160 191 a \<or>
                      in_range 225 236 c \<and> in_range 128 191 a \<or>
                      in_range 237 237 c \<and> in_range 128 159 a \<or>
                      in_range 238 239 c \<and> in_range 128 191 a)
                   | _ \<Rightarrow> False) then 3
          else if (case r of a # b # d # _ \<Rightarrow>
                     in_range 128 191 b \<and> in_range 128 191 d \<and>
                     (in_range 240 240 c \<and> in_range 144 191 a \<or>
                      in_range 241 243 c \<and> in_range 128 191 a \<or>
                      in_range 244 244 c \<and> in_range 128 143 a)
                   | _ \<Rightarrow> False) then 4
          else 0)"

text \<open>\<open>utf8.AppendRune\<close>.\<close>

definition utf8_encode :: "nat \<Rightarrow> string" where
  "utf8_encode r =
     map char_of
       (if r < 128 then [r]
        else if r < 2048 then [192 + r div 64, 128 + r mod 64]
        else if r < 65536 then [224 + r div 4096, 128 + r div 64 mod 64, 128 + r mod 64]
        else [240 + r div 262144, 128 + r div 4096 mod 64, 128 + r div 64 mod 64, 128 + r mod 64])"

definition replacement :: string where
  "replacement = utf8_encode 65533"

section \<open>Encoding\<close>

definition backslash :: char where "backslash = CHR 0x5C"
definition dquote :: char where "dquote = CHR 0x22"
definition newline :: char where "newline = CHR 0x0A"

definition json_escape_ascii :: "char \<Rightarrow> string" where
  "json_escape_ascii c =
     (if c = dquote \<or> c = backslash then [backslash, c]
      else if c = CHR 0x08 then [backslash, CHR ''b'']
      else if c = CHR 0x0C then [backslash, CHR ''f'']
      else if c = CHR 0x0A then [backslash, CHR ''n'']
      else if c = CHR 0x0D then [backslash, CHR ''r'']
      else if c = CHR 0x09 then [backslash, CHR ''t'']
      else if code c < 32 \<or> c \<in> set ''<>&''
      then [backslash, CHR ''u'', CHR ''0'', CHR ''0'',
            hex_chars ! (code c div 16), hex_chars ! (code c mod 16)]
      else [c])"

definition line_separators :: "string list" where
  "line_separators = [utf8_encode 8232, utf8_encode 8233]"

function json_escape :: "string \<Rightarrow> string" where
  "json_escape [] = []"
| "json_escape (c # s) =
     (if code c < 128 then json_escape_ascii c @ json_escape s
      else let n = rune_width (c # s); r = take n (c # s) in
        (if n = 0 then backslash # ''ufffd''
         else if r = line_separators ! 0 then backslash # ''u2028''
         else if r = line_separators ! 1 then backslash # ''u2029''
         else r) @ json_escape (drop (n - 1) s))"
  by pat_completeness auto
termination by (relation "measure length") auto

definition json_quote :: "string \<Rightarrow> string" where
  "json_quote s = dquote # json_escape s @ [dquote]"

primrec json_encode :: "json \<Rightarrow> string" where
  "json_encode JNull = ''null''"
| "json_encode (JBool b) = (if b then ''true'' else ''false'')"
| "json_encode (JNum l) = l"
| "json_encode (JStr s) = json_quote s"
| "json_encode (JArr xs) = ''['' @ join '','' (map json_encode xs) @ '']''"
| "json_encode (JObj kvs) =
     CHR 0x7B # join '','' (map (\<lambda>(k, e). json_quote k @ '':'' @ e)
                              (map (map_prod id json_encode) kvs)) @ [CHR 0x7D]"

text \<open>\<open>Encoder.Encode\<close> ends the value with a newline.\<close>

definition json_encode_line :: "json \<Rightarrow> string" where
  "json_encode_line j = json_encode j @ [newline]"

section \<open>Parsing\<close>

definition skip_ws :: "string \<Rightarrow> string" where
  "skip_ws s = dropWhile (\<lambda>c. c \<in> {CHR '' '', CHR 0x09, CHR 0x0A, CHR 0x0D}) s"

text \<open>Four hexadecimal digits, the \<open>getu4\<close> of a \<open>\u\<close> escape.\<close>

definition hex4 :: "string \<Rightarrow> nat option" where
  "hex4 s =
     (case map hex_val (take 4 s) of
        [Some a, Some b, Some c, Some d] \<Rightarrow> Some (4096 * a + 256 * b + 16 * c + d)
      | _ \<Rightarrow> None)"

definition simple_escape :: "char \<Rightarrow> char option" where
  "simple_escape c =
     (if c = dquote \<or> c = backslash \<or> c = CHR ''/'' then Some c
      else if c = CHR ''b'' then Some (CHR 0x08)
      else if c = CHR ''f'' then Some (CHR 0x0C)
      else if c = CHR ''n'' then Some (CHR 0x0A)
      else if c = CHR ''r'' then Some (CHR 0x0D)
      else if c = CHR ''t'' then Some (CHR 0x09)
      else None)"

text \<open>
  A \<open>\u\<close> escape after its first four digits: the bytes it stands for and how many more
  input bytes a surrogate pair consumes.
\<close>

definition unicode_escape :: "nat \<Rightarrow> string \<Rightarrow> string \<times> nat" where
  "unicode_escape u rest =
     (if 55296 \<le> u \<and> u < 57344 then
        (case (if take 2 rest = [backslash, CHR ''u''] then hex4 (drop 2 rest) else None) of
           Some v \<Rightarrow>
             if u < 56320 \<and> 56320 \<le> v \<and> v < 57344
             then (utf8_encode (65536 + (u - 55296) * 1024 + (v - 56320)), 6)
             else (replacement, 0)
         | None \<Rightarrow> (replacement, 0))
      else (utf8_encode u, 0))"

text \<open>A string literal after its opening quote: its value and the rest of the input.\<close>

function p_string :: "string \<Rightarrow> (string \<times> string) option" where
  "p_string [] = None"
| "p_string (c # s) =
     (if c = dquote then Some ([], s)
      else if c = backslash then
        (case s of
           [] \<Rightarrow> None
         | e # t \<Rightarrow>
             if e = CHR ''u'' then
               (case hex4 t of
                  None \<Rightarrow> None
                | Some u \<Rightarrow>
                    (let (x, n) = unicode_escape u (drop 4 t) in
                     map_option (apfst ((@) x)) (p_string (drop (4 + n) t))))
             else (case simple_escape e of
                     None \<Rightarrow> None
                   | Some x \<Rightarrow> map_option (apfst ((#) x)) (p_string t)))
      else if code c < 32 then None
      else let n = rune_width (c # s) in
        if n = 0 then map_option (apfst ((@) replacement)) (p_string s)
        else map_option (apfst ((@) (take n (c # s)))) (p_string (drop (n - 1) s)))"
  by pat_completeness auto
termination by (relation "measure length") auto

text \<open>A number literal: optional minus, integer part, fraction, exponent.\<close>

definition p_fraction :: "string \<Rightarrow> (string \<times> string) option" where
  "p_fraction s =
     (case s of
        c # t \<Rightarrow>
          if c = CHR ''.'' then
            (let d = takeWhile is_digit t in
             if d = [] then None else Some (c # d, dropWhile is_digit t))
          else Some ([], s)
      | [] \<Rightarrow> Some ([], []))"

definition p_exponent :: "string \<Rightarrow> (string \<times> string) option" where
  "p_exponent s =
     (case s of
        c # t \<Rightarrow>
          if c = CHR ''e'' \<or> c = CHR ''E'' then
            (let sg = (case t of x # _ \<Rightarrow> if x = CHR ''+'' \<or> x = CHR ''-'' then [x] else [] | [] \<Rightarrow> []);
                 u = drop (length sg) t;
                 d = takeWhile is_digit u in
             if d = [] then None else Some (c # sg @ d, dropWhile is_digit u))
          else Some ([], s)
      | [] \<Rightarrow> Some ([], []))"

definition p_number :: "string \<Rightarrow> (string \<times> string) option" where
  "p_number s =
     (let neg = (case s of c # _ \<Rightarrow> c = CHR ''-'' | [] \<Rightarrow> False);
          sg = (if neg then ''-'' else []);
          u = (if neg then tl s else s);
          ds = (case u of c # _ \<Rightarrow> if c = CHR ''0'' then ''0'' else takeWhile is_digit u | [] \<Rightarrow> [])
      in if ds = [] then None
         else case p_fraction (drop (length ds) u) of
                None \<Rightarrow> None
              | Some (f, r1) \<Rightarrow>
                  (case p_exponent r1 of
                     None \<Rightarrow> None
                   | Some (e, r2) \<Rightarrow> Some (sg @ ds @ f @ e, r2)))"

text \<open>
  The value parser: \<open>n\<close> is fuel, one unit per value and per list element or member, and
  \<open>d\<close> is how many more brackets may be opened.
\<close>

fun p_value :: "nat \<Rightarrow> nat \<Rightarrow> string \<Rightarrow> (json \<times> string) option"
  and p_elems :: "nat \<Rightarrow> nat \<Rightarrow> string \<Rightarrow> (json list \<times> string) option"
  and p_members :: "nat \<Rightarrow> nat \<Rightarrow> string \<Rightarrow> ((string \<times> json) list \<times> string) option" where
  "p_value 0 d s = None"
| "p_value (Suc n) d s =
     (case skip_ws s of
        [] \<Rightarrow> None
      | c # t \<Rightarrow>
          if c = CHR 0x7B then
            (if d = 0 then None
             else case skip_ws t of
               [] \<Rightarrow> None
             | x # r \<Rightarrow>
                 if x = CHR 0x7D then Some (JObj [], r)
                 else map_option (apfst JObj) (p_members n (d - 1) (x # r)))
          else if c = CHR ''['' then
            (if d = 0 then None
             else case skip_ws t of
               [] \<Rightarrow> None
             | x # r \<Rightarrow>
                 if x = CHR '']'' then Some (JArr [], r)
                 else map_option (apfst JArr) (p_elems n (d - 1) (x # r)))
          else if c = dquote then map_option (apfst JStr) (p_string t)
          else if has_prefix (c # t) ''true'' then Some (JBool True, drop 3 t)
          else if has_prefix (c # t) ''false'' then Some (JBool False, drop 4 t)
          else if has_prefix (c # t) ''null'' then Some (JNull, drop 3 t)
          else map_option (apfst JNum) (p_number (c # t)))"
| "p_elems 0 d s = None"
| "p_elems (Suc n) d s =
     (case p_value n d s of
        None \<Rightarrow> None
      | Some (v, r) \<Rightarrow>
          (case skip_ws r of
             [] \<Rightarrow> None
           | x # r' \<Rightarrow>
               if x = CHR '']'' then Some ([v], r')
               else if x = CHR '','' then map_option (apfst ((#) v)) (p_elems n d r')
               else None))"
| "p_members 0 d s = None"
| "p_members (Suc n) d s =
     (case skip_ws s of
        [] \<Rightarrow> None
      | q # t \<Rightarrow>
          if q \<noteq> dquote then None
          else (case p_string t of
                  None \<Rightarrow> None
                | Some (k, r0) \<Rightarrow>
                    (case skip_ws r0 of
                       [] \<Rightarrow> None
                     | x # r1 \<Rightarrow>
                         if x \<noteq> CHR '':'' then None
                         else (case p_value n d r1 of
                                 None \<Rightarrow> None
                               | Some (v, r) \<Rightarrow>
                                   (case skip_ws r of
                                      [] \<Rightarrow> None
                                    | y # r' \<Rightarrow>
                                        if y = CHR 0x7D then Some ([(k, v)], r')
                                        else if y = CHR '','' then
                                          map_option (apfst ((#) (k, v))) (p_members n d r')
                                        else None)))))"

text \<open>
  \<open>Decoder.Decode\<close> reads one value and leaves the rest; \<open>Unmarshal\<close> also insists that
  only white space follows. Every recursive call consumes input, so twice the input's
  length is enough fuel.
\<close>

definition json_decode_prefix :: "string \<Rightarrow> json option" where
  "json_decode_prefix s = map_option fst (p_value (Suc (2 * length s)) 10000 s)"

definition json_parse :: "string \<Rightarrow> json option" where
  "json_parse s =
     (case p_value (Suc (2 * length s)) 10000 s of
        Some (j, r) \<Rightarrow> if skip_ws r = [] then Some j else None
      | None \<Rightarrow> None)"

section \<open>Decoding into structs\<close>

text \<open>
  Field names match case-insensitively. Beside the ASCII letters, the long s and the
  Kelvin sign fold to S and K.
\<close>

definition upper_char :: "char \<Rightarrow> char" where
  "upper_char c = (if in_range 97 122 c then char_of (code c - 32) else c)"

fun json_fold :: "string \<Rightarrow> string" where
  "json_fold [] = []"
| "json_fold (c # s) =
     (if take 2 (c # s) = map char_of [197, 191 :: nat] then CHR ''S'' # json_fold (drop 1 s)
      else if take 3 (c # s) = map char_of [226, 132, 170 :: nat] then CHR ''K'' # json_fold (drop 2 s)
      else upper_char c # json_fold s)"

definition json_field :: "string \<Rightarrow> (string \<times> json) list \<Rightarrow> json list" where
  "json_field name kvs = map snd (filter (\<lambda>(k, v). json_fold k = json_fold name) kvs)"

text \<open>
  A struct is filled member by member, so a later duplicate wins, \<open>null\<close> leaves a field
  alone, and a value of the wrong type makes the decoding fail.
\<close>

definition json_members :: "json \<Rightarrow> (string \<times> json) list option" where
  "json_members j = (case j of JObj kvs \<Rightarrow> Some kvs | JNull \<Rightarrow> Some [] | _ \<Rightarrow> None)"

fun json_str_field :: "json list \<Rightarrow> string \<Rightarrow> string option" where
  "json_str_field [] acc = Some acc"
| "json_str_field (v # vs) acc =
     (case v of
        JStr s \<Rightarrow> json_str_field vs s
      | JNull \<Rightarrow> json_str_field vs acc
      | _ \<Rightarrow> None)"

fun json_int64_field :: "json list \<Rightarrow> int64 \<Rightarrow> int64 option" where
  "json_int64_field [] acc = Some acc"
| "json_int64_field (v # vs) acc =
     (case v of
        JNum l \<Rightarrow> (case parse_int64 l of None \<Rightarrow> None | Some n \<Rightarrow> json_int64_field vs n)
      | JNull \<Rightarrow> json_int64_field vs acc
      | _ \<Rightarrow> None)"

fun json_obj_field :: "json list \<Rightarrow> (string \<times> json) list option" where
  "json_obj_field [] = Some []"
| "json_obj_field (v # vs) =
     (case json_members v of
        None \<Rightarrow> None
      | Some kvs \<Rightarrow> map_option ((@) kvs) (json_obj_field vs))"

definition decode_str :: "string \<Rightarrow> (string \<times> json) list \<Rightarrow> string option" where
  "decode_str name kvs = json_str_field (json_field name kvs) []"

definition decode_int64 :: "string \<Rightarrow> (string \<times> json) list \<Rightarrow> int64 option" where
  "decode_int64 name kvs = json_int64_field (json_field name kvs) 0"

definition decode_obj :: "string \<Rightarrow> (string \<times> json) list \<Rightarrow> (string \<times> json) list option" where
  "decode_obj name kvs = json_obj_field (json_field name kvs)"

section \<open>Round trip\<close>

definition ascii :: "string \<Rightarrow> bool" where
  "ascii s = list_all (\<lambda>c. code c < 128) s"

primrec json_plain :: "json \<Rightarrow> bool" where
  "json_plain JNull = True"
| "json_plain (JBool b) = True"
| "json_plain (JNum l) = (\<exists>i. l = itoa i)"
| "json_plain (JStr s) = ascii s"
| "json_plain (JArr xs) = list_all id (map json_plain xs)"
| "json_plain (JObj kvs) = list_all (\<lambda>(k, p). ascii k \<and> p) (map (map_prod id json_plain) kvs)"

primrec json_depth :: "json \<Rightarrow> nat" where
  "json_depth JNull = 0"
| "json_depth (JBool b) = 0"
| "json_depth (JNum l) = 0"
| "json_depth (JStr s) = 0"
| "json_depth (JArr xs) = Suc (fold max (map json_depth xs) 0)"
| "json_depth (JObj kvs) = Suc (fold max (map snd (map (map_prod id json_depth) kvs)) 0)"

primrec json_fuel :: "json \<Rightarrow> nat" where
  "json_fuel JNull = 1"
| "json_fuel (JBool b) = 1"
| "json_fuel (JNum l) = 1"
| "json_fuel (JStr s) = 1"
| "json_fuel (JArr xs) = 1 + (\<Sum>n\<leftarrow>map json_fuel xs. 1 + n)"
| "json_fuel (JObj kvs) = 1 + (\<Sum>n\<leftarrow>map snd (map (map_prod id json_fuel) kvs). 1 + n)"

lemma json_escape_ascii_cases:
  obtains (u) "json_escape_ascii c = [backslash, CHR ''u'', CHR ''0'', CHR ''0'',
            hex_chars ! (code c div 16), hex_chars ! (code c mod 16)]"
    | (e) x where "json_escape_ascii c = [backslash, x]" "simple_escape x = Some c" "x \<noteq> CHR ''u''"
    | (p) "json_escape_ascii c = [c]" "c \<noteq> dquote" "c \<noteq> backslash" "\<not> code c < 32"
proof -
  have *: "\<exists>x. json_escape_ascii c = [backslash, x] \<and> simple_escape x = Some c \<and> x \<noteq> CHR ''u''"
    if "c \<in> {dquote, backslash, CHR 0x08, CHR 0x0C, CHR 0x0A, CHR 0x0D, CHR 0x09}"
    using that by (auto simp: json_escape_ascii_def simple_escape_def backslash_def dquote_def)
  have **: "json_escape_ascii c = (if code c < 32 \<or> c \<in> set ''<>&''
      then [backslash, CHR ''u'', CHR ''0'', CHR ''0'',
            hex_chars ! (code c div 16), hex_chars ! (code c mod 16)] else [c])"
    if "c \<notin> {dquote, backslash, CHR 0x08, CHR 0x0C, CHR 0x0A, CHR 0x0D, CHR 0x09}"
    using that by (simp add: json_escape_ascii_def)
  show thesis
  proof (cases "c \<in> {dquote, backslash, CHR 0x08, CHR 0x0C, CHR 0x0A, CHR 0x0D, CHR 0x09}")
    case True
    with * e show thesis by blast
  next
    case False
    then have ne: "c \<noteq> dquote" "c \<noteq> backslash" by blast+
    show thesis
    proof (cases "code c < 32 \<or> c \<in> set ''<>&''")
      case True
      with ** [OF False] u show thesis by simp
    next
      case plain: False
      with ** [OF False] ne p show thesis by simp
    qed
  qed
qed

lemma p_string_ascii_char:
  assumes "code c < 128"
  shows "p_string (json_escape_ascii c @ t) = map_option (apfst ((#) c)) (p_string t)"
proof -
  consider (u) "json_escape_ascii c = [backslash, CHR ''u'', CHR ''0'', CHR ''0'',
            hex_chars ! (code c div 16), hex_chars ! (code c mod 16)]"
    | (e) x where "json_escape_ascii c = [backslash, x]" "simple_escape x = Some c" "x \<noteq> CHR ''u''"
    | (p) "json_escape_ascii c = [c]" "c \<noteq> dquote" "c \<noteq> backslash" "\<not> code c < 32"
    by (rule json_escape_ascii_cases)
  then show ?thesis
  proof cases
    case u
    have "hex_val (hex_chars ! (code c div 16)) = Some (code c div 16)"
      "hex_val (hex_chars ! (code c mod 16)) = Some (code c mod 16)"
      using assms by (auto intro!: hex_val_chars)
    moreover have "hex_val (CHR ''0'') = Some 0" by (simp add: hex_val_def)
    moreover have "16 * (code c div 16) + code c mod 16 = code c" by simp
    ultimately have "hex4 (CHR ''0'' # CHR ''0'' # hex_chars ! (code c div 16) #
        hex_chars ! (code c mod 16) # t) = Some (code c)"
      by (simp add: hex4_def)
    moreover have "unicode_escape (code c) t = ([c], 0)"
      using assms by (simp add: unicode_escape_def utf8_encode_def code_def)
    moreover have "(@) [c] = (#) c" by (rule ext) simp
    moreover have "CHR ''u'' \<noteq> dquote" "backslash \<noteq> dquote"
      by (simp_all add: dquote_def backslash_def)
    ultimately show ?thesis
      by (simp add: u)
  next
    case e
    moreover have "backslash \<noteq> dquote" by (simp add: dquote_def backslash_def)
    ultimately show ?thesis by simp
  next
    case p
    moreover have "(@) [c] = (#) c" by (rule ext) simp
    ultimately show ?thesis using assms by (simp add: rune_width_def)
  qed
qed

lemma p_string_quote:
  "ascii s \<Longrightarrow> p_string (json_escape s @ dquote # r) = Some (s, r)"
  by (induction s) (simp_all add: ascii_def p_string_ascii_char)

definition num_end :: "string \<Rightarrow> bool" where
  "num_end r = (case r of [] \<Rightarrow> True | c # _ \<Rightarrow> \<not> is_digit c \<and> c \<notin> set ''.eE'')"

lemma is_digit_digit_char: "n < 10 \<Longrightarrow> is_digit (digit_char n)"
  by (simp add: is_digit_def digit_char_def)

lemma nat_str_digits: "list_all is_digit (nat_str n)"
proof (induction n rule: nat_str.induct)
  case (1 n)
  then show ?case
    by (cases "n < 10") (simp_all add: nat_str.simps [of n] is_digit_digit_char)
qed

lemma nat_str_no_zero: "n \<noteq> 0 \<Longrightarrow> \<exists>c t. nat_str n = c # t \<and> c \<noteq> CHR ''0''"
proof (induction n rule: nat_str.induct)
  case (1 n)
  show ?case
  proof (cases "n < 10")
    case True
    have "digit_val (digit_char n) \<noteq> digit_val (CHR ''0'')"
      using True 1(2) by (simp add: digit_val_def digit_char_def)
    then have "digit_char n \<noteq> CHR ''0''" by metis
    with True show ?thesis by (simp add: nat_str.simps [of n])
  next
    case False
    then have "0 < n div 10" by simp
    with False 1 obtain c t where "nat_str (n div 10) = c # t" "c \<noteq> CHR ''0''" by blast
    with False show ?thesis by (simp add: nat_str.simps [of n])
  qed
qed

lemma p_fraction_end: "num_end r \<Longrightarrow> p_fraction r = Some ([], r)"
  by (auto simp: num_end_def p_fraction_def split: list.splits)

lemma p_exponent_end: "num_end r \<Longrightarrow> p_exponent r = Some ([], r)"
  by (auto simp: num_end_def p_exponent_def split: list.splits)

lemma takeWhile_digits:
  "num_end r \<Longrightarrow> takeWhile is_digit (nat_str n @ r) = nat_str n"
  using nat_str_digits [of n]
  by (subst takeWhile_append2) (auto simp: list_all_iff num_end_def split: list.splits)

lemma p_number_nat:
  assumes "num_end r"
  shows "(let ds = (case nat_str n @ r of c # _ \<Rightarrow> if c = CHR ''0'' then ''0''
                      else takeWhile is_digit (nat_str n @ r) | [] \<Rightarrow> []) in ds) = nat_str n"
proof (cases "n = 0")
  case True
  have "digit_char 0 = CHR ''0''" by code_simp
  with True show ?thesis by (simp add: nat_str.simps [of 0])
next
  case False
  then obtain c t where ct: "nat_str n = c # t" "c \<noteq> CHR ''0''"
    using nat_str_no_zero by blast
  then show ?thesis
    using takeWhile_digits [OF assms, of n] by simp
qed

lemma p_number_itoa:
  assumes "num_end r"
  shows "p_number (itoa i @ r) = Some (itoa i, r)"
proof -
  obtain d t where dt: "\<And>n. nat_str n = digit_char (d n) # t n" "\<And>n. d n < 10"
    using nat_str_hd by metis
  have nm: "digit_char (d n) \<noteq> CHR ''-''" for n
    using digit_char_not_sign [OF dt(2)] by blast
  have ne: "nat_str n \<noteq> []" for n using dt(1) by simp
  show ?thesis
  proof (cases "i < 0")
    case True
    then show ?thesis
      using p_number_nat [OF assms, of "nat (- i)"] ne assms
      by (simp add: itoa_def p_number_def p_fraction_end p_exponent_end)
  next
    case False
    have "(case nat_str (nat i) @ r of c # x \<Rightarrow> c = CHR ''-'' | [] \<Rightarrow> False) = False"
      using dt(1) nm by simp
    with False show ?thesis
      using p_number_nat [OF assms, of "nat i"] ne assms
      by (simp add: itoa_def p_number_def p_fraction_end p_exponent_end)
  qed
qed

lemma skip_ws_plain:
  "c \<notin> {CHR '' '', CHR 0x09, CHR 0x0A, CHR 0x0D} \<Longrightarrow> skip_ws (c # s) = c # s"
  by (simp add: skip_ws_def)

lemma digit_not_ws: "is_digit c \<or> c = CHR ''-'' \<Longrightarrow>
    c \<notin> {CHR '' '', CHR 0x09, CHR 0x0A, CHR 0x0D} \<and> c \<notin> set ''[]tfn'' \<and>
    c \<noteq> CHR 0x7B \<and> c \<noteq> CHR 0x7D \<and> c \<noteq> dquote"
  by (auto simp: is_digit_def dquote_def)

lemma itoa_hd: "\<exists>c t. itoa i = c # t \<and> (is_digit c \<or> c = CHR ''-'')"
  using nat_str_hd [of "nat i"] is_digit_digit_char by (auto simp: itoa_def)

lemma p_value_num:
  assumes "num_end r"
  shows "p_value (Suc n) d (itoa i @ r) = Some (JNum (itoa i), r)"
proof -
  obtain c t where ct: "itoa i = c # t" and c: "is_digit c \<or> c = CHR ''-''"
    using itoa_hd by blast
  note dw = digit_not_ws [OF c]
  have "skip_ws (itoa i @ r) = c # t @ r"
    using dw ct skip_ws_plain by simp
  then show ?thesis
    using dw p_number_itoa [OF assms, of i] ct by simp
qed

lemma num_end_simps [simp]:
  "num_end []" "num_end (CHR '','' # r)" "num_end (CHR '']'' # r)" "num_end (CHR 0x7D # r)"
  "num_end (newline # r)"
  by (simp_all add: num_end_def is_digit_def newline_def)

definition encode_member :: "string \<times> json \<Rightarrow> string" where
  "encode_member kv = json_quote (fst kv) @ '':'' @ json_encode (snd kv)"

lemma json_encode_JObj:
  "json_encode (JObj kvs) = CHR 0x7B # join '','' (map encode_member kvs) @ [CHR 0x7D]"
proof -
  have "map (\<lambda>(k, e). json_quote k @ '':'' @ e) (map (map_prod id json_encode) kvs)
      = map encode_member kvs"
    by (simp add: encode_member_def split_beta)
  then show ?thesis by (simp only: json_encode.simps)
qed

lemma join_Cons: "join sep (x # xs) = x @ (if xs = [] then [] else sep @ join sep xs)"
  by (cases xs) simp_all

lemma p_elems_encode:
  assumes "\<And>x m r. x \<in> set xs \<Longrightarrow> json_fuel x \<le> m \<Longrightarrow> num_end r \<Longrightarrow>
             p_value m d (json_encode x @ r) = Some (x, r)"
    and "xs \<noteq> []" "(\<Sum>x\<leftarrow>xs. 1 + json_fuel x) \<le> n"
  shows "p_elems n d (join '','' (map json_encode xs) @ CHR '']'' # r) = Some (xs, r)"
  using assms
proof (induction xs arbitrary: n)
  case (Cons x xs)
  from Cons.prems(3) obtain m where m: "n = Suc m" "json_fuel x \<le> m"
    "(\<Sum>x\<leftarrow>xs. 1 + json_fuel x) \<le> m"
    by (cases n) auto
  show ?case
  proof (cases "xs = []")
    case True
    with Cons.prems(1) [of x m "CHR '']'' # r"] m show ?thesis
      by (simp add: join_Cons skip_ws_plain)
  next
    case False
    let ?rest = "join '','' (map json_encode xs) @ CHR '']'' # r"
    have "p_elems m d ?rest = Some (xs, r)"
      using Cons.IH [of m] Cons.prems(1) False m(3) by simp
    moreover have "p_value m d (json_encode x @ CHR '','' # ?rest) = Some (x, CHR '','' # ?rest)"
      using Cons.prems(1) [of x m] m by simp
    ultimately show ?thesis
      using False m(1) by (simp add: join_Cons skip_ws_plain)
  qed
qed simp

lemma p_members_encode:
  assumes "\<And>k x m r. (k, x) \<in> set kvs \<Longrightarrow> json_fuel x \<le> m \<Longrightarrow> num_end r \<Longrightarrow>
             p_value m d (json_encode x @ r) = Some (x, r)"
    and "\<And>k x. (k, x) \<in> set kvs \<Longrightarrow> ascii k"
    and "kvs \<noteq> []" "(\<Sum>kv\<leftarrow>kvs. 1 + json_fuel (snd kv)) \<le> n"
  shows "p_members n d (join '','' (map encode_member kvs) @ CHR 0x7D # r) = Some (kvs, r)"
  using assms
proof (induction kvs arbitrary: n)
  case (Cons kv kvs)
  obtain k x where kv: "kv = (k, x)" by fastforce
  from Cons.prems(4) kv obtain m where m: "n = Suc m" "json_fuel x \<le> m"
    "(\<Sum>kv\<leftarrow>kvs. 1 + json_fuel (snd kv)) \<le> m"
    by (cases n) auto
  have k: "ascii k" using Cons.prems(2) [of k x] kv by simp
  have head: "encode_member kv @ s = dquote # json_escape k @ dquote # CHR '':'' # json_encode x @ s" for s
    by (simp add: encode_member_def kv json_quote_def)
  have q: "skip_ws (dquote # s) = dquote # s" for s
    by (rule skip_ws_plain) (simp add: dquote_def)
  show ?case
  proof (cases "kvs = []")
    case True
    with Cons.prems(1) [of k x m "CHR 0x7D # r"] m kv show ?thesis
      using head [of "CHR 0x7D # r"]
      by (simp add: join_Cons skip_ws_plain q p_string_quote [OF k])
  next
    case False
    let ?rest = "join '','' (map encode_member kvs) @ CHR 0x7D # r"
    have "p_members m d ?rest = Some (kvs, r)"
    proof (rule Cons.IH [OF _ _ False m(3)])
      fix k' x' m' r'
      assume mem: "(k', x') \<in> set kvs"
      then show "ascii k'" by (intro Cons.prems(2) [of k' x']) simp
      assume "json_fuel x' \<le> m'" "num_end r'"
      with mem show "p_value m' d (json_encode x' @ r') = Some (x', r')"
        by (intro Cons.prems(1) [of k']) simp_all
    qed
    moreover have "p_value m d (json_encode x @ CHR '','' # ?rest) = Some (x, CHR '','' # ?rest)"
      using Cons.prems(1) [of k x m] m kv by simp
    ultimately show ?thesis
      using False m(1) kv head [of "CHR '','' # ?rest"]
      by (simp add: join_Cons skip_ws_plain q p_string_quote [OF k])
  qed
qed simp

lemma fold_max_le: "fold max xs a \<le> (d :: nat) \<longleftrightarrow> a \<le> d \<and> (\<forall>x\<in>set xs. x \<le> d)"
  by (induction xs arbitrary: a) auto

lemma json_encode_hd:
  assumes "json_plain j"
  shows "\<exists>c t. json_encode j = c # t \<and> c \<notin> {CHR '' '', CHR 0x09, CHR 0x0A, CHR 0x0D} \<and>
           c \<noteq> CHR '']'' \<and> c \<noteq> CHR 0x7D"
proof (cases j)
  case (JNum l)
  with assms obtain i where "l = itoa i" by auto
  with JNum itoa_hd [of i] digit_not_ws show ?thesis by fastforce
next
  case (JStr s)
  then show ?thesis by (auto simp: json_quote_def dquote_def)
qed (auto split: if_splits)

lemma join_hd:
  assumes "xs \<noteq> []" "f (hd xs) = c # t"
  shows "\<exists>u. join sep (map f xs) @ r = c # u"
  using assms by (cases xs) (auto simp: join_Cons)

lemma p_value_encode:
  "json_plain j \<Longrightarrow> json_fuel j \<le> n \<Longrightarrow> json_depth j \<le> d \<Longrightarrow> num_end r \<Longrightarrow>
     p_value n d (json_encode j @ r) = Some (j, r)"
proof (induction j arbitrary: n d r)
  case (JNum l)
  then show ?case using p_value_num by (cases n) auto
next
  case (JStr s)
  moreover have "dquote \<noteq> CHR 0x7B" "dquote \<noteq> CHR ''[''" "skip_ws (dquote # x) = dquote # x" for x
    using skip_ws_plain [of dquote] by (simp_all add: dquote_def)
  ultimately show ?case
    by (cases n) (simp_all add: json_quote_def p_string_quote)
next
  case (JArr xs)
  then obtain m e where m: "n = Suc m" "d = Suc e" by (cases n; cases d) auto
  have sk: "skip_ws (CHR ''['' # s) = CHR ''['' # s" for s by (rule skip_ws_plain) simp
  show ?case
  proof (cases "xs = []")
    case True
    then show ?thesis by (simp add: m sk skip_ws_plain)
  next
    case False
    have pl: "x \<in> set xs \<Longrightarrow> json_plain x" for x using JArr.prems(1) by (auto simp: list_all_iff)
    have dp: "x \<in> set xs \<Longrightarrow> json_depth x \<le> e" for x
      using JArr.prems(3) m by (simp add: fold_max_le)
    have "(\<Sum>x\<leftarrow>xs. 1 + json_fuel x) \<le> m"
      using JArr.prems(2) m by (simp add: comp_def)
    then have el: "p_elems m e (join '','' (map json_encode xs) @ CHR '']'' # r) = Some (xs, r)"
      using p_elems_encode [of xs e m r] JArr.IH pl dp False by blast
    obtain c t where ct: "json_encode (hd xs) = c # t"
      "c \<notin> {CHR '' '', CHR 0x09, CHR 0x0A, CHR 0x0D}" "c \<noteq> CHR '']''"
      using json_encode_hd [OF pl [OF list.set_sel(1) [OF False]]] by blast
    obtain u where u: "join '','' (map json_encode xs) @ CHR '']'' # r = c # u"
      using join_hd [OF False, of json_encode c t] ct(1) by blast
    have "skip_ws (c # u) = c # u" using ct(2) by (rule skip_ws_plain)
    then show ?thesis
      using el ct(3) u by (simp add: m sk)
  qed
next
  case (JObj kvs)
  then obtain m e where m: "n = Suc m" "d = Suc e" by (cases n; cases d) auto
  have sk: "skip_ws (CHR 0x7B # s) = CHR 0x7B # s" for s by (rule skip_ws_plain) simp
  show ?case
  proof (cases "kvs = []")
    case True
    then show ?thesis by (simp add: m sk skip_ws_plain)
  next
    case False
    have pl: "(k, x) \<in> set kvs \<Longrightarrow> ascii k \<and> json_plain x" for k x
      using JObj.prems(1) by (force simp: list_all_iff)
    have dp: "(k, x) \<in> set kvs \<Longrightarrow> json_depth x \<le> e" for k x
      using JObj.prems(3) m by (force simp: fold_max_le)
    have ih: "(k, x) \<in> set kvs \<Longrightarrow> json_fuel x \<le> m' \<Longrightarrow> num_end r' \<Longrightarrow>
        p_value m' e (json_encode x @ r') = Some (x, r')" for k x m' r'
      using JObj.IH [of "(k, x)" x m' e r'] pl dp by simp
    have "(\<Sum>kv\<leftarrow>kvs. 1 + json_fuel (snd kv)) \<le> m"
      using JObj.prems(2) m by (simp add: comp_def)
    then have el: "p_members m e (join '','' (map encode_member kvs) @ CHR 0x7D # r) = Some (kvs, r)"
      using p_members_encode [of kvs e m r] ih pl False by blast
    obtain t where "encode_member (hd kvs) = dquote # t"
      by (simp add: encode_member_def json_quote_def)
    then obtain u where u: "join '','' (map encode_member kvs) @ CHR 0x7D # r = dquote # u"
      using join_hd [OF False, of encode_member dquote t] by blast
    have "skip_ws (dquote # u) = dquote # u" "dquote \<noteq> CHR 0x7D"
      by (rule skip_ws_plain) (simp_all add: dquote_def)
    then show ?thesis
      using el u by (simp add: m sk json_encode_JObj del: json_encode.simps)
  qed
qed (auto simp: skip_ws_def dquote_def split: if_splits dest!: Suc_le_D)

declare p_value.simps [simp del] p_elems.simps [simp del] p_members.simps [simp del]

lemma length_join: "sum_list (map length xs) \<le> length (join sep xs)"
proof (induction xs)
  case (Cons x xs)
  then show ?case by (simp add: join_Cons)
qed simp

lemma sum_fuel_le:
  assumes "\<And>x. x \<in> set xs \<Longrightarrow> Suc (f x) \<le> 2 * g x"
  shows "(\<Sum>x\<leftarrow>xs. 1 + f x) \<le> 2 * (\<Sum>x\<leftarrow>xs. g x)"
  using assms by (induction xs) fastforce+

lemma json_fuel_length: "json_plain j \<Longrightarrow> Suc (json_fuel j) \<le> 2 * length (json_encode j)"
proof (induction j)
  case (JNum l)
  then obtain i where "l = itoa i" by auto
  with itoa_hd [of i] show ?case by auto
next
  case (JArr xs)
  have "(\<Sum>x\<leftarrow>xs. 1 + json_fuel x) \<le> 2 * (\<Sum>x\<leftarrow>xs. length (json_encode x))"
    using JArr by (intro sum_fuel_le) (auto simp: list_all_iff)
  moreover have "(\<Sum>x\<leftarrow>xs. length (json_encode x)) \<le> length (join '','' (map json_encode xs))"
    using length_join [of "map json_encode xs"] by (simp add: comp_def)
  ultimately show ?case by (simp add: comp_def)
next
  case (JObj kvs)
  have "(\<Sum>kv\<leftarrow>kvs. 1 + json_fuel (snd kv)) \<le> 2 * (\<Sum>kv\<leftarrow>kvs. length (encode_member kv))"
  proof (rule sum_fuel_le)
    fix kv assume kv: "kv \<in> set kvs"
    obtain k x where kx: "kv = (k, x)" by fastforce
    have "json_plain (snd kv)" using JObj.prems kv by (force simp: list_all_iff kx)
    with kv JObj.IH [of kv "snd kv"] have "Suc (json_fuel (snd kv)) \<le> 2 * length (json_encode (snd kv))"
      by (simp add: kx)
    then show "Suc (json_fuel (snd kv)) \<le> 2 * length (encode_member kv)"
      by (simp add: encode_member_def)
  qed
  moreover have "(\<Sum>kv\<leftarrow>kvs. length (encode_member kv)) \<le> length (join '','' (map encode_member kvs))"
    using length_join [of "map encode_member kvs"] by (simp add: comp_def)
  ultimately show ?case
    by (simp add: comp_def json_encode_JObj del: json_encode.simps)
qed (simp_all add: json_quote_def)

text \<open>What the encoder writes, \<open>Unmarshal\<close> and \<open>Decoder.Decode\<close> read back.\<close>

lemma p_value_encode_all:
  assumes "json_plain j" "json_depth j \<le> 10000" "num_end r"
  shows "p_value (Suc (2 * length (json_encode j @ r))) 10000 (json_encode j @ r) = Some (j, r)"
  using p_value_encode [OF assms(1) _ assms(2,3)] json_fuel_length [OF assms(1)] by simp

lemma json_parse_encode:
  "json_plain j \<Longrightarrow> json_depth j \<le> 10000 \<Longrightarrow> json_parse (json_encode j) = Some j"
  using p_value_encode_all [of j "[]"] by (simp add: json_parse_def skip_ws_def)

lemma skip_ws_newline: "skip_ws [newline] = []"
  by (simp add: skip_ws_def newline_def)

lemma json_parse_encode_line:
  "json_plain j \<Longrightarrow> json_depth j \<le> 10000 \<Longrightarrow> json_parse (json_encode_line j) = Some j"
  using p_value_encode_all [of j "[newline]"]
  by (simp add: json_parse_def json_encode_line_def skip_ws_newline)

lemma json_decode_prefix_encode:
  "json_plain j \<Longrightarrow> json_depth j \<le> 10000 \<Longrightarrow> num_end r \<Longrightarrow>
     json_decode_prefix (json_encode j @ r) = Some j"
  using p_value_encode_all [of j r] by (simp add: json_decode_prefix_def)

lemma json_field_simps [simp]:
  "json_field n [] = []"
  "json_field n ((k, v) # r) =
     (if json_fold k = json_fold n then v # json_field n r else json_field n r)"
  by (simp_all add: json_field_def)

lemma json_field_append [simp]: "json_field n (a @ b) = json_field n a @ json_field n b"
  by (simp add: json_field_def)

lemma json_fold_ascii: "ascii s \<Longrightarrow> json_fold s = map upper_char s"
proof (induction s)
  case (Cons c s)
  then have "code c < 128" by (simp add: ascii_def)
  moreover have "code (char_of (197 :: nat)) = 197" "code (char_of (226 :: nat)) = 226"
    by (simp_all add: code_def)
  ultimately have "c \<noteq> char_of (197 :: nat)" "c \<noteq> char_of (226 :: nat)" by auto
  with Cons show ?case by (auto simp: ascii_def)
qed simp

text \<open>Evaluation of a folded literal field name.\<close>

lemmas json_fold_eval = json_fold_ascii ascii_def code_def upper_char_def in_range_def char_of_def
  bit_Suc_0_iff

declare json_fold.simps [simp del]

lemma ascii_b64 [simp]: "ascii (b64_encode b64_std True x)"
proof -
  have "code c < 128" if "c \<in> set (b64_encode b64_std True x)" for c
    using set_b64_encode [OF b64_std_ok that] by (auto simp: b64_std_def b64_pad_def code_def)
  then show ?thesis by (simp add: ascii_def list_all_iff)
qed

end
