(* ===== verification/Go_Fmt.thy ===== *)
theory Go_Fmt
  imports Go_Json
begin

text \<open>
  The text of errors: the \<open>%q\<close> verb (\<open>strconv.Quote\<close>) and \<open>err.Error()\<close>. The table of
  printable runes beyond ASCII and the text of errors made outside the repository are
  parameters.
\<close>

section \<open>Quoting\<close>

definition rune_of :: "string \<Rightarrow> nat" where
  "rune_of s =
     (case map code s of
        [a] \<Rightarrow> a
      | [a, b] \<Rightarrow> (a - 192) * 64 + (b - 128)
      | [a, b, c] \<Rightarrow> (a - 224) * 4096 + (b - 128) * 64 + (c - 128)
      | [a, b, c, d] \<Rightarrow> (a - 240) * 262144 + (b - 128) * 4096 + (c - 128) * 64 + (d - 128)
      | _ \<Rightarrow> 0)"

fun hex_digits :: "nat \<Rightarrow> nat \<Rightarrow> string" where
  "hex_digits 0 n = []"
| "hex_digits (Suc w) n = hex_digits w (n div 16) @ [hex_chars ! (n mod 16)]"

definition quote_rune :: "(nat \<Rightarrow> bool) \<Rightarrow> string \<Rightarrow> string" where
  "quote_rune isp s =
     (let r = rune_of s in
      if r = 34 \<or> r = 92 then backslash # s
      else if (if r < 128 then 32 \<le> r \<and> r \<le> 126 else isp r) then s
      else if r = 7 then backslash # ''a''
      else if r = 8 then backslash # ''b''
      else if r = 12 then backslash # ''f''
      else if r = 10 then backslash # ''n''
      else if r = 13 then backslash # ''r''
      else if r = 9 then backslash # ''t''
      else if r = 11 then backslash # ''v''
      else if r < 32 \<or> r = 127 then backslash # ''x'' @ hex_digits 2 r
      else if r < 65536 then backslash # ''u'' @ hex_digits 4 r
      else backslash # ''U'' @ hex_digits 8 r)"

function quote_body :: "(nat \<Rightarrow> bool) \<Rightarrow> string \<Rightarrow> string" where
  "quote_body isp [] = []"
| "quote_body isp (c # s) =
     (let n = rune_width (c # s) in
      if n = 0 then (backslash # ''x'' @ hex_digits 2 (code c)) @ quote_body isp s
      else quote_rune isp (take n (c # s)) @ quote_body isp (drop (n - 1) s))"
  by pat_completeness auto
termination by (relation "measure (length \<circ> snd)") auto

definition go_quote :: "(nat \<Rightarrow> bool) \<Rightarrow> string \<Rightarrow> string" where
  "go_quote isp s = dquote # quote_body isp s @ [dquote]"

section \<open>The text of an error\<close>

text \<open>The messages of the sentinels declared in \<open>api/token.go\<close> and \<open>keyservice/\<close>.\<close>

definition sentinel_text :: "(goerr \<Rightarrow> string) \<Rightarrow> sentinel \<Rightarrow> string" where
  "sentinel_text txt e =
     (case e of
        ErrTokenMalformed \<Rightarrow> ''upload token: malformed''
      | ErrTokenBadSignature \<Rightarrow> ''upload token: bad signature''
      | ErrTokenExpired \<Rightarrow> ''upload token: expired''
      | ErrTokenCIDMismatch \<Rightarrow> ''upload token: cid mismatch''
      | ErrTokenSizeMismatch \<Rightarrow> ''upload token: size mismatch''
      | ErrTokenPayloadInvalid \<Rightarrow> ''upload token: payload invalid''
      | ErrTokenUnknownKid \<Rightarrow> ''upload token: unknown kid''
      | ErrVaultNotFound \<Rightarrow> ''keyservice/vault: backend reports not-found (404)''
      | ErrGCPNotFound \<Rightarrow> ''keyservice/gcpkms: backend reports not-found (404)''
      | ErrPKCS11NotFound \<Rightarrow> ''keyservice/pkcs11: object not found''
      | _ \<Rightarrow> txt (Sentinel e))"

fun error_text :: "(goerr \<Rightarrow> string) \<Rightarrow> goerr \<Rightarrow> string" where
  "error_text txt (Sentinel e) = sentinel_text txt e"
| "error_text txt (Pkcs11Error n) = txt (Pkcs11Error n)"
| "error_text txt (Foreign m) = txt (Foreign m)"
| "error_text txt (Errorf fs) =
     concat (map (\<lambda>f. case f of Lit m \<Rightarrow> m | Val e \<Rightarrow> error_text txt e | Wrp e \<Rightarrow> error_text txt e) fs)"

definition message_text :: "(goerr \<Rightarrow> string) \<Rightarrow> message \<Rightarrow> string" where
  "message_text txt m = error_text txt (Errorf m)"

end
