(* ===== verification/Go_Time.thy ===== *)
theory Go_Time
  imports Go_Strings
begin

text \<open>
  Go's \<open>time\<close> package as the artifact store uses it. A \<open>time.Time\<close> is its instant in
  nanoseconds since the Unix epoch; a \<open>time.Duration\<close> is an \<open>int64\<close> of nanoseconds, so
  the conversion from seconds wraps. Instants are printed in UTC with the \<open>RFC3339\<close>
  layout, and parsed back; the calendar is the proleptic Gregorian one, by 400, 100, 4
  and 1 year cycles as in Go.
\<close>

type_synonym time = int
type_synonym duration = int64

definition second :: duration where
  "second = 1000000000"

text \<open>\<open>time.Duration(secs) * time.Second\<close>.\<close>

definition seconds :: "int64 \<Rightarrow> duration" where
  "seconds n = n * second"

definition time_add :: "time \<Rightarrow> duration \<Rightarrow> time" where
  "time_add t d = t + sint d"

definition unix :: "time \<Rightarrow> int" where
  "unix t = t div 1000000000"

text \<open>The seconds a duration can hold without wrapping.\<close>

definition max_seconds :: int where
  "max_seconds = 9223372036"

lemma sint_second [simp]: "sint second = 1000000000"
  by (simp add: second_def)

lemma sint_seconds:
  assumes "- max_seconds \<le> sint n" "sint n \<le> max_seconds"
  shows "sint (seconds n) = sint n * 1000000000"
  using assms sint_mult64 [of n second]
  by (simp add: seconds_def max_seconds_def max_int64_def)

section \<open>Calendar\<close>

text \<open>Days since 1970-01-01 to year, month, day; the inner year starts in March.\<close>

definition civil_of_days :: "int \<Rightarrow> int \<times> int \<times> int" where
  "civil_of_days z =
     (let z' = z + 719468;
          era = z' div 146097;
          doe = z' mod 146097;
          c = min 3 (doe div 36524);
          r1 = doe - 36524 * c;
          q = r1 div 1461;
          r2 = r1 mod 1461;
          a = min 3 (r2 div 365);
          doy = r2 - 365 * a;
          yoe = 100 * c + 4 * q + a;
          mp = (5 * doy + 2) div 153;
          d = doy - (153 * mp + 2) div 5 + 1;
          m = (if mp < 10 then mp + 3 else mp - 9)
      in (yoe + 400 * era + (if m \<le> 2 then 1 else 0), m, d))"

definition days_of_civil :: "int \<Rightarrow> int \<Rightarrow> int \<Rightarrow> int" where
  "days_of_civil y m d =
     (let y' = (if m \<le> 2 then y - 1 else y);
          era = y' div 400;
          yoe = y' mod 400;
          mp = (if m \<le> 2 then m + 9 else m - 3);
          doy = (153 * mp + 2) div 5 + d - 1;
          doe = 365 * yoe + yoe div 4 - yoe div 100 + doy
      in 146097 * era + doe - 719468)"

definition is_leap :: "int \<Rightarrow> bool" where
  "is_leap y = (y mod 4 = 0 \<and> (y mod 100 \<noteq> 0 \<or> y mod 400 = 0))"

definition days_in :: "int \<Rightarrow> int \<Rightarrow> int" where
  "days_in m y =
     (if m = 2 then (if is_leap y then 29 else 28)
      else if m \<in> {4, 6, 9, 11} then 30 else 31)"

text \<open>The year-of-era decomposition, with the bounds the calendar rests on.\<close>

lemma era_decomposition:
  fixes doe :: int
  assumes "0 \<le> doe" "doe < 146097"
  defines "c \<equiv> min 3 (doe div 36524)"
  defines "r1 \<equiv> doe - 36524 * c"
  defines "q \<equiv> r1 div 1461"
  defines "r2 \<equiv> r1 mod 1461"
  defines "a \<equiv> min 3 (r2 div 365)"
  defines "doy \<equiv> r2 - 365 * a"
  shows "0 \<le> c \<and> c \<le> 3 \<and> 0 \<le> q \<and> q \<le> 24 \<and> 0 \<le> a \<and> a \<le> 3 \<and> 0 \<le> doy \<and> doy \<le> 365
    \<and> doe = 36524 * c + 1461 * q + 365 * a + doy
    \<and> (doy = 365 \<longrightarrow> a = 3 \<and> (q < 24 \<or> c = 3))"
proof -
  have c: "0 \<le> c" "c \<le> 3" and r1: "0 \<le> r1" "r1 \<le> 36524" "r1 = 36524 \<longrightarrow> c = 3"
    using assms(1,2) unfolding c_def r1_def by (auto simp: min_def)
  have q: "0 \<le> q" "q \<le> 24" and r2: "0 \<le> r2" "r2 < 1461" "r1 = 1461 * q + r2"
    using r1 unfolding q_def r2_def by auto
  have a: "0 \<le> a" "a \<le> 3" and doy: "0 \<le> doy" "doy \<le> 365" "doy = 365 \<longrightarrow> a = 3 \<and> r2 = 1460"
    using r2 unfolding a_def doy_def by (auto simp: min_def)
  have "q < 24 \<or> c = 3" if "r2 = 1460"
    using that r1 r2(3) q by auto
  then have leap: "doy = 365 \<longrightarrow> a = 3 \<and> (q < 24 \<or> c = 3)"
    using doy(3) by blast
  have "doe = 36524 * c + r1" "r2 = 365 * a + doy"
    unfolding r1_def doy_def by simp_all
  with r2(3) have "doe = 36524 * c + 1461 * q + 365 * a + doy" by linarith
  with c q a doy(1,2) leap show ?thesis by blast
qed

lemma int12_cases:
  "0 \<le> n \<Longrightarrow> n \<le> 11 \<Longrightarrow> n \<in> {0, 1, 2, 3, 4, 5, 6, 7, 8, 9, 10, 11 :: int}"
  by (simp only: insert_iff empty_iff) presburger

lemma month_of_doy:
  fixes doy :: int
  assumes "0 \<le> doy" "doy \<le> 365"
  defines "mp \<equiv> (5 * doy + 2) div 153"
  defines "d \<equiv> doy - (153 * mp + 2) div 5 + 1"
  shows "0 \<le> mp \<and> mp \<le> 11 \<and> 1 \<le> d \<and> d \<le> 31 \<and> doy = (153 * mp + 2) div 5 + d - 1
    \<and> (mp = 11 \<longrightarrow> d \<le> 29 \<and> (doy \<le> 364 \<longrightarrow> d \<le> 28)) \<and> (mp \<in> {1, 3, 6, 8} \<longrightarrow> d \<le> 30)"
proof -
  have mp: "0 \<le> mp" "mp \<le> 11" "153 * mp \<le> 5 * doy + 2" "5 * doy + 2 < 153 * mp + 153"
    using assms(1,2) unfolding mp_def by auto
  from int12_cases [OF mp(1,2)] show ?thesis
    using mp(3,4) assms(1,2) unfolding d_def by (elim insertE emptyE) auto
qed

lemma yoe_quotients:
  fixes c q a :: int
  assumes "0 \<le> c" "0 \<le> q" "q \<le> 24" "0 \<le> a" "a \<le> 3"
  shows "(100 * c + 4 * q + a) div 4 = 25 * c + q" "(100 * c + 4 * q + a) div 100 = c"
  using assms by auto


lemma leap_year_of_era:
  fixes c q era :: int
  assumes "0 \<le> q" "q \<le> 24" "q < 24 \<or> c = 3"
  shows "is_leap (100 * c + 4 * q + 4 + 400 * era)"
proof (cases "q = 24")
  case True
  with assms(3) have "100 * c + 4 * q + 4 + 400 * era = 400 * (era + 1)" by simp
  then show ?thesis by (simp only: is_leap_def) simp
next
  case False
  with assms have lt: "0 < 4 * q + 4" "4 * q + 4 < 100" by linarith+
  have "100 * c + 4 * q + 4 + 400 * era = 4 * q + 4 + 100 * (c + 4 * era)" by simp
  then have "(100 * c + 4 * q + 4 + 400 * era) mod 100 = 4 * q + 4"
    using lt by (simp only: mod_mult_self2) simp
  moreover have "100 * c + 4 * q + 4 + 400 * era = 4 * (25 * c + q + 1 + 100 * era)" by simp
  then have "(100 * c + 4 * q + 4 + 400 * era) mod 4 = 0" by (simp only: mod_mult_self1_is_0)
  ultimately show ?thesis using lt by (simp add: is_leap_def)
qed

text \<open>The day of the month stays within the month, whatever the March-based month is.\<close>

lemma day_within_month:
  fixes doy mp d m y :: int
  assumes "0 \<le> mp" "mp \<le> 11" "d \<le> 31" "doy \<le> 365"
    and feb: "mp = 11 \<longrightarrow> d \<le> 29 \<and> (doy \<le> 364 \<longrightarrow> d \<le> 28)"
    and short: "mp \<in> {1, 3, 6, 8} \<longrightarrow> d \<le> 30"
    and m: "m = (if mp < 10 then mp + 3 else mp - 9)"
    and leap: "mp = 11 \<Longrightarrow> doy = 365 \<Longrightarrow> is_leap y"
  shows "d \<le> days_in m y"
proof (cases "mp = 11")
  case True
  with m have "m = 2" by simp
  moreover have "is_leap y \<or> d \<le> 28"
    using True assms(4) feb leap by (cases "doy = 365") auto
  ultimately show ?thesis using True feb by (auto simp: days_in_def)
next
  case False
  then have "m \<noteq> 2" using m assms(1,2) by auto
  moreover have "m \<in> {4, 6, 9, 11} \<Longrightarrow> mp \<in> {1, 3, 6, 8}" using m assms(2) by (auto split: if_splits)
  ultimately show ?thesis using assms(3) short by (auto simp: days_in_def)
qed

text \<open>
  Taking a day number apart gives a valid date, and putting the date together again
  gives the day number.
\<close>

lemma civil_roundtrip:
  assumes "civil_of_days z = (y, m, d)"
  shows "days_of_civil y m d = z \<and> 1 \<le> m \<and> m \<le> 12 \<and> 1 \<le> d \<and> d \<le> days_in m y"
proof -
  define era where "era = (z + 719468) div 146097"
  define doe where "doe = (z + 719468) mod 146097"
  define c where "c = min 3 (doe div 36524)"
  define q where "q = (doe - 36524 * c) div 1461"
  define r2 where "r2 = (doe - 36524 * c) mod 1461"
  define a where "a = min 3 (r2 div 365)"
  define doy where "doy = r2 - 365 * a"
  define yoe where "yoe = 100 * c + 4 * q + a"
  define mp where "mp = (5 * doy + 2) div 153"
  have doe: "0 \<le> doe" "doe < 146097" "z + 719468 = 146097 * era + doe"
    by (simp_all add: doe_def era_def)
  note D = era_decomposition [OF doe(1,2), folded c_def,
      folded q_def r2_def, folded a_def, folded doy_def]
  have eqs: "d = doy - (153 * mp + 2) div 5 + 1" "m = (if mp < 10 then mp + 3 else mp - 9)"
      "y = yoe + 400 * era + (if m \<le> 2 then 1 else 0)"
    using assms
    by (simp_all only: civil_of_days_def Let_def doe_def [symmetric] era_def [symmetric]
        c_def [symmetric] q_def [symmetric] r2_def [symmetric] a_def [symmetric]
        doy_def [symmetric] yoe_def [symmetric] mp_def [symmetric] prod.inject) auto
  have M: "0 \<le> mp" "mp \<le> 11" "1 \<le> d" "d \<le> 31" "doy = (153 * mp + 2) div 5 + d - 1"
      "mp = 11 \<longrightarrow> d \<le> 29 \<and> (doy \<le> 364 \<longrightarrow> d \<le> 28)" "mp \<in> {1, 3, 6, 8} \<longrightarrow> d \<le> 30"
    using month_of_doy [of doy, folded mp_def, folded eqs(1)] D by blast+
  have yoe: "0 \<le> yoe" "yoe < 400" using D unfolding yoe_def by linarith+
  have Q: "yoe div 4 = 25 * c + q" "yoe div 100 = c"
    using yoe_quotients [of c q a] D unfolding yoe_def by blast+
  have m12: "m \<le> 2 \<longleftrightarrow> 10 \<le> mp" "1 \<le> m" "m \<le> 12" using M(1,2) eqs(2) by auto
  have y': "(if m \<le> 2 then y - 1 else y) = yoe + 400 * era" using eqs(3) by simp
  have mp': "(if m \<le> 2 then m + 9 else m - 3) = mp" using m12(1) eqs(2) by auto
  have era': "(yoe + 400 * era) div 400 = era" "(yoe + 400 * era) mod 400 = yoe"
    using yoe by simp_all
  have "days_of_civil y m d =
      146097 * era + (365 * yoe + yoe div 4 - yoe div 100 + doy) - 719468"
    unfolding days_of_civil_def Let_def y' mp' era' using M(5) by simp
  also have "\<dots> = z"
  proof -
    have "doe = 36524 * c + 1461 * q + 365 * a + doy" using D by blast
    with doe(3) show ?thesis unfolding Q unfolding yoe_def by (simp add: algebra_simps)
  qed
  finally have days: "days_of_civil y m d = z" .
  have "d \<le> days_in m y"
  proof (rule day_within_month [OF M(1,2,4) _ M(6,7) eqs(2)])
    show "doy \<le> 365" using D by blast
    assume "mp = 11" "doy = 365"
    with D have "a = 3" "0 \<le> q" "q \<le> 24" "q < 24 \<or> c = 3" by blast+
    moreover have "y = yoe + 400 * era + 1" using eqs(3) m12(1) \<open>mp = 11\<close> by simp
    ultimately show "is_leap y" using leap_year_of_era [of q c era] unfolding yoe_def
      by (simp add: algebra_simps)
  qed
  with days m12 M(3) show ?thesis by blast
qed

section \<open>Printing and parsing instants\<close>

definition two_digits :: "int \<Rightarrow> string" where
  "two_digits n = [digit_char (nat (n div 10)), digit_char (nat (n mod 10))]"

definition pad_year :: "int \<Rightarrow> string" where
  "pad_year y =
     (if y < 0 then ''-'' else []) @
     (let n = nat \<bar>y\<bar> in
      if n < 10000
      then [digit_char (n div 1000), digit_char (n div 100 mod 10), digit_char (n div 10 mod 10),
            digit_char (n mod 10)]
      else nat_str n)"

definition year_of :: "time \<Rightarrow> int" where
  "year_of t = fst (civil_of_days (unix t div 86400))"

text \<open>\<open>t.UTC().Format(time.RFC3339)\<close>: the fraction of a second is dropped.\<close>

definition format_rfc3339 :: "time \<Rightarrow> string" where
  "format_rfc3339 t =
     (let s = unix t; sod = s mod 86400; (y, m, d) = civil_of_days (s div 86400) in
      pad_year y @ ''-'' @ two_digits m @ ''-'' @ two_digits d @ ''T'' @
      two_digits (sod div 3600) @ '':'' @ two_digits (sod mod 3600 div 60) @ '':'' @
      two_digits (sod mod 60) @ ''Z'')"

text \<open>The layouts \<^verbatim>\<open>20060102T150405Z\<close> and \<^verbatim>\<open>20060102\<close> of the request signers.\<close>

definition format_date :: "time \<Rightarrow> string" where
  "format_date t =
     (let (y, m, d) = civil_of_days (unix t div 86400) in pad_year y @ two_digits m @ two_digits d)"

definition format_amz :: "time \<Rightarrow> string" where
  "format_amz t =
     (let sod = unix t mod 86400 in
      format_date t @ ''T'' @ two_digits (sod div 3600) @ two_digits (sod mod 3600 div 60) @
      two_digits (sod mod 60) @ ''Z'')"

definition num_at :: "string \<Rightarrow> nat \<Rightarrow> nat \<Rightarrow> int option" where
  "num_at s i n =
     (let w = take n (drop i s) in
      if length w = n then map_option int (parse_digits 0 w) else None)"

definition lit_at :: "string \<Rightarrow> nat \<Rightarrow> char \<Rightarrow> bool" where
  "lit_at s i c = (case drop i s of [] \<Rightarrow> False | x # _ \<Rightarrow> x = c)"

text \<open>The zone suffix: \<open>Z\<close>, or a signed hour and minute, as seconds east of UTC.\<close>

definition parse_zone :: "string \<Rightarrow> int option" where
  "parse_zone z =
     (if z = ''Z'' then Some 0
      else if length z = 6 \<and> (lit_at z 0 CHR ''+'' \<or> lit_at z 0 CHR ''-'') \<and> lit_at z 3 CHR '':'' then
        (case (num_at z 1 2, num_at z 4 2) of
           (Some h, Some m) \<Rightarrow>
             if h < 24 \<and> m < 60
             then Some ((if lit_at z 0 CHR ''-'' then - 1 else 1) * (h * 3600 + m * 60)) else None
         | _ \<Rightarrow> None)
      else None)"

text \<open>The fraction: a point and at least one digit, of which nine count.\<close>

definition split_fraction :: "string \<Rightarrow> (int \<times> string) option" where
  "split_fraction r =
     (if lit_at r 0 CHR ''.'' then
        (let ds = takeWhile (\<lambda>c. digit_val c \<noteq> None) (tl r);
             nine = take 9 (ds @ replicate 9 (digit_char 0))
         in if ds = [] then None
            else case parse_digits 0 nine of
                   None \<Rightarrow> None | Some n \<Rightarrow> Some (int n, drop (Suc (length ds)) r))
      else Some (0, r))"

text \<open>\<open>time.Parse(time.RFC3339, s)\<close> on strings in the strict form of the layout.\<close>

definition parse_rfc3339 :: "string \<Rightarrow> time option" where
  "parse_rfc3339 s =
     (if \<not> (lit_at s 4 CHR ''-'' \<and> lit_at s 7 CHR ''-'' \<and> lit_at s 10 CHR ''T'' \<and>
           lit_at s 13 CHR '':'' \<and> lit_at s 16 CHR '':'') then None
      else case (num_at s 0 4, num_at s 5 2, num_at s 8 2, num_at s 11 2, num_at s 14 2,
                 num_at s 17 2, split_fraction (drop 19 s)) of
        (Some y, Some m, Some d, Some hh, Some mm, Some ss, Some (ns, z)) \<Rightarrow>
          if 1 \<le> m \<and> m \<le> 12 \<and> 1 \<le> d \<and> d \<le> days_in m y \<and> hh < 24 \<and> mm < 60 \<and> ss < 60 then
            map_option
              (\<lambda>off. (days_of_civil y m d * 86400 + hh * 3600 + mm * 60 + ss - off) * 1000000000 + ns)
              (parse_zone z)
          else None
      | _ \<Rightarrow> None)"

lemma parse_two_digits:
  assumes "0 \<le> n" "n < 100"
  shows "parse_digits 0 (two_digits n) = Some (nat n)"
proof -
  have "nat (n div 10) < 10" "nat (n mod 10) < 10" using assms by auto
  moreover have "10 * nat (n div 10) + nat (n mod 10) = nat n"
    using assms mult_div_mod_eq [of 10 n] by (simp add: nat_eq_iff2 pos_imp_zdiv_nonneg_iff)
  ultimately show ?thesis by (simp add: two_digits_def)
qed

lemma length_two_digits [simp]: "length (two_digits n) = 2"
  by (simp add: two_digits_def)

lemma four_digit_sum:
  "10 * (10 * (10 * (n div 1000) + n div 100 mod 10) + n div 10 mod 10) + n mod 10 = (n :: nat)"
proof -
  have "n div 1000 = n div 10 div 10 div 10" "n div 100 = n div 10 div 10"
    by (simp_all add: div_mult2_eq [symmetric])
  then show ?thesis by (simp only: mult_div_mod_eq)
qed

lemma parse_pad_year:
  assumes "0 \<le> y" "y < 10000"
  shows "length (pad_year y) = 4 \<and> parse_digits 0 (pad_year y) = Some (nat y)"
proof -
  let ?n = "nat y"
  have "?n < 10000" using assms by simp
  then have "?n div 1000 < 10" by linarith
  with assms \<open>?n < 10000\<close> four_digit_sum [of ?n] show ?thesis
    by (simp add: pad_year_def Let_def)
qed

text \<open>Reading a field out of a string at a known offset.\<close>

lemma num_at_append:
  assumes "length a = i" "length w = n" "parse_digits 0 w = Some k"
  shows "num_at (a @ w @ b) i n = Some (int k)"
  using assms by (simp add: num_at_def Let_def)

lemma lit_at_append: "length a = i \<Longrightarrow> lit_at (a @ c # b) i c"
  by (simp add: lit_at_def)

lemma day_seconds:
  fixes sod :: int
  assumes "0 \<le> sod" "sod < 86400"
  shows "0 \<le> sod div 3600 \<and> sod div 3600 < 24 \<and> 0 \<le> sod mod 3600 div 60 \<and> sod mod 3600 div 60 < 60
    \<and> 0 \<le> sod mod 60 \<and> sod mod 60 < 60
    \<and> sod div 3600 * 3600 + sod mod 3600 div 60 * 60 + sod mod 60 = sod"
proof -
  have "sod mod 60 = sod mod 3600 mod 60" by (simp add: mod_mod_cancel)
  then have "sod mod 3600 div 60 * 60 + sod mod 60 = sod mod 3600" by simp
  moreover have "sod div 3600 * 3600 + sod mod 3600 = sod" by simp
  ultimately have "sod div 3600 * 3600 + sod mod 3600 div 60 * 60 + sod mod 60 = sod" by linarith
  with assms show ?thesis by auto
qed

text \<open>
  An instant in the years the layout can print with four digits is read back to the
  second.
\<close>

lemma rfc3339_roundtrip:
  assumes "0 \<le> year_of t" "year_of t < 10000"
  shows "parse_rfc3339 (format_rfc3339 t) = Some (unix t * 1000000000)"
proof -
  define sod where "sod = unix t mod 86400"
  obtain y m d where civ: "civil_of_days (unix t div 86400) = (y, m, d)" by (metis prod_cases3)
  define hh mm ss where "hh = sod div 3600" and "mm = sod mod 3600 div 60" and "ss = sod mod 60"
  note C = civil_roundtrip [OF civ]
  have y: "0 \<le> y" "y < 10000" using assms civ by (simp_all add: year_of_def)
  have "days_in m y \<le> 31" by (simp add: days_in_def)
  with C have d31: "d < 100" "0 \<le> d" "m < 100" "0 \<le> m" by linarith+
  have T: "0 \<le> hh" "hh < 24" "0 \<le> mm" "mm < 60" "0 \<le> ss" "ss < 60"
      "hh * 3600 + mm * 60 + ss = sod"
    using day_seconds [of sod] unfolding hh_def mm_def ss_def sod_def by simp_all
  let ?s = "pad_year y @ ''-'' @ two_digits m @ ''-'' @ two_digits d @ ''T'' @
      two_digits hh @ '':'' @ two_digits mm @ '':'' @ two_digits ss @ ''Z''"
  have f: "format_rfc3339 t = ?s"
    by (simp add: format_rfc3339_def Let_def civ hh_def mm_def ss_def sod_def)
  note Y = parse_pad_year [OF y]
  have lits: "lit_at ?s 4 CHR ''-''" "lit_at ?s 7 CHR ''-''" "lit_at ?s 10 CHR ''T''"
      "lit_at ?s 13 CHR '':''" "lit_at ?s 16 CHR '':''"
    using Y by (simp_all add: lit_at_def)
  have nums: "num_at ?s 0 4 = Some y" "num_at ?s 5 2 = Some m" "num_at ?s 8 2 = Some d"
      "num_at ?s 11 2 = Some hh" "num_at ?s 14 2 = Some mm" "num_at ?s 17 2 = Some ss"
    using Y y d31 T by (simp_all add: num_at_def Let_def parse_two_digits)
  have fr: "split_fraction (drop 19 ?s) = Some (0, ''Z'')"
    using Y by (simp add: split_fraction_def lit_at_def)
  have "days_of_civil y m d * 86400 + hh * 3600 + mm * 60 + ss = unix t"
    using C T unfolding sod_def by (metis add.assoc div_mult_mod_eq)
  with C T show ?thesis
    unfolding f parse_rfc3339_def using lits nums fr by (simp add: parse_zone_def)
qed

end
