(* ===== verification/Store_Types.thy ===== *)
theory Store_Types
  imports Go_Fmt Go_Time
begin

text \<open>
  The types the backends and the HTTP handlers share. The SDK (\<open>ortholog-sdk\<close>) is not
  part of this repository: a CID is the record of the two fields the code reads, and
  everything else the SDK does with CIDs and credentials is a field of the record
  \<open>sdk\<close>, a parameter of every definition that uses it. The last two fields are the
  message of an error made outside this repository and the table of printable runes
  (\<open>unicode.IsPrint\<close>). An HTTP client is the parameter \<open>net\<close>: what a request does to
  the world and what comes back.
\<close>

section \<open>What the SDK provides\<close>

record cid =
  Algorithm :: byte
  Digest :: bytes

definition zero_cid :: cid where
  "zero_cid = \<lparr>Algorithm = 0, Digest = []\<rparr>"

record RetrievalCredential =
  rc_Method :: string
  rc_URL :: string
  rc_Expiry :: "time option"

record sdk =
  sdk_ParseCID :: "string \<Rightarrow> goerr + cid"
  sdk_String :: "cid \<Rightarrow> string"
  sdk_Verify :: "cid \<Rightarrow> bytes \<Rightarrow> bool"
  sdk_ComputeWith :: "bytes \<Rightarrow> byte \<Rightarrow> cid"
  sdk_Compute :: "bytes \<Rightarrow> cid"
  sdk_VerifyEd25519 :: "bytes \<Rightarrow> bytes \<Rightarrow> bytes \<Rightarrow> goerr option"
  sdk_MethodSignedURL :: string
  sdk_ErrorText :: "goerr \<Rightarrow> string"
  sdk_IsPrint :: "nat \<Rightarrow> bool"

text \<open>
  What the code relies on of the CID codec, as the SDK documents it and the conformance
  suite (\<open>tests/conformance/scenarios_cid_parse.go\<close>) pins it: a parsed CID has a
  registered algorithm, and the string form of such a CID parses back to it.
\<close>

definition cid_codec :: "sdk \<Rightarrow> (cid \<Rightarrow> bool) \<Rightarrow> bool" where
  "cid_codec k reg \<longleftrightarrow>
     (\<forall>s c. sdk_ParseCID k s = Inr c \<longrightarrow> reg c) \<and>
     (\<forall>c. reg c \<longrightarrow> sdk_ParseCID k (sdk_String k c) = Inr c)"

lemma cid_codec_parsed: "cid_codec k reg \<Longrightarrow> sdk_ParseCID k s = Inr c \<Longrightarrow> reg c"
  by (simp add: cid_codec_def)

lemma cid_codec_inject:
  "cid_codec k reg \<Longrightarrow> reg c \<Longrightarrow> reg c' \<Longrightarrow> sdk_String k c = sdk_String k c' \<longleftrightarrow> c = c'"
  unfolding cid_codec_def by (metis sum.inject(2))

section \<open>The HTTP client\<close>

type_synonym header = "(string \<times> string) list"

definition header_set :: "header \<Rightarrow> string \<Rightarrow> string \<Rightarrow> header" where
  "header_set h k v = (k, v) # filter (\<lambda>p. fst p \<noteq> k) h"

definition header_get :: "header \<Rightarrow> string \<Rightarrow> string" where
  "header_get h k = (case map_of h k of None \<Rightarrow> [] | Some v \<Rightarrow> v)"

record http_request =
  rq_method :: string
  rq_url :: url
  rq_header :: header
  rq_body :: "bytes option"
  rq_content_length :: int

record http_response =
  rs_status :: nat
  rs_body :: stream

text \<open>\<open>http.NewRequestWithContext\<close>: fails when the URL does not parse.\<close>

definition new_request :: "string \<Rightarrow> string \<Rightarrow> bytes option \<Rightarrow> goerr + http_request" where
  "new_request m u b =
     (case parse_url u of
        None \<Rightarrow> Inl (Foreign ''url.Parse'')
      | Some r \<Rightarrow> Inr \<lparr>rq_method = m, rq_url = r, rq_header = [], rq_body = b,
                       rq_content_length = (case b of None \<Rightarrow> 0 | Some d \<Rightarrow> int (length d))\<rparr>)"

definition set_header :: "string \<Rightarrow> string \<Rightarrow> http_request \<Rightarrow> http_request" where
  "set_header k v r = r\<lparr>rq_header := header_set (rq_header r) k v\<rparr>"

lemma set_header_sel [simp]:
  "rq_method (set_header k v r) = rq_method r"
  "rq_url (set_header k v r) = rq_url r"
  "rq_body (set_header k v r) = rq_body r"
  by (simp_all add: set_header_def)

text \<open>
  The client and the clock over a world of type \<open>'w\<close>: the client performs a request, or
  fails with a transport error.
\<close>

record 'w net =
  net_do :: "http_request \<Rightarrow> 'w \<Rightarrow> (goerr + http_response) \<times> 'w"
  net_now :: "'w \<Rightarrow> time"

text \<open>The body of an error response, capped at 1024 bytes, read errors ignored.\<close>

definition error_body :: "http_response \<Rightarrow> string" where
  "error_body r = bytes_str (fst (read_all_limited 1024 (rs_body r)))"

section \<open>The backend interface\<close>

text \<open>
  \<open>BackendProvider\<close> of \<open>backends/backend.go\<close>: the five methods of the SDK's
  \<open>ContentStore\<close> plus \<open>Resolve\<close> and \<open>Healthy\<close>, each a function of the state it acts
  on. Only \<open>Healthy\<close> of the object-store backends can panic.
\<close>

record 's BackendProvider =
  bp_Push :: "cid \<Rightarrow> bytes \<Rightarrow> 's \<Rightarrow> goerr option \<times> 's"
  bp_Fetch :: "cid \<Rightarrow> 's \<Rightarrow> (goerr + bytes) \<times> 's"
  bp_Pin :: "cid \<Rightarrow> 's \<Rightarrow> goerr option \<times> 's"
  bp_Exists :: "cid \<Rightarrow> 's \<Rightarrow> (goerr + bool) \<times> 's"
  bp_Delete :: "cid \<Rightarrow> 's \<Rightarrow> goerr option \<times> 's"
  bp_Resolve :: "cid \<Rightarrow> duration \<Rightarrow> 's \<Rightarrow> (goerr + RetrievalCredential) \<times> 's"
  bp_Healthy :: "'s \<Rightarrow> goerr option outcome \<times> 's"

end
