(* ===== verification/Api_Token.thy ===== *)
theory Api_Token
  imports Store_Types
begin

text \<open>
  \<open>api/token.go\<close>: the Ed25519 upload-token verifier. A token is the base64url of a JSON
  payload, a dot, and the base64url of a signature over the payload bytes; the payload's
  \<open>kid\<close> selects the key. The signature primitive is the SDK's.
\<close>

record UploadTokenPayload =
  p_CID :: string
  p_Size :: int64
  p_Exp :: int64
  p_Iat :: int64
  p_Kid :: string

text \<open>\<open>json.Unmarshal\<close> into the payload struct.\<close>

definition decode_payload :: "json \<Rightarrow> UploadTokenPayload option" where
  "decode_payload j =
     (case json_members j of
        None \<Rightarrow> None
      | Some kvs \<Rightarrow>
          (case (decode_str ''cid'' kvs, decode_int64 ''size'' kvs, decode_int64 ''exp'' kvs,
                 decode_int64 ''iat'' kvs, decode_str ''kid'' kvs) of
             (Some c, Some sz, Some ex, Some ia, Some kd) \<Rightarrow>
               Some \<lparr>p_CID = c, p_Size = sz, p_Exp = ex, p_Iat = ia, p_Kid = kd\<rparr>
           | _ \<Rightarrow> None))"

definition unmarshal_payload :: "bytes \<Rightarrow> UploadTokenPayload option" where
  "unmarshal_payload b = Option.bind (json_parse (bytes_str b)) decode_payload"

text \<open>Keys by \<open>kid\<close>; the order is the one in which a range over the Go map visits them.\<close>

type_synonym pubkeys = "(string \<times> bytes) list"

definition PublicKeySize :: nat where
  "PublicKeySize = 32"

fun first_bad_key :: "pubkeys \<Rightarrow> (string \<times> bytes) option" where
  "first_bad_key [] = None"
| "first_bad_key ((kid, pk) # r) =
     (if length pk \<noteq> PublicKeySize then Some (kid, pk) else first_bad_key r)"

definition NewEd25519UploadTokenVerifier :: "sdk \<Rightarrow> pubkeys \<Rightarrow> goerr + pubkeys" where
  "NewEd25519UploadTokenVerifier k keys =
     (if keys = [] then Inl (Errorf [Lit ''upload token verifier: keys map is empty''])
      else case first_bad_key keys of
             Some (kid, pk) \<Rightarrow>
               Inl (Errorf [Lit (''upload token verifier: key '' @ go_quote (sdk_IsPrint k) kid @ '' is '' @
                      itoa (int (length pk)) @ '' bytes, want '' @ itoa (int PublicKeySize) @
                      '' (ed25519)'')])
           | None \<Rightarrow> Inr keys)"

text \<open>Raw base64url first, then the padded variant.\<close>

definition b64_either :: "string \<Rightarrow> bytes option" where
  "b64_either s =
     (case b64_decode b64_url False s of
        Some b \<Rightarrow> Some b
      | None \<Rightarrow> b64_decode b64_url True s)"

text \<open>\<open>Verify\<close>; \<^const>\<open>None\<close> is the nil error.\<close>

definition Token_Verify ::
  "sdk \<Rightarrow> pubkeys \<Rightarrow> string \<Rightarrow> string \<Rightarrow> int64 \<Rightarrow> time \<Rightarrow> goerr option" where
  "Token_Verify k keys token expectedCID actualSize now =
     (case index_byte CHR ''.'' token of
        None \<Rightarrow> Some (Errorf [Wrp (Sentinel ErrTokenMalformed), Lit '': expected payload.signature''])
      | Some dot \<Rightarrow>
          if dot < 1 \<or> dot = length token - 1
          then Some (Errorf [Wrp (Sentinel ErrTokenMalformed), Lit '': expected payload.signature''])
          else case b64_either (take dot token) of
            None \<Rightarrow> Some (Errorf [Wrp (Sentinel ErrTokenMalformed), Lit '': payload base64: '',
                           Val (Foreign ''base64'')])
          | Some payload \<Rightarrow>
              (case b64_either (drop (dot + 1) token) of
                 None \<Rightarrow> Some (Errorf [Wrp (Sentinel ErrTokenMalformed), Lit '': signature base64: '',
                                Val (Foreign ''base64'')])
               | Some sig \<Rightarrow>
                   (case unmarshal_payload payload of
                      None \<Rightarrow> Some (Errorf [Wrp (Sentinel ErrTokenPayloadInvalid), Lit '': json: '',
                                     Val (Foreign ''json'')])
                    | Some p \<Rightarrow>
                        (case map_of keys (p_Kid p) of
                           None \<Rightarrow> Some (Errorf [Wrp (Sentinel ErrTokenUnknownKid),
                                     Lit ('': kid='' @ go_quote (sdk_IsPrint k) (p_Kid p))])
                         | Some pk \<Rightarrow>
                             (case sdk_VerifyEd25519 k pk payload sig of
                                Some e \<Rightarrow> Some (Errorf [Wrp (Sentinel ErrTokenBadSignature), Lit '': '', Val e])
                              | None \<Rightarrow>
                                  if p_Exp p = 0 \<or> unix now > sint (p_Exp p)
                                  then Some (Sentinel ErrTokenExpired)
                                  else if p_CID p \<noteq> expectedCID
                                  then Some (Errorf [Wrp (Sentinel ErrTokenCIDMismatch),
                                         Lit ('': token cid='' @ p_CID p @ '', header cid='' @ expectedCID)])
                                  else if p_Size p \<noteq> actualSize
                                  then Some (Errorf [Wrp (Sentinel ErrTokenSizeMismatch),
                                         Lit ('': token size='' @ itoa (sint (p_Size p)) @
                                              '', body size='' @ itoa (sint actualSize))])
                                  else None)))))"

section \<open>What an accepted token proves\<close>

text \<open>The claims a token makes, and the conditions under which it authorises an upload.\<close>

definition token_parts :: "string \<Rightarrow> (bytes \<times> bytes) option" where
  "token_parts token =
     (case cut_str ''.'' token of
        None \<Rightarrow> None
      | Some (a, b) \<Rightarrow>
          (if a = [] \<or> b = [] then None
           else case (b64_either a, b64_either b) of
                  (Some p, Some s) \<Rightarrow> Some (p, s)
                | _ \<Rightarrow> None))"

definition token_authorises ::
  "sdk \<Rightarrow> pubkeys \<Rightarrow> string \<Rightarrow> string \<Rightarrow> int64 \<Rightarrow> time \<Rightarrow> UploadTokenPayload \<Rightarrow> bool" where
  "token_authorises k keys token cidstr sz now p \<longleftrightarrow>
     (\<exists>payload sig pk.
        token_parts token = Some (payload, sig) \<and> unmarshal_payload payload = Some p \<and>
        map_of keys (p_Kid p) = Some pk \<and> sdk_VerifyEd25519 k pk payload sig = None \<and>
        p_CID p = cidstr \<and> p_Size p = sz \<and> p_Exp p \<noteq> 0 \<and> unix now \<le> sint (p_Exp p))"

lemma index_byte_cut:
  "cut_str [c] s = (case index_byte c s of None \<Rightarrow> None | Some i \<Rightarrow> Some (take i s, drop (i + 1) s))"
  by (induction s) (auto split: option.splits)

lemma index_byte_less: "index_byte c s = Some i \<Longrightarrow> i < length s"
  by (drule index_byte_SomeD) auto

text \<open>The verifier's byte-index arithmetic is the split at the first dot.\<close>

lemma token_parts_index:
  "token_parts token =
     (case index_byte CHR ''.'' token of
        None \<Rightarrow> None
      | Some dot \<Rightarrow>
          if dot < 1 \<or> dot = length token - 1 then None
          else case (b64_either (take dot token), b64_either (drop (dot + 1) token)) of
                 (Some p, Some s) \<Rightarrow> Some (p, s) | _ \<Rightarrow> None)"
proof (cases "index_byte CHR ''.'' token")
  case None
  then show ?thesis by (simp add: token_parts_def index_byte_cut)
next
  case (Some dot)
  have "dot < length token" using Some by (rule index_byte_less)
  then have "take dot token = [] \<longleftrightarrow> dot < 1" "drop (dot + 1) token = [] \<longleftrightarrow> dot = length token - 1"
    by auto
  with Some show ?thesis by (simp add: token_parts_def index_byte_cut)
qed

lemma Token_Verify_accepts:
  "Token_Verify k keys token cidstr sz now = None \<longleftrightarrow>
     (\<exists>p. token_authorises k keys token cidstr sz now p)"
  unfolding Token_Verify_def token_authorises_def token_parts_index
  by (auto split: option.splits if_splits)

section \<open>Minting and verifying\<close>

text \<open>
  \<open>json.Marshal\<close> of the payload struct (zero \<open>iat\<close> and empty \<open>kid\<close> are omitted) and the
  wire form of a token, as the operator's quota service produces it.
\<close>

definition encode_payload :: "UploadTokenPayload \<Rightarrow> json" where
  "encode_payload p =
     JObj ([(''cid'', JStr (p_CID p)), (''size'', JNum (itoa (sint (p_Size p)))),
            (''exp'', JNum (itoa (sint (p_Exp p))))] @
           (if p_Iat p = 0 then [] else [(''iat'', JNum (itoa (sint (p_Iat p))))]) @
           (if p_Kid p = [] then [] else [(''kid'', JStr (p_Kid p))]))"

definition marshal_payload :: "UploadTokenPayload \<Rightarrow> bytes" where
  "marshal_payload p = str_bytes (json_encode (encode_payload p))"

definition token_of :: "bytes \<Rightarrow> bytes \<Rightarrow> string" where
  "token_of payload sig = b64_encode b64_url False payload @ ''.'' @ b64_encode b64_url False sig"

lemma json_fold_names [simp]:
  "json_fold ''cid'' = ''CID''" "json_fold ''size'' = ''SIZE''" "json_fold ''exp'' = ''EXP''"
  "json_fold ''iat'' = ''IAT''" "json_fold ''kid'' = ''KID''"
  by (simp_all add: json_fold_eval)

lemma decode_encode_payload: "decode_payload (encode_payload p) = Some p"
  by (simp add: decode_payload_def encode_payload_def json_members_def decode_str_def decode_int64_def
      parse_int64_itoa)

lemma ascii_lits: "ascii ''cid''" "ascii ''size''" "ascii ''exp''" "ascii ''iat''" "ascii ''kid''"
  by (simp_all add: ascii_def code_def)

lemma plain_encode_payload:
  assumes "ascii (p_CID p)" "ascii (p_Kid p)"
  shows "json_plain (encode_payload p)" "json_depth (encode_payload p) \<le> 10000"
  using assms ascii_lits by (auto simp: encode_payload_def)

lemma unmarshal_marshal_payload:
  assumes "ascii (p_CID p)" "ascii (p_Kid p)"
  shows "unmarshal_payload (marshal_payload p) = Some p"
  using json_parse_encode [OF plain_encode_payload [OF assms]]
  by (simp add: unmarshal_payload_def marshal_payload_def decode_encode_payload)

lemma b64_url_no_dot: "CHR ''.'' \<notin> set (b64_encode b64_url False b)"
proof
  assume "CHR ''.'' \<in> set (b64_encode b64_url False b)"
  from set_b64_encode [OF b64_url_ok this] show False by (auto simp: b64_url_def)
qed

lemma b64_either_encode: "b64_either (b64_encode b64_url False b) = Some b"
  by (simp add: b64_either_def b64_decode_encode b64_url_ok)

lemma token_parts_of:
  assumes "payload \<noteq> []" "sig \<noteq> []"
  shows "token_parts (token_of payload sig) = Some (payload, sig)"
proof -
  have "cut_str ''.'' (token_of payload sig) =
      Some (b64_encode b64_url False payload, b64_encode b64_url False sig)"
    using cut_first [OF b64_url_no_dot, of "[]"] by (simp add: token_of_def)
  with assms show ?thesis by (simp add: token_parts_def b64_either_encode)
qed

lemma marshal_payload_nonempty: "marshal_payload p \<noteq> []"
  by (simp add: marshal_payload_def encode_payload_def str_bytes_def)

lemma Token_Verify_minted:
  assumes "ascii (p_CID p)" "ascii (p_Kid p)" "sig \<noteq> []" "map_of keys (p_Kid p) = Some pk"
    "sdk_VerifyEd25519 k pk (marshal_payload p) sig = None" "p_Exp p \<noteq> 0" "unix now \<le> sint (p_Exp p)"
  shows "Token_Verify k keys (token_of (marshal_payload p) sig) (p_CID p) (p_Size p) now = None"
  unfolding Token_Verify_accepts token_authorises_def
  using assms token_parts_of [OF marshal_payload_nonempty assms(3)] unmarshal_marshal_payload [OF assms(1,2)]
  by auto

section \<open>Why a token was refused\<close>

definition token_sentinels :: "sentinel list" where
  "token_sentinels = [ErrTokenMalformed, ErrTokenBadSignature, ErrTokenExpired, ErrTokenCIDMismatch,
     ErrTokenSizeMismatch, ErrTokenPayloadInvalid, ErrTokenUnknownKid]"

lemma Token_Verify_shape:
  assumes "Token_Verify k keys token cidstr sz now = Some e"
  shows "\<exists>x \<in> set token_sentinels. e = Sentinel x \<or>
           (\<exists>m. e = Errorf [Wrp (Sentinel x), Lit m]) \<or>
           (\<exists>m e'. e = Errorf [Wrp (Sentinel x), Lit m, Val e'])"
  using assms unfolding Token_Verify_def token_sentinels_def
  by (simp split: option.splits if_splits) auto

lemma Token_Verify_one_sentinel:
  assumes "Token_Verify k keys token cidstr sz now = Some e"
  shows "\<exists>x \<in> set token_sentinels. \<forall>y. errors_is e y \<longleftrightarrow> y = x"
  using Token_Verify_shape [OF assms] by auto

end
