(* ===== verification/Backend_Contract.thy ===== *)
theory Backend_Contract
  imports Store_Types
begin

text \<open>
  The contract of \<open>BackendProvider\<close> (\<open>backends/backend.go\<close>) as two locales.

  \<open>object_store\<close> is what any backend owes its clients even when the remote side fails at
  will: only \<open>Push\<close> adds content, only under the CID it was called with, and whatever
  \<open>Fetch\<close> returns was there. \<open>reliable_store\<close> is the contract of the conformance
  suite (\<open>tests/conformance/scenarios_core.go\<close>) for a store whose remote side answers: an
  object pushed is fetched back byte for byte, a missing one is \<open>ErrContentNotFound\<close>, and
  \<open>Delete\<close> removes exactly the object named. The second gives the first (\<open>sublocale\<close>).
  Both are proved of the models of the backends in the theories that follow.
\<close>

section \<open>Agreement on the CIDs a client may use\<close>

definition agree :: "(cid \<Rightarrow> bool) \<Rightarrow> (cid \<Rightarrow> 'a) \<Rightarrow> (cid \<Rightarrow> 'a) \<Rightarrow> bool" where
  "agree ok f g \<longleftrightarrow> (\<forall>c. ok c \<longrightarrow> f c = g c)"

lemma agree_refl [simp]: "agree ok f f"
  by (simp add: agree_def)

lemma agreeD: "agree ok f g \<Longrightarrow> ok c \<Longrightarrow> f c = g c"
  by (simp add: agree_def)

definition below :: "(cid \<Rightarrow> bool) \<Rightarrow> (cid \<Rightarrow> bytes set) \<Rightarrow> (cid \<Rightarrow> bytes set) \<Rightarrow> bool" where
  "below ok f g \<longleftrightarrow> (\<forall>c. ok c \<longrightarrow> f c \<subseteq> g c)"

lemma below_refl [simp]: "below ok f f"
  by (simp add: below_def)

lemma belowD: "below ok f g \<Longrightarrow> ok c \<Longrightarrow> d \<in> f c \<Longrightarrow> d \<in> g c"
  by (auto simp: below_def)

lemma below_insert_iff:
  "below ok f (g(c := insert d (g c))) \<longleftrightarrow>
     (\<forall>c' x. ok c' \<longrightarrow> x \<in> f c' \<longrightarrow> x \<in> g c' \<or> c' = c \<and> x = d)"
  by (auto simp: below_def)

lemma below_Un:
  "below ok f f' \<Longrightarrow> below ok g g' \<Longrightarrow> below ok (\<lambda>c. f c \<union> g c) (\<lambda>c. f' c \<union> g' c)"
  unfolding below_def by blast

lemma below_trans: "below ok f g \<Longrightarrow> below ok g h \<Longrightarrow> below ok f h"
  by (auto simp: below_def)

section \<open>What every backend promises\<close>

text \<open>
  \<open>holds s c\<close> is the set of byte strings the backend may serve under \<open>c\<close> in state \<open>s\<close>
  (a mirrored store may have two).
\<close>

locale object_store =
  fixes bp :: "'s BackendProvider"
    and inv :: "'s \<Rightarrow> bool"
    and holds :: "'s \<Rightarrow> cid \<Rightarrow> bytes set"
    and okcid :: "cid \<Rightarrow> bool"
  assumes push_law: "inv s \<Longrightarrow> okcid c \<Longrightarrow> bp_Push bp c d s = (r, s') \<Longrightarrow>
      inv s' \<and> below okcid (holds s') ((holds s)(c := insert d (holds s c)))"
    and fetch_law: "inv s \<Longrightarrow> okcid c \<Longrightarrow> bp_Fetch bp c s = (q, s') \<Longrightarrow>
      inv s' \<and> below okcid (holds s') (holds s) \<and> (\<forall>d. q = Inr d \<longrightarrow> d \<in> holds s c)"
    and exists_law: "inv s \<Longrightarrow> okcid c \<Longrightarrow> bp_Exists bp c s = (b, s') \<Longrightarrow>
      inv s' \<and> below okcid (holds s') (holds s) \<and> (b = Inr True \<longrightarrow> holds s c \<noteq> {})"
    and pin_law: "inv s \<Longrightarrow> okcid c \<Longrightarrow> bp_Pin bp c s = (r, s') \<Longrightarrow>
      inv s' \<and> below okcid (holds s') (holds s)"
    and delete_law: "inv s \<Longrightarrow> okcid c \<Longrightarrow> bp_Delete bp c s = (r, s') \<Longrightarrow>
      inv s' \<and> below okcid (holds s') (holds s)"
    and resolve_law: "inv s \<Longrightarrow> okcid c \<Longrightarrow> bp_Resolve bp c e s = (v, s') \<Longrightarrow>
      inv s' \<and> below okcid (holds s') (holds s)"
    and healthy_law: "inv s \<Longrightarrow> bp_Healthy bp s = (h, s') \<Longrightarrow>
      inv s' \<and> below okcid (holds s') (holds s)"

section \<open>What a backend promises when the remote side answers\<close>

locale reliable_store =
  fixes bp :: "'s BackendProvider"
    and inv :: "'s \<Rightarrow> bool"
    and contents :: "'s \<Rightarrow> cid \<Rightarrow> bytes option"
    and okcid :: "cid \<Rightarrow> bool"
  assumes push_ok: "inv s \<Longrightarrow> okcid c \<Longrightarrow> bp_Push bp c d s = (r, s') \<Longrightarrow>
      r = None \<and> inv s' \<and> agree okcid (contents s') ((contents s)(c := Some d))"
    and fetch_ok: "inv s \<Longrightarrow> okcid c \<Longrightarrow> bp_Fetch bp c s = (q, s') \<Longrightarrow>
      q = (case contents s c of None \<Rightarrow> Inl (Sentinel ErrContentNotFound) | Some d \<Rightarrow> Inr d) \<and>
      inv s' \<and> agree okcid (contents s') (contents s)"
    and exists_ok: "inv s \<Longrightarrow> okcid c \<Longrightarrow> bp_Exists bp c s = (b, s') \<Longrightarrow>
      b = Inr (contents s c \<noteq> None) \<and> inv s' \<and> agree okcid (contents s') (contents s)"
    and pin_ok: "inv s \<Longrightarrow> okcid c \<Longrightarrow> bp_Pin bp c s = (r, s') \<Longrightarrow>
      (contents s c \<noteq> None \<longrightarrow> r = None) \<and> inv s' \<and> agree okcid (contents s') (contents s)"
    and delete_ok: "inv s \<Longrightarrow> okcid c \<Longrightarrow> bp_Delete bp c s = (r, s') \<Longrightarrow>
      (contents s c \<noteq> None \<longrightarrow> r = None) \<and> inv s' \<and>
      agree okcid (contents s') ((contents s)(c := None))"
    and resolve_ok: "inv s \<Longrightarrow> okcid c \<Longrightarrow> bp_Resolve bp c e s = (v, s') \<Longrightarrow>
      inv s' \<and> agree okcid (contents s') (contents s)"
    and healthy_ok: "inv s \<Longrightarrow> bp_Healthy bp s = (h, s') \<Longrightarrow>
      inv s' \<and> agree okcid (contents s') (contents s)"

sublocale reliable_store \<subseteq> object_store bp inv "\<lambda>s c. set_option (contents s c)" okcid
proof (unfold_locales, goal_cases)
  case (1 s c d r s')
  from push_ok [OF this] show ?case by (auto simp: below_def agree_def)
next
  case (2 s c q s')
  from fetch_ok [OF this] show ?case by (auto simp: below_def agree_def split: option.splits)
next
  case (3 s c b s')
  from exists_ok [OF this] show ?case by (auto simp: below_def agree_def)
next
  case (4 s c r s')
  from pin_ok [OF this] show ?case by (auto simp: below_def agree_def)
next
  case (5 s c r s')
  from delete_ok [OF this] show ?case by (auto simp: below_def agree_def split: if_splits)
next
  case (6 s c e v s')
  from resolve_ok [OF this] show ?case by (auto simp: below_def agree_def)
next
  case (7 s h s')
  from healthy_ok [OF this] show ?case by (auto simp: below_def agree_def)
qed

section \<open>Clients of the contract\<close>

text \<open>The calls a client makes, in the order it makes them, and what the reads returned.\<close>

datatype backend_call =
    CallPush cid bytes
  | CallFetch cid
  | CallExists cid
  | CallPin cid
  | CallDelete cid
  | CallResolve cid duration
  | CallHealthy

definition do_call :: "'s BackendProvider \<Rightarrow> backend_call \<Rightarrow> 's \<Rightarrow> (cid \<times> bytes) option \<times> 's" where
  "do_call bp a s =
     (case a of
        CallPush c d \<Rightarrow> (None, snd (bp_Push bp c d s))
      | CallFetch c \<Rightarrow>
          (case bp_Fetch bp c s of (Inr d, s') \<Rightarrow> (Some (c, d), s') | (Inl e, s') \<Rightarrow> (None, s'))
      | CallExists c \<Rightarrow> (None, snd (bp_Exists bp c s))
      | CallPin c \<Rightarrow> (None, snd (bp_Pin bp c s))
      | CallDelete c \<Rightarrow> (None, snd (bp_Delete bp c s))
      | CallResolve c e \<Rightarrow> (None, snd (bp_Resolve bp c e s))
      | CallHealthy \<Rightarrow> (None, snd (bp_Healthy bp s)))"

fun do_calls :: "'s BackendProvider \<Rightarrow> backend_call list \<Rightarrow> 's \<Rightarrow> (cid \<times> bytes) list \<times> 's" where
  "do_calls bp [] s = ([], s)"
| "do_calls bp (a # as) s =
     (let (o1, s1) = do_call bp a s; (os, s2) = do_calls bp as s1
      in (case o1 of None \<Rightarrow> os | Some x \<Rightarrow> x # os, s2))"

fun call_cid :: "backend_call \<Rightarrow> cid option" where
  "call_cid (CallPush c d) = Some c"
| "call_cid (CallFetch c) = Some c"
| "call_cid (CallExists c) = Some c"
| "call_cid (CallPin c) = Some c"
| "call_cid (CallDelete c) = Some c"
| "call_cid (CallResolve c e) = Some c"
| "call_cid CallHealthy = None"

definition calls_ok :: "(cid \<Rightarrow> bool) \<Rightarrow> backend_call list \<Rightarrow> bool" where
  "calls_ok ok as = list_all (\<lambda>a. case call_cid a of None \<Rightarrow> True | Some c \<Rightarrow> ok c) as"

definition pushed :: "backend_call list \<Rightarrow> (cid \<times> bytes) set" where
  "pushed as = {(c, d). CallPush c d \<in> set as}"

lemma pushed_Cons:
  "pushed (a # as) = (case a of CallPush c d \<Rightarrow> {(c, d)} | _ \<Rightarrow> {}) \<union> pushed as"
  by (auto simp: pushed_def split: backend_call.splits)

lemma do_calls_ok_cids:
  "calls_ok ok as \<Longrightarrow> do_calls bp as s = (os, s') \<Longrightarrow> (c, d) \<in> set os \<Longrightarrow> ok c"
proof (induction as arbitrary: s os)
  case (Cons a as)
  obtain x s1 where a: "do_call bp a s = (x, s1)" by fastforce
  obtain os1 where as: "do_calls bp as s1 = (os1, s')"
    using Cons.prems(2) a by (auto split: prod.splits)
  have ok: "calls_ok ok [a]" "calls_ok ok as"
    using Cons.prems(1) by (auto simp: calls_ok_def)
  have "x = Some (c, d) \<Longrightarrow> ok c"
    using a ok(1) by (cases a) (auto simp: do_call_def calls_ok_def split: prod.splits sum.splits)
  moreover have "(c, d) \<in> set os1 \<Longrightarrow> ok c"
    using Cons.IH [OF ok(2) as] .
  moreover have "set os \<subseteq> set os1 \<union> set_option x"
    using Cons.prems(2) a as by (auto split: option.splits)
  ultimately show ?case using Cons.prems(3) by auto
qed simp

context object_store
begin

text \<open>One call keeps the invariant and adds at most what it pushed.\<close>

lemma do_call_law:
  assumes "inv s" "calls_ok okcid [a]" "do_call bp a s = (x, s')"
  shows "inv s' \<and> (\<forall>c d. okcid c \<longrightarrow> d \<in> holds s' c \<longrightarrow> d \<in> holds s c \<or> a = CallPush c d)"
    and "x = Some (c, d) \<Longrightarrow> okcid c \<and> d \<in> holds s c"
proof -
  have "inv s' \<and> (\<forall>c d. okcid c \<longrightarrow> d \<in> holds s' c \<longrightarrow> d \<in> holds s c \<or> a = CallPush c d) \<and>
        (x = Some (c, d) \<longrightarrow> okcid c \<and> d \<in> holds s c)"
  proof (cases a)
    case (CallPush c d)
    with assms push_law [of s c d] show ?thesis
      by (cases "bp_Push bp c d s") (auto simp: do_call_def calls_ok_def below_def split: if_splits)
  next
    case (CallFetch c)
    with assms fetch_law [of s c] show ?thesis
      by (cases "bp_Fetch bp c s") (auto simp: do_call_def calls_ok_def below_def split: sum.splits)
  next
    case (CallExists c)
    with assms exists_law [of s c] show ?thesis
      by (cases "bp_Exists bp c s") (auto simp: do_call_def calls_ok_def below_def)
  next
    case (CallPin c)
    with assms pin_law [of s c] show ?thesis
      by (cases "bp_Pin bp c s") (auto simp: do_call_def calls_ok_def below_def)
  next
    case (CallDelete c)
    with assms delete_law [of s c] show ?thesis
      by (cases "bp_Delete bp c s") (auto simp: do_call_def calls_ok_def below_def)
  next
    case (CallResolve c e)
    with assms resolve_law [of s c e] show ?thesis
      by (cases "bp_Resolve bp c e s") (auto simp: do_call_def calls_ok_def below_def)
  next
    case CallHealthy
    with assms healthy_law [of s] show ?thesis
      by (cases "bp_Healthy bp s") (auto simp: do_call_def calls_ok_def below_def)
  qed
  then show "inv s' \<and> (\<forall>c d. okcid c \<longrightarrow> d \<in> holds s' c \<longrightarrow> d \<in> holds s c \<or> a = CallPush c d)"
    and "x = Some (c, d) \<Longrightarrow> okcid c \<and> d \<in> holds s c"
    by blast+
qed

text \<open>Over any sequence of calls, a fetch returns what was there or what a push put there.\<close>

lemma do_calls_provenance:
  assumes "inv s" "calls_ok okcid as" "do_calls bp as s = (os, s')"
  shows "inv s' \<and> (\<forall>c d. (c, d) \<in> set os \<longrightarrow> d \<in> holds s c \<or> (c, d) \<in> pushed as) \<and>
         (\<forall>c d. okcid c \<longrightarrow> d \<in> holds s' c \<longrightarrow> d \<in> holds s c \<or> (c, d) \<in> pushed as)"
  using assms
proof (induction as arbitrary: s os)
  case Nil
  then show ?case by simp
next
  case (Cons a as)
  obtain x s1 where a: "do_call bp a s = (x, s1)" by fastforce
  obtain os1 where as: "do_calls bp as s1 = (os1, s')"
    using Cons.prems(3) a by (auto split: prod.splits)
  have ok: "calls_ok okcid [a]" "calls_ok okcid as"
    using Cons.prems(2) by (auto simp: calls_ok_def)
  note one = do_call_law [OF Cons.prems(1) ok(1) a]
  have rest: "inv s' \<and> (\<forall>c d. (c, d) \<in> set os1 \<longrightarrow> d \<in> holds s1 c \<or> (c, d) \<in> pushed as) \<and>
      (\<forall>c d. okcid c \<longrightarrow> d \<in> holds s' c \<longrightarrow> d \<in> holds s1 c \<or> (c, d) \<in> pushed as)"
    using Cons.IH [OF _ ok(2) as] one(1) by blast
  have os: "set os \<subseteq> set os1 \<union> set_option x"
    using Cons.prems(3) a as by (auto split: option.splits)
  have okos: "(c, d) \<in> set os1 \<Longrightarrow> okcid c" for c d
    using do_calls_ok_cids [OF ok(2) as] by blast
  have step: "okcid c \<Longrightarrow> d \<in> holds s1 c \<or> (c, d) \<in> pushed as \<Longrightarrow>
      d \<in> holds s c \<or> (c, d) \<in> pushed (a # as)" for c d
    using one(1) by (auto simp: pushed_def)
  show ?case
  proof (intro conjI allI impI)
    show "inv s'" using rest by blast
  next
    fix c d assume "(c, d) \<in> set os"
    then consider "(c, d) \<in> set os1" | "x = Some (c, d)" using os by auto
    then show "d \<in> holds s c \<or> (c, d) \<in> pushed (a # as)"
    proof cases
      case 1
      with rest okos step show ?thesis by blast
    next
      case 2
      with one(2) show ?thesis by blast
    qed
  next
    fix c d assume "okcid c" "d \<in> holds s' c"
    with rest step show "d \<in> holds s c \<or> (c, d) \<in> pushed (a # as)" by blast
  qed
qed

end

end
