(* ===== verification/Api_Push.thy ===== *)
theory Api_Push
  imports Api_Token Backend_Contract
begin

text \<open>
  \<open>api/push.go\<close> and \<open>api/helpers.go\<close>: the upload handler, with its size limit, token
  policy, digest check and audit records. A handler is a function of the request, the clock
  and the backend's state; it returns the response it wrote, the records it logged and the
  new state. Header names are in the canonical form of \<open>net/http\<close>, so
  \<open>X-Artifact-CID\<close> is looked up as \<^verbatim>\<open>X-Artifact-Cid\<close>.
\<close>

section \<open>Requests and responses\<close>

record server_request =
  sr_method :: string
  sr_path :: string
  sr_rawquery :: string
  sr_header :: header
  sr_body :: stream
  sr_remote :: string

record reply =
  rp_status :: nat
  rp_header :: header
  rp_body :: bytes

text \<open>A handler that writes nothing leaves \<open>net/http\<close> to answer 200 with an empty body.\<close>

definition no_reply :: reply where
  "no_reply = \<lparr>rp_status = 200, rp_header = [], rp_body = []\<rparr>"

definition status_only :: "nat \<Rightarrow> reply" where
  "status_only st = \<lparr>rp_status = st, rp_header = [], rp_body = []\<rparr>"

definition json_reply :: "nat \<Rightarrow> json \<Rightarrow> reply" where
  "json_reply st j =
     \<lparr>rp_status = st, rp_header = [(''Content-Type'', ''application/json'')],
      rp_body = str_bytes (json_encode_line j)\<rparr>"

definition writeError :: "nat \<Rightarrow> string \<Rightarrow> reply" where
  "writeError st msg = json_reply st (JObj [(''error'', JStr msg)])"

lemma reply_status [simp]:
  "rp_status no_reply = 200" "rp_status (status_only st) = st" "rp_status (json_reply st j) = st"
  "rp_status (writeError st m) = st"
  by (simp_all add: no_reply_def status_only_def json_reply_def writeError_def)

section \<open>The handler\<close>

type_synonym token_verifier = "string \<Rightarrow> string \<Rightarrow> int64 \<Rightarrow> time \<Rightarrow> goerr option"

record PushHandler =
  h_verify :: bool
  h_maxBody :: int64
  h_tokenVerifier :: "token_verifier option"
  h_tokenPolicy :: string

definition pushRejectedEvent :: string where
  "pushRejectedEvent = ''artifact.push.rejected''"

definition rejected_attrs :: "string \<Rightarrow> string \<Rightarrow> server_request \<Rightarrow> int64 \<Rightarrow> (string \<times> attr) list" where
  "rejected_attrs reason cidStr r sz =
     [(''event'', AStr pushRejectedEvent), (''reason'', AStr reason), (''claimed_cid'', AStr cidStr),
      (''remote_addr'', AStr (sr_remote r)), (''received_size'', AInt (sint sz))]"

definition rejectMalformed ::
  "server_request \<Rightarrow> string \<Rightarrow> int64 \<Rightarrow> string \<Rightarrow> string \<Rightarrow> reply \<times> log_record list" where
  "rejectMalformed r cidStr sz reason userMsg =
     (writeError 400 userMsg,
      [warn (''push rejected: '' @ reason) (rejected_attrs reason cidStr r sz)])"

definition classifyTokenError :: "goerr \<Rightarrow> string" where
  "classifyTokenError e =
     (if errors_is e ErrTokenUnknownKid then ''token_unknown_kid''
      else if errors_is e ErrTokenBadSignature then ''token_invalid''
      else if errors_is e ErrTokenExpired then ''token_expired''
      else if errors_is e ErrTokenCIDMismatch then ''token_cid_mismatch''
      else if errors_is e ErrTokenSizeMismatch then ''token_size_mismatch''
      else if errors_is e ErrTokenMalformed \<or> errors_is e ErrTokenPayloadInvalid then ''token_malformed''
      else ''token_invalid'')"

definition unmarshal_kid :: "bytes \<Rightarrow> string option" where
  "unmarshal_kid b =
     Option.bind (Option.bind (json_parse (bytes_str b)) json_members) (decode_str ''kid'')"

text \<open>
  The loop over the two decoders: when both decode the string they give the same bytes, so
  nothing of a failed first attempt is left in the second's result.
\<close>

definition extractKid :: "string \<Rightarrow> string" where
  "extractKid token =
     (case index_byte CHR ''.'' token of
        None \<Rightarrow> []
      | Some dot \<Rightarrow>
          if dot < 1 then []
          else case Option.bind (b64_decode b64_url False (take dot token)) unmarshal_kid of
                 Some kid \<Rightarrow> kid
               | None \<Rightarrow>
                   (case Option.bind (b64_decode b64_url True (take dot token)) unmarshal_kid of
                      Some kid \<Rightarrow> kid
                    | None \<Rightarrow> []))"

definition tokenRejected :: string where
  "tokenRejected = ''<rejected>''"

text \<open>
  The string is the token's kid, empty, or \<^const>\<open>tokenRejected\<close>; the response is the one
  written, if any.
\<close>

definition checkUploadToken ::
  "sdk \<Rightarrow> PushHandler \<Rightarrow> server_request \<Rightarrow> string \<Rightarrow> int64 \<Rightarrow> time \<Rightarrow>
   string \<times> reply option \<times> log_record list" where
  "checkUploadToken k h r cidStr sz now =
     (if h_tokenPolicy h = ''off'' then ([], None, [])
      else case h_tokenVerifier h of
        None \<Rightarrow> ([], None, [])
      | Some verify \<Rightarrow>
          (let tokenStr = header_get (sr_header r) ''X-Upload-Token'' in
           if tokenStr = [] then
             (if h_tokenPolicy h = ''required'' then
                (tokenRejected, Some (writeError 401 ''X-Upload-Token required''),
                 [warn ''push rejected: upload token required but missing''
                    (rejected_attrs ''token_required_missing'' cidStr r sz)])
              else ([], None, []))
           else case verify tokenStr cidStr sz now of
                  Some e \<Rightarrow>
                    (tokenRejected, Some (writeError 401 (error_text (sdk_ErrorText k) e)),
                     [warn ''push rejected: upload token failed''
                        (rejected_attrs (classifyTokenError e) cidStr r sz @
                         [(''error'', AStr (error_text (sdk_ErrorText k) e))])])
                | None \<Rightarrow> (extractKid tokenStr, None, [])))"

definition algorithmName :: "sdk \<Rightarrow> cid \<Rightarrow> string" where
  "algorithmName k c =
     (case index_byte CHR '':'' (sdk_String k c) of
        None \<Rightarrow> []
      | Some i \<Rightarrow> if i > 0 then take i (sdk_String k c) else [])"

text \<open>Steps 4 and 5: digest verification and persistence.\<close>

definition Push_persist ::
  "sdk \<Rightarrow> PushHandler \<Rightarrow> 's BackendProvider \<Rightarrow> server_request \<Rightarrow> string \<Rightarrow> cid \<Rightarrow> bytes \<Rightarrow> string \<Rightarrow> 's \<Rightarrow>
   reply \<times> log_record list \<times> 's" where
  "Push_persist k h bp r cidStr c d tokenKid s =
     (let receivedSize = of_nat (length d) :: int64 in
      if h_verify h \<and> \<not> sdk_Verify k c d then
        (writeError 400 ''body bytes do not match CID digest (data corruption)'',
         [warn ''push rejected: CID digest mismatch (data corruption)''
            [(''event'', AStr pushRejectedEvent), (''reason'', AStr ''cid_mismatch''),
             (''claimed_cid'', AStr cidStr), (''cid_algorithm'', AStr (algorithmName k c)),
             (''remote_addr'', AStr (sr_remote r)), (''received_size'', AInt (sint receivedSize)),
             (''computed_cid'', AStr (sdk_String k (sdk_ComputeWith k d (Algorithm c)))),
             (''claimed_digest'', AStr (hex_encode (Digest c))),
             (''operator_token_kid'', AStr tokenKid)]],
         s)
      else case bp_Push bp c d s of
             (Some e, s') \<Rightarrow>
               (writeError 500 (error_text (sdk_ErrorText k) e),
                [warn ''push rejected: backend error''
                   (rejected_attrs ''backend_error'' cidStr r receivedSize @
                    [(''error'', AStr (error_text (sdk_ErrorText k) e))])],
                s')
           | (None, s') \<Rightarrow>
               (json_reply 200 (JObj [(''cid'', JStr (sdk_String k c)),
                                      (''size'', JNum (itoa (int (length d))))]), [], s'))"

definition Push_ServeHTTP ::
  "sdk \<Rightarrow> PushHandler \<Rightarrow> 's BackendProvider \<Rightarrow> time \<Rightarrow> server_request \<Rightarrow> 's \<Rightarrow>
   reply \<times> log_record list \<times> 's" where
  "Push_ServeHTTP k h bp now r s =
     (let cidStr = header_get (sr_header r) ''X-Artifact-Cid'' in
      if cidStr = [] then
        (case rejectMalformed r [] 0 ''missing_cid_header'' ''missing X-Artifact-CID header'' of
           (rp, lg) \<Rightarrow> (rp, lg, s))
      else case sdk_ParseCID k cidStr of
        Inl e \<Rightarrow>
          (case rejectMalformed r cidStr 0 ''invalid_cid_header''
                  (message_text (sdk_ErrorText k) [Lit ''invalid CID: '', Val e]) of
             (rp, lg) \<Rightarrow> (rp, lg, s))
      | Inr c \<Rightarrow>
          (case read_all_limited (h_maxBody h + 1) (sr_body r) of
             (d, Some e) \<Rightarrow>
               (case rejectMalformed r cidStr (of_nat (length d)) ''read_body_error''
                       (message_text (sdk_ErrorText k) [Lit ''read body: '', Val e]) of
                  (rp, lg) \<Rightarrow> (rp, lg, s))
           | (d, None) \<Rightarrow>
               (let receivedSize = of_nat (length d) :: int64 in
                if sint receivedSize > sint (h_maxBody h) then
                  (writeError 413 (''body size exceeds '' @ itoa (sint (h_maxBody h)) @ '' bytes''),
                   [warn ''push rejected: body exceeds size limit''
                      (rejected_attrs ''size_exceeded'' cidStr r receivedSize @
                       [(''max_body_size'', AInt (sint (h_maxBody h)))])],
                   s)
                else case checkUploadToken k h r cidStr receivedSize now of
                       (tokenKid, rp, lg) \<Rightarrow>
                         if tokenKid = tokenRejected
                         then (case rp of None \<Rightarrow> no_reply | Some x \<Rightarrow> x, lg, s)
                         else (case Push_persist k h bp r cidStr c d tokenKid s of
                                 (rp', lg', s') \<Rightarrow> (rp', lg @ lg', s')))))"

section \<open>When a push reaches the backend\<close>

abbreviation claimed_cid :: "server_request \<Rightarrow> string" where
  "claimed_cid r \<equiv> header_get (sr_header r) ''X-Artifact-Cid''"

abbreviation upload_token :: "server_request \<Rightarrow> string" where
  "upload_token r \<equiv> header_get (sr_header r) ''X-Upload-Token''"

definition token_admits :: "PushHandler \<Rightarrow> server_request \<Rightarrow> int64 \<Rightarrow> time \<Rightarrow> bool" where
  "token_admits h r sz now \<longleftrightarrow>
     (if h_tokenPolicy h = ''off'' then True
      else case h_tokenVerifier h of
             None \<Rightarrow> True
           | Some verify \<Rightarrow>
               if upload_token r = [] then h_tokenPolicy h \<noteq> ''required''
               else verify (upload_token r) (claimed_cid r) sz now = None)"

text \<open>
  The request carries a CID that parses, a body within the limit, a token the policy
  admits, and (when verification is on) bytes that hash to the CID.
\<close>

definition push_admitted ::
  "sdk \<Rightarrow> PushHandler \<Rightarrow> time \<Rightarrow> server_request \<Rightarrow> cid \<Rightarrow> bytes \<Rightarrow> bool" where
  "push_admitted k h now r c d \<longleftrightarrow>
     claimed_cid r \<noteq> [] \<and> sdk_ParseCID k (claimed_cid r) = Inr c \<and>
     read_all_limited (h_maxBody h + 1) (sr_body r) = (d, None) \<and>
     sint (of_nat (length d) :: int64) \<le> sint (h_maxBody h) \<and>
     token_admits h r (of_nat (length d)) now \<and> (h_verify h \<longrightarrow> sdk_Verify k c d)"

lemma check_not_admitted:
  assumes "\<not> token_admits h r sz now"
  shows "\<exists>rp rec. checkUploadToken k h r (claimed_cid r) sz now = (tokenRejected, Some rp, [rec])"
  using assms
  by (auto simp: token_admits_def checkUploadToken_def Let_def split: if_splits option.splits)

lemma check_admitted:
  assumes "token_admits h r sz now"
  shows "checkUploadToken k h r (claimed_cid r) sz now =
           (if h_tokenPolicy h \<noteq> ''off'' \<and> h_tokenVerifier h \<noteq> None \<and> upload_token r \<noteq> []
            then extractKid (upload_token r) else [], None, [])"
  using assms
  by (auto simp: token_admits_def checkUploadToken_def Let_def split: if_splits option.splits)

text \<open>
  The log attribute that is read by hand: a token whose kid is the sentinel string is taken
  for a rejection after it verified.
\<close>

definition kid_collides :: "PushHandler \<Rightarrow> server_request \<Rightarrow> bool" where
  "kid_collides h r \<longleftrightarrow>
     h_tokenPolicy h \<noteq> ''off'' \<and> h_tokenVerifier h \<noteq> None \<and> upload_token r \<noteq> [] \<and>
     extractKid (upload_token r) = tokenRejected"

definition push_outcome ::
  "sdk \<Rightarrow> server_request \<Rightarrow> cid \<Rightarrow> bytes \<Rightarrow> goerr option \<times> 's \<Rightarrow> reply \<times> log_record list \<times> 's" where
  "push_outcome k r c d x =
     (case x of
        (None, s') \<Rightarrow>
          (json_reply 200 (JObj [(''cid'', JStr (sdk_String k c)), (''size'', JNum (itoa (int (length d))))]),
           [], s')
      | (Some e, s') \<Rightarrow>
          (writeError 500 (error_text (sdk_ErrorText k) e),
           [warn ''push rejected: backend error''
              (rejected_attrs ''backend_error'' (claimed_cid r) r (of_nat (length d)) @
               [(''error'', AStr (error_text (sdk_ErrorText k) e))])], s'))"

lemma tokenRejected_nonempty: "tokenRejected \<noteq> []"
  by (simp add: tokenRejected_def)

lemma push_admitted_outcome:
  assumes a: "push_admitted k h now r c d" and nc: "\<not> kid_collides h r"
  shows "Push_ServeHTTP k h bp now r s = push_outcome k r c d (bp_Push bp c d s)"
proof -
  have parts: "claimed_cid r \<noteq> []" "sdk_ParseCID k (claimed_cid r) = Inr c"
    "read_all_limited (h_maxBody h + 1) (sr_body r) = (d, None)"
    "\<not> sint (of_nat (length d) :: int64) > sint (h_maxBody h)"
    "token_admits h r (of_nat (length d)) now" "\<not> (h_verify h \<and> \<not> sdk_Verify k c d)"
    using a by (auto simp: push_admitted_def)
  obtain kid where kid: "checkUploadToken k h r (claimed_cid r) (of_nat (length d)) now = (kid, None, [])"
    "kid \<noteq> tokenRejected"
    using check_admitted [OF parts(5), of k] nc tokenRejected_nonempty
    by (auto simp: kid_collides_def split: if_splits)
  have "Push_ServeHTTP k h bp now r s = Push_persist k h bp r (claimed_cid r) c d kid s"
    using parts kid by (simp add: Push_ServeHTTP_def Let_def split: prod.splits)
  also have "\<dots> = push_outcome k r c d (bp_Push bp c d s)"
    using parts(6) by (auto simp: Push_persist_def push_outcome_def Let_def split: prod.splits option.splits)
  finally show ?thesis .
qed

text \<open>Every other request leaves the backend untouched.\<close>

lemma push_refusal:
  assumes "\<nexists>c d. push_admitted k h now r c d"
  shows "snd (snd (Push_ServeHTTP k h bp now r s)) = s \<and>
    (\<not> kid_collides h r \<longrightarrow> fst (snd (Push_ServeHTTP k h bp now r s)) \<noteq> [])"
proof (cases "claimed_cid r = [] \<or> (\<exists>e. sdk_ParseCID k (claimed_cid r) = Inl e)")
  case True
  then show ?thesis by (auto simp: Push_ServeHTTP_def rejectMalformed_def Let_def split: sum.splits)
next
  case False
  then obtain c where c: "claimed_cid r \<noteq> []" "sdk_ParseCID k (claimed_cid r) = Inr c"
    by (cases "sdk_ParseCID k (claimed_cid r)") auto
  obtain d e where d: "read_all_limited (h_maxBody h + 1) (sr_body r) = (d, e)" by fastforce
  show ?thesis
  proof (cases "e = None \<and> sint (of_nat (length d) :: int64) \<le> sint (h_maxBody h)")
    case False
    with c d show ?thesis
      by (auto simp: Push_ServeHTTP_def rejectMalformed_def Let_def split: option.splits)
  next
    case True
    show ?thesis
    proof (cases "token_admits h r (of_nat (length d)) now")
      case False
      then obtain rp rec where
        "checkUploadToken k h r (claimed_cid r) (of_nat (length d)) now = (tokenRejected, Some rp, [rec])"
        using check_not_admitted by blast
      with c d True show ?thesis by (simp add: Push_ServeHTTP_def Let_def)
    next
      case adm: True
      have "h_verify h \<and> \<not> sdk_Verify k c d"
        using assms c d True adm by (auto simp: push_admitted_def)
      moreover obtain kid where
        "checkUploadToken k h r (claimed_cid r) (of_nat (length d)) now = (kid, None, [])"
        "\<not> kid_collides h r \<longrightarrow> kid \<noteq> tokenRejected"
        using check_admitted [OF adm] tokenRejected_nonempty by (auto simp: kid_collides_def)
      ultimately show ?thesis using c d True
        by (simp add: Push_ServeHTTP_def Push_persist_def Let_def)
    qed
  qed
qed

lemmas push_not_admitted = conjunct1 [OF push_refusal]

lemma push_admitted_unique:
  "push_admitted k h now r c d \<Longrightarrow> push_admitted k h now r c' d' \<Longrightarrow> c' = c \<and> d' = d"
  by (simp add: push_admitted_def)

lemma push_collision:
  assumes a: "push_admitted k h now r c d" and nc: "kid_collides h r"
  shows "Push_ServeHTTP k h bp now r s = (no_reply, [], s)"
proof -
  have ck: "checkUploadToken k h r (claimed_cid r) (of_nat (length d)) now = (tokenRejected, None, [])"
    using a nc check_admitted [of h r "of_nat (length d)" now k]
    by (simp add: push_admitted_def kid_collides_def)
  with a show ?thesis
    by (simp add: push_admitted_def Push_ServeHTTP_def Let_def)
qed

section \<open>The audit trail\<close>

text \<open>The reasons the handler's comment lists, each with the status it is answered with.\<close>

definition audit_reasons :: "(string \<times> nat) list" where
  "audit_reasons =
     [(''missing_cid_header'', 400), (''invalid_cid_header'', 400), (''read_body_error'', 400),
      (''size_exceeded'', 413), (''cid_mismatch'', 400), (''token_required_missing'', 401),
      (''token_invalid'', 401), (''token_unknown_kid'', 401), (''token_cid_mismatch'', 401),
      (''token_size_mismatch'', 401), (''token_expired'', 401), (''token_malformed'', 401),
      (''backend_error'', 500)]"

definition audited :: "reply \<Rightarrow> log_record list \<Rightarrow> bool" where
  "audited rp lg \<longleftrightarrow>
     (\<exists>rec reason. lg = [rec] \<and> lr_level rec = LevelWarn \<and>
        log_attr rec ''event'' = Some (AStr pushRejectedEvent) \<and>
        log_attr rec ''reason'' = Some (AStr reason) \<and> (reason, rp_status rp) \<in> set audit_reasons)"

lemma audited_rejected:
  "(reason, rp_status rp) \<in> set audit_reasons \<Longrightarrow>
     audited rp [warn m (rejected_attrs reason c r sz @ rest)]"
  by (auto simp: audited_def rejected_attrs_def log_attr_def)

lemma audited_malformed:
  "(reason, 400) \<in> set audit_reasons \<Longrightarrow> rejectMalformed r c sz reason m = (rp, lg) \<Longrightarrow> audited rp lg"
  using audited_rejected [of reason rp _ c r sz "[]"] by (auto simp: rejectMalformed_def)

lemma classify_reason: "(classifyTokenError e, 401) \<in> set audit_reasons"
  by (simp add: classifyTokenError_def audit_reasons_def)

lemma audited_check:
  assumes "checkUploadToken k h r c sz now = (kid, Some rp, lg)"
  shows "audited rp lg"
proof (cases "upload_token r = []")
  case True
  have "(''token_required_missing'', 401) \<in> set audit_reasons" by (simp add: audit_reasons_def)
  with True assms audited_rejected [of "''token_required_missing''" rp _ c r sz "[]"] show ?thesis
    by (auto simp: checkUploadToken_def Let_def split: if_splits option.splits)
next
  case False
  with assms classify_reason audited_rejected show ?thesis
    by (auto simp: checkUploadToken_def Let_def split: if_splits option.splits)
qed

lemma audited_persist:
  assumes "Push_persist k h bp r cs c d kid s = (rp, lg, s')"
  shows "rp_status rp = 200 \<and> lg = [] \<or> audited rp lg"
proof (cases "h_verify h \<and> \<not> sdk_Verify k c d")
  case True
  with assms show ?thesis
    by (auto simp: Push_persist_def Let_def audited_def log_attr_def audit_reasons_def)
next
  case False
  have "(''backend_error'', 500) \<in> set audit_reasons" by (simp add: audit_reasons_def)
  then have "audited (writeError 500 m)
      [warn w (rejected_attrs ''backend_error'' cs r (of_nat (length d)) @ rest)]" for m w rest
    by (intro audited_rejected) simp
  with False assms show ?thesis
    by (auto simp: Push_persist_def Let_def split: prod.splits option.splits)
qed

lemma push_audit_trail:
  assumes "Push_ServeHTTP k h bp now r s = (rp, lg, s')"
  shows "rp_status rp = 200 \<and> lg = [] \<or> audited rp lg"
proof -
  have tab: "(''missing_cid_header'', 400) \<in> set audit_reasons" "(''invalid_cid_header'', 400) \<in> set audit_reasons"
    "(''read_body_error'', 400) \<in> set audit_reasons" "(''size_exceeded'', 413) \<in> set audit_reasons"
    by (simp_all add: audit_reasons_def)
  show ?thesis
  proof (cases "claimed_cid r = []")
    case True
    with assms show ?thesis
      using audited_malformed [OF tab(1)] by (auto simp: Push_ServeHTTP_def Let_def split: prod.splits)
  next
    case ne: False
    show ?thesis
    proof (cases "sdk_ParseCID k (claimed_cid r)")
      case (Inl e)
      with ne assms show ?thesis
        using audited_malformed [OF tab(2)] by (auto simp: Push_ServeHTTP_def Let_def split: prod.splits)
    next
      case (Inr c)
      obtain d e where d: "read_all_limited (h_maxBody h + 1) (sr_body r) = (d, e)" by fastforce
      obtain kid crp clg where ck:
        "checkUploadToken k h r (claimed_cid r) (of_nat (length d)) now = (kid, crp, clg)"
        by (metis prod_cases3)
      have none: "crp = None \<Longrightarrow> clg = []"
        using ck by (auto simp: checkUploadToken_def Let_def split: if_splits option.splits)
      have some: "\<And>x. crp = Some x \<Longrightarrow> kid = tokenRejected"
        using ck by (auto simp: checkUploadToken_def Let_def split: if_splits option.splits)
      obtain prp plg ps where pp: "Push_persist k h bp r (claimed_cid r) c d kid s = (prp, plg, ps)"
        by (metis prod_cases3)
      consider (readerr) x where "e = Some x"
        | (big) "e = None" "sint (of_nat (length d) :: int64) > sint (h_maxBody h)"
        | (rej) "e = None" "\<not> sint (of_nat (length d) :: int64) > sint (h_maxBody h)" "kid = tokenRejected"
        | (ok) "e = None" "\<not> sint (of_nat (length d) :: int64) > sint (h_maxBody h)" "kid \<noteq> tokenRejected"
        by (cases e) auto
      then show ?thesis
      proof cases
        case readerr
        with ne Inr d assms show ?thesis
          using audited_malformed [OF tab(3)] by (auto simp: Push_ServeHTTP_def Let_def split: prod.splits)
      next
        case big
        have "audited (writeError 413 m)
          [warn w (rejected_attrs ''size_exceeded'' (claimed_cid r) r (of_nat (length d)) @ rest)]" for m w rest
          using tab(4) by (intro audited_rejected) simp
        with big ne Inr d assms show ?thesis by (auto simp: Push_ServeHTTP_def Let_def)
      next
        case rej
        with ne Inr d ck assms show ?thesis
          using audited_check [of k h r "claimed_cid r" "of_nat (length d)" now kid] none
          by (cases crp) (auto simp: Push_ServeHTTP_def Let_def)
      next
        case ok
        with some have "crp = None" by (cases crp) auto
        with ok ne Inr d ck pp assms none audited_persist [OF pp] show ?thesis
          by (auto simp: Push_ServeHTTP_def Let_def)
      qed
    qed
  qed
qed

lemma push_refused_audited:
  assumes "\<nexists>c d. push_admitted k h now r c d" "\<not> kid_collides h r"
  shows "\<exists>rp lg. Push_ServeHTTP k h bp now r s = (rp, lg, s) \<and> audited rp lg"
  using push_refusal [OF assms(1), of bp s] assms(2) push_audit_trail [of k h bp now r s]
  by (cases "Push_ServeHTTP k h bp now r s") auto

section \<open>The kid that is logged is the kid that was verified\<close>

lemma unmarshal_kid_payload: "unmarshal_payload b = Some p \<Longrightarrow> unmarshal_kid b = Some (p_Kid p)"
  by (auto simp: unmarshal_payload_def unmarshal_kid_def decode_payload_def
      split: option.splits bind_splits)

lemma extractKid_authorised:
  assumes "token_authorises k keys token cidstr sz now p"
  shows "extractKid token = p_Kid p"
proof -
  obtain payload sig where tp: "token_parts token = Some (payload, sig)" and
    um: "unmarshal_payload payload = Some p"
    using assms by (auto simp: token_authorises_def)
  obtain dot where dot: "index_byte CHR ''.'' token = Some dot" "\<not> dot < 1"
    and e: "b64_either (take dot token) = Some payload"
    using tp unfolding token_parts_index by (auto split: option.splits if_splits)
  show ?thesis
  proof (cases "b64_decode b64_url False (take dot token)")
    case None
    with dot e unmarshal_kid_payload [OF um] show ?thesis
      by (simp add: extractKid_def b64_either_def)
  next
    case (Some b)
    with dot e unmarshal_kid_payload [OF um] show ?thesis
      by (simp add: extractKid_def b64_either_def)
  qed
qed

text \<open>So the sentinel string can be taken for a rejection only if a key carries that name.\<close>

lemma no_collision:
  assumes v: "h_tokenVerifier h = Some (Token_Verify k keys)"
    and "map_of keys tokenRejected = None" "token_admits h r sz now"
  shows "\<not> kid_collides h r"
proof
  assume c: "kid_collides h r"
  then have "Token_Verify k keys (upload_token r) (claimed_cid r) sz now = None"
    using assms by (simp add: kid_collides_def token_admits_def)
  then obtain p where p: "token_authorises k keys (upload_token r) (claimed_cid r) sz now p"
    using Token_Verify_accepts by blast
  have "p_Kid p = tokenRejected"
    using extractKid_authorised [OF p] c by (simp add: kid_collides_def)
  with p assms(2) show False by (auto simp: token_authorises_def)
qed

section \<open>The size limit\<close>

lemma push_body_within:
  assumes "0 \<le> sint (h_maxBody h)" "sint (h_maxBody h) < max_int64"
    and "int (length (st_data (sr_body r))) \<le> sint (h_maxBody h)" "st_err (sr_body r) = None"
  shows "read_all_limited (h_maxBody h + 1) (sr_body r) = (st_data (sr_body r), None) \<and>
         sint (of_nat (length (st_data (sr_body r))) :: int64) \<le> sint (h_maxBody h)"
  using read_all_limited_within [OF assms(1-3)] assms sint_of_nat64 [of "length (st_data (sr_body r))"]
  by simp

lemma push_oversized:
  assumes m: "0 \<le> sint (h_maxBody h)" "sint (h_maxBody h) < max_int64"
    and big: "sint (h_maxBody h) < int (length (st_data (sr_body r)))"
    and c: "claimed_cid r \<noteq> []" "sdk_ParseCID k (claimed_cid r) = Inr c"
  shows "\<exists>lg. Push_ServeHTTP k h bp now r s =
           (writeError 413 (''body size exceeds '' @ itoa (sint (h_maxBody h)) @ '' bytes''), lg, s)"
proof -
  let ?d = "take (nat (sint (h_maxBody h)) + 1) (st_data (sr_body r))"
  have rd: "read_all_limited (h_maxBody h + 1) (sr_body r) = (?d, None)"
    using read_all_limited_beyond [OF m big] .
  have len: "length ?d = nat (sint (h_maxBody h)) + 1" using big m(1) by simp
  have "sint (of_nat (length ?d) :: int64) = sint (h_maxBody h) + 1"
    using sint_of_nat64 [of "length ?d"] m len by simp
  with rd c show ?thesis by (simp add: Push_ServeHTTP_def Let_def)
qed

text \<open>At the largest limit, adding one wraps and the body is not read at all.\<close>

lemma push_limit_wraps:
  assumes "sint (h_maxBody h) = max_int64"
  shows "read_all_limited (h_maxBody h + 1) (sr_body r) = ([], None)"
proof -
  have "(of_int (sint (h_maxBody h)) :: int64) = h_maxBody h" by simp
  then have "h_maxBody h = of_int max_int64" using assms by simp
  then have "h_maxBody h + 1 = 0x8000000000000000" by (simp add: max_int64_def)
  then have "sint (h_maxBody h + 1) \<le> 0" by simp
  then show ?thesis by (simp add: read_all_limited_def)
qed

section \<open>The handler over a store\<close>

text \<open>Every byte string a store may serve under a CID hashes to it.\<close>

definition intact :: "sdk \<Rightarrow> (cid \<Rightarrow> bool) \<Rightarrow> (cid \<Rightarrow> bytes set) \<Rightarrow> bool" where
  "intact k ok holds \<longleftrightarrow> (\<forall>c d. ok c \<longrightarrow> d \<in> holds c \<longrightarrow> sdk_Verify k c d)"

lemma intact_below: "intact k ok f \<Longrightarrow> below ok g f \<Longrightarrow> intact k ok g"
  by (auto simp: intact_def below_def)

lemma Push_state:
  "snd (snd (Push_ServeHTTP k h bp now r s)) = s \<or>
   (\<exists>c d. push_admitted k h now r c d \<and> \<not> kid_collides h r \<and>
          snd (snd (Push_ServeHTTP k h bp now r s)) = snd (bp_Push bp c d s))"
proof (cases "\<exists>c d. push_admitted k h now r c d")
  case False
  from push_not_admitted [OF this, of bp s] show ?thesis by (rule disjI1)
next
  case True
  then obtain c d where a: "push_admitted k h now r c d" by blast
  show ?thesis
  proof (cases "kid_collides h r")
    case True
    from push_collision [OF a True, of bp s] show ?thesis by simp
  next
    case False
    have "snd (snd (Push_ServeHTTP k h bp now r s)) = snd (bp_Push bp c d s)"
      using push_admitted_outcome [OF a False, of bp s]
      by (simp add: push_outcome_def split: prod.splits option.splits)
    with a False show ?thesis by blast
  qed
qed

context object_store
begin

lemma push_handler_inv:
  assumes "inv s" "cid_codec k okcid"
  shows "inv (snd (snd (Push_ServeHTTP k h bp now r s)))"
    and "h_verify h \<Longrightarrow> intact k okcid (holds s) \<Longrightarrow>
           intact k okcid (holds (snd (snd (Push_ServeHTTP k h bp now r s))))"
proof -
  have "inv (snd (snd (Push_ServeHTTP k h bp now r s))) \<and>
     (h_verify h \<longrightarrow> intact k okcid (holds s) \<longrightarrow>
        intact k okcid (holds (snd (snd (Push_ServeHTTP k h bp now r s)))))"
    using Push_state [of k h bp now r s]
  proof
    assume "snd (snd (Push_ServeHTTP k h bp now r s)) = s"
    with assms show ?thesis by simp
  next
    assume "\<exists>c d. push_admitted k h now r c d \<and> \<not> kid_collides h r \<and>
          snd (snd (Push_ServeHTTP k h bp now r s)) = snd (bp_Push bp c d s)"
    then obtain c d where a: "push_admitted k h now r c d"
      and st: "snd (snd (Push_ServeHTTP k h bp now r s)) = snd (bp_Push bp c d s)" by blast
    have ok: "okcid c"
      using a assms(2) cid_codec_parsed by (auto simp: push_admitted_def)
    obtain e s' where p: "bp_Push bp c d s = (e, s')" by fastforce
    from push_law [OF assms(1) ok p]
    have "inv s'" "\<And>c' x. okcid c' \<Longrightarrow> x \<in> holds s' c' \<Longrightarrow> x \<in> holds s c' \<or> c' = c \<and> x = d"
      by (simp_all add: below_insert_iff)
    moreover have "h_verify h \<Longrightarrow> sdk_Verify k c d" using a by (simp add: push_admitted_def)
    ultimately show ?thesis by (auto simp: st p intact_def)
  qed
  then show "inv (snd (snd (Push_ServeHTTP k h bp now r s)))"
    "h_verify h \<Longrightarrow> intact k okcid (holds s) \<Longrightarrow>
       intact k okcid (holds (snd (snd (Push_ServeHTTP k h bp now r s))))"
    by blast+
qed

end

context reliable_store
begin

lemma push_handler_stores:
  assumes "inv s" "cid_codec k okcid" "push_admitted k h now r c d" "\<not> kid_collides h r"
    "Push_ServeHTTP k h bp now r s = (rp, lg, s')"
  shows "rp = json_reply 200 (JObj [(''cid'', JStr (sdk_String k c)),
                                    (''size'', JNum (itoa (int (length d))))]) \<and>
         lg = [] \<and> inv s' \<and> agree okcid (contents s') ((contents s)(c := Some d))"
proof -
  have ok: "okcid c"
    using assms(2,3) cid_codec_parsed by (auto simp: push_admitted_def)
  obtain e s1 where p: "bp_Push bp c d s = (e, s1)" by fastforce
  from push_ok [OF assms(1) ok p] assms(5) push_admitted_outcome [OF assms(3,4), of bp s] p
  show ?thesis by (auto simp: push_outcome_def)
qed

end

end
