(* ===== verification/Api_Handlers.thy ===== *)
theory Api_Handlers
  imports Api_Push
begin

text \<open>
  The read, pin, delete, resolve and health handlers (\<open>api/fetch.go\<close>, \<open>exists.go\<close>,
  \<open>pin.go\<close>, \<open>delete.go\<close>, \<open>resolve.go\<close>, \<open>health.go\<close>) and the wire form of a retrieval
  credential (\<open>api/wire.go\<close>). The path wildcard is an argument of the handlers that read it.
\<close>

section \<open>Reading, pinning, deleting\<close>

definition parseCIDFromPath :: "sdk \<Rightarrow> string \<Rightarrow> goerr + cid" where
  "parseCIDFromPath k cidStr =
     (if cidStr = [] then Inl (Errorf [Lit ''missing CID in path'']) else sdk_ParseCID k cidStr)"

definition fail_with :: "sdk \<Rightarrow> nat \<Rightarrow> goerr \<Rightarrow> reply" where
  "fail_with k st e = writeError st (error_text (sdk_ErrorText k) e)"

definition Fetch_ServeHTTP :: "sdk \<Rightarrow> 's BackendProvider \<Rightarrow> string \<Rightarrow> 's \<Rightarrow> reply \<times> 's" where
  "Fetch_ServeHTTP k bp cidStr s =
     (case parseCIDFromPath k cidStr of
        Inl e \<Rightarrow> (fail_with k 400 e, s)
      | Inr c \<Rightarrow>
          (case bp_Fetch bp c s of
             (Inl e, s') \<Rightarrow>
               (if errors_is e ErrContentNotFound then (writeError 404 ''not found'', s')
                else (fail_with k 500 e, s'))
           | (Inr d, s') \<Rightarrow>
               (\<lparr>rp_status = 200,
                 rp_header = [(''Content-Type'', ''application/octet-stream''),
                              (''Cache-Control'', ''public, immutable''),
                              (''Content-Length'', itoa (int (length d)))],
                 rp_body = d\<rparr>, s')))"

definition Exists_ServeHTTP :: "sdk \<Rightarrow> 's BackendProvider \<Rightarrow> string \<Rightarrow> 's \<Rightarrow> reply \<times> 's" where
  "Exists_ServeHTTP k bp cidStr s =
     (case parseCIDFromPath k cidStr of
        Inl e \<Rightarrow> (status_only 400, s)
      | Inr c \<Rightarrow>
          (case bp_Exists bp c s of
             (Inl e, s') \<Rightarrow> (status_only 500, s')
           | (Inr b, s') \<Rightarrow> (status_only (if b then 200 else 404), s')))"

definition Pin_ServeHTTP :: "sdk \<Rightarrow> 's BackendProvider \<Rightarrow> string \<Rightarrow> 's \<Rightarrow> reply \<times> 's" where
  "Pin_ServeHTTP k bp cidStr s =
     (case parseCIDFromPath k cidStr of
        Inl e \<Rightarrow> (fail_with k 400 e, s)
      | Inr c \<Rightarrow>
          (case bp_Pin bp c s of
             (Some e, s') \<Rightarrow>
               (if errors_is e ErrContentNotFound then (writeError 404 ''not found'', s')
                else (fail_with k 500 e, s'))
           | (None, s') \<Rightarrow> (status_only 200, s')))"

definition Delete_ServeHTTP :: "sdk \<Rightarrow> 's BackendProvider \<Rightarrow> string \<Rightarrow> 's \<Rightarrow> reply \<times> 's" where
  "Delete_ServeHTTP k bp cidStr s =
     (case parseCIDFromPath k cidStr of
        Inl e \<Rightarrow> (fail_with k 400 e, s)
      | Inr c \<Rightarrow>
          (case bp_Delete bp c s of
             (Some e, s') \<Rightarrow>
               (if errors_is e ErrNotSupported
                then (writeError 501 ''delete not supported by this backend'', s')
                else (fail_with k 500 e, s'))
           | (None, s') \<Rightarrow> (status_only 200, s')))"

section \<open>Resolving\<close>

record resolveResponseV1 =
  w_Method :: string
  w_URL :: string
  w_Expiry :: string

definition retrievalCredentialToWire :: "RetrievalCredential \<Rightarrow> resolveResponseV1" where
  "retrievalCredentialToWire c =
     \<lparr>w_Method = rc_Method c, w_URL = rc_URL c,
      w_Expiry = (case rc_Expiry c of None \<Rightarrow> [] | Some t \<Rightarrow> format_rfc3339 t)\<rparr>"

definition retrievalCredentialFromWire :: "resolveResponseV1 \<Rightarrow> RetrievalCredential" where
  "retrievalCredentialFromWire w =
     \<lparr>rc_Method = w_Method w, rc_URL = w_URL w,
      rc_Expiry = (if w_Expiry w = [] then None else parse_rfc3339 (w_Expiry w))\<rparr>"

text \<open>The struct tags: lower-case names, an empty expiry omitted.\<close>

definition wire_json :: "resolveResponseV1 \<Rightarrow> json" where
  "wire_json w =
     JObj ([(''method'', JStr (w_Method w)), (''url'', JStr (w_URL w))] @
           (if w_Expiry w = [] then [] else [(''expiry'', JStr (w_Expiry w))]))"

definition wire_of_json :: "json \<Rightarrow> resolveResponseV1 option" where
  "wire_of_json j =
     (case json_members j of
        None \<Rightarrow> None
      | Some kvs \<Rightarrow>
          (case (decode_str ''method'' kvs, decode_str ''url'' kvs, decode_str ''expiry'' kvs) of
             (Some m, Some u, Some e) \<Rightarrow> Some \<lparr>w_Method = m, w_URL = u, w_Expiry = e\<rparr>
           | _ \<Rightarrow> None))"

definition requested_expiry :: "duration \<Rightarrow> string \<Rightarrow> duration" where
  "requested_expiry dflt rawquery =
     (let es = query_get rawquery ''expiry'' in
      if es = [] then dflt
      else case parse_int64 es of
             Some secs \<Rightarrow> if sint secs > 0 then seconds secs else dflt
           | None \<Rightarrow> dflt)"

definition Resolve_ServeHTTP ::
  "sdk \<Rightarrow> 's BackendProvider \<Rightarrow> duration \<Rightarrow> string \<Rightarrow> string \<Rightarrow> 's \<Rightarrow> reply \<times> 's" where
  "Resolve_ServeHTTP k bp defaultExpiry rawquery cidStr s =
     (case parseCIDFromPath k cidStr of
        Inl e \<Rightarrow> (fail_with k 400 e, s)
      | Inr c \<Rightarrow>
          (case bp_Exists bp c s of
             (Inl e, s1) \<Rightarrow> (fail_with k 500 e, s1)
           | (Inr b, s1) \<Rightarrow>
               if \<not> b then (writeError 404 ''not found'', s1)
               else case bp_Resolve bp c (requested_expiry defaultExpiry rawquery) s1 of
                      (Inl e, s2) \<Rightarrow>
                        (if errors_is e ErrContentNotFound then (writeError 404 ''not found'', s2)
                         else (fail_with k 500 e, s2))
                    | (Inr cred, s2) \<Rightarrow>
                        (json_reply 200 (wire_json (retrievalCredentialToWire cred)), s2)))"

section \<open>Health\<close>

definition Health_ServeHTTP :: "sdk \<Rightarrow> 's BackendProvider \<Rightarrow> 's \<Rightarrow> reply outcome \<times> 's" where
  "Health_ServeHTTP k bp s =
     (case bp_Healthy bp s of
        (Panics m, s') \<Rightarrow> (Panics m, s')
      | (Returns (Some e), s') \<Rightarrow>
          (Returns (json_reply 503 (JObj [(''error'', JStr (error_text (sdk_ErrorText k) e)),
                                          (''status'', JStr ''unhealthy'')])), s')
      | (Returns None, s') \<Rightarrow>
          (Returns (json_reply 200 (JObj [(''status'', JStr ''healthy'')])), s'))"

section \<open>The wire form round-trips\<close>

lemma format_rfc3339_nonempty: "format_rfc3339 t \<noteq> []"
  by (simp add: format_rfc3339_def Let_def split_beta)

lemma json_fold_wire [simp]:
  "json_fold ''method'' = ''METHOD''" "json_fold ''url'' = ''URL''" "json_fold ''expiry'' = ''EXPIRY''"
  by (simp_all add: json_fold_eval)

lemma wire_of_json_inverse: "wire_of_json (wire_json w) = Some w"
  by (simp add: wire_of_json_def wire_json_def json_members_def decode_str_def)

lemma wire_json_plain:
  "ascii (w_Method w) \<Longrightarrow> ascii (w_URL w) \<Longrightarrow> ascii (w_Expiry w) \<Longrightarrow>
     json_plain (wire_json w) \<and> json_depth (wire_json w) \<le> 10000"
  by (simp add: wire_json_def ascii_def code_def)

text \<open>What a client reads back from the body of a successful resolve.\<close>

definition parse_resolve_body :: "bytes \<Rightarrow> RetrievalCredential option" where
  "parse_resolve_body b =
     map_option retrievalCredentialFromWire (Option.bind (json_parse (bytes_str b)) wire_of_json)"

lemma ascii_digit_char: "n < 10 \<Longrightarrow> code (digit_char n) < 128"
  by (simp add: code_def digit_char_def)

lemma ascii_two_digits: "0 \<le> n \<Longrightarrow> n < 100 \<Longrightarrow> ascii (two_digits n)"
  by (auto simp: ascii_def two_digits_def intro!: ascii_digit_char)

lemma ascii_append [simp]: "ascii (a @ b) \<longleftrightarrow> ascii a \<and> ascii b"
  by (simp add: ascii_def)

lemma ascii_pad_year:
  assumes "0 \<le> y" "y < 10000"
  shows "ascii (pad_year y)"
proof -
  have "nat y < 10000" using assms by simp
  then have "nat y div 1000 < 10" by linarith
  with assms \<open>nat y < 10000\<close> show ?thesis
    by (auto simp: ascii_def pad_year_def Let_def intro!: ascii_digit_char)
qed

lemma ascii_rfc3339:
  assumes "0 \<le> year_of t" "year_of t < 10000"
  shows "ascii (format_rfc3339 t)"
proof -
  define sod where "sod = unix t mod 86400"
  have sod: "0 \<le> sod" "sod < 86400" by (simp_all add: sod_def)
  obtain y m d where civ: "civil_of_days (unix t div 86400) = (y, m, d)" by (metis prod_cases3)
  note C = civil_roundtrip [OF civ]
  have "days_in m y \<le> 31" by (simp add: days_in_def)
  with C have md: "0 \<le> m" "m < 100" "0 \<le> d" "d < 100" by linarith+
  have y: "0 \<le> y" "y < 10000" using assms civ by (simp_all add: year_of_def)
  have lit: "ascii ''-''" "ascii '':''" "ascii ''T''" "ascii ''Z''" by (simp_all add: ascii_def code_def)
  note ds = day_seconds [OF sod]
  have tod: "ascii (two_digits (sod div 3600))" "ascii (two_digits (sod mod 3600 div 60))"
    "ascii (two_digits (sod mod 60))"
    by (rule ascii_two_digits, use ds in linarith, use ds in linarith)+
  show ?thesis
    unfolding format_rfc3339_def Let_def civ prod.case sod_def [symmetric]
    using ascii_pad_year [OF y] ascii_two_digits [OF md(1,2)] ascii_two_digits [OF md(3,4)] tod lit
    by (simp only: ascii_append)
qed

definition truncate_expiry :: "RetrievalCredential \<Rightarrow> RetrievalCredential" where
  "truncate_expiry c = c\<lparr>rc_Expiry := map_option (\<lambda>t. unix t * 1000000000) (rc_Expiry c)\<rparr>"

definition printable_expiry :: "RetrievalCredential \<Rightarrow> bool" where
  "printable_expiry c \<longleftrightarrow>
     (case rc_Expiry c of None \<Rightarrow> True | Some t \<Rightarrow> 0 \<le> year_of t \<and> year_of t < 10000)"

lemma wire_roundtrip:
  "printable_expiry c \<Longrightarrow>
     retrievalCredentialFromWire (retrievalCredentialToWire c) = truncate_expiry c"
  by (cases c)
    (auto simp: printable_expiry_def retrievalCredentialFromWire_def retrievalCredentialToWire_def
      truncate_expiry_def format_rfc3339_nonempty rfc3339_roundtrip split: option.splits)

lemma resolve_body_roundtrip:
  assumes "printable_expiry c" "ascii (rc_Method c)" "ascii (rc_URL c)"
  shows "parse_resolve_body (rp_body (json_reply 200 (wire_json (retrievalCredentialToWire c)))) =
           Some (truncate_expiry c)"
proof -
  let ?w = "retrievalCredentialToWire c"
  have "ascii (w_Expiry ?w)"
    using assms(1) by (auto simp: printable_expiry_def retrievalCredentialToWire_def ascii_rfc3339
        split: option.splits) (simp add: ascii_def)
  then have "json_plain (wire_json ?w) \<and> json_depth (wire_json ?w) \<le> 10000"
    using assms by (intro wire_json_plain) (simp_all add: retrievalCredentialToWire_def)
  then show ?thesis
    using json_parse_encode_line [of "wire_json ?w"] wire_roundtrip [OF assms(1)]
    by (simp add: parse_resolve_body_def json_reply_def wire_of_json_inverse)
qed

section \<open>The handlers over a store\<close>

context object_store
begin

lemma fetch_handler:
  assumes "inv s" "cid_codec k okcid" "Fetch_ServeHTTP k bp cs s = (rp, s')"
  shows "inv s' \<and> below okcid (holds s') (holds s)"
    and "rp_status rp = 200 \<Longrightarrow>
           \<exists>c. sdk_ParseCID k cs = Inr c \<and> okcid c \<and> rp_body rp \<in> holds s c"
proof -
  have "inv s' \<and> below okcid (holds s') (holds s) \<and>
     (rp_status rp = 200 \<longrightarrow> (\<exists>c. sdk_ParseCID k cs = Inr c \<and> okcid c \<and> rp_body rp \<in> holds s c))"
  proof (cases "parseCIDFromPath k cs")
    case (Inl e)
    with assms show ?thesis by (auto simp: Fetch_ServeHTTP_def fail_with_def)
  next
    case (Inr c)
    then have pc: "sdk_ParseCID k cs = Inr c" by (auto simp: parseCIDFromPath_def split: if_splits)
    then have ok: "okcid c" using assms(2) by (rule cid_codec_parsed [rotated])
    obtain q s1 where f: "bp_Fetch bp c s = (q, s1)" by fastforce
    from fetch_law [OF assms(1) ok f] Inr pc ok f assms(3) show ?thesis
      by (cases q) (auto simp: Fetch_ServeHTTP_def fail_with_def split: if_splits)
  qed
  then show "inv s' \<and> below okcid (holds s') (holds s)"
    "rp_status rp = 200 \<Longrightarrow> \<exists>c. sdk_ParseCID k cs = Inr c \<and> okcid c \<and> rp_body rp \<in> holds s c"
    by blast+
qed

lemma parsed_ok: "cid_codec k okcid \<Longrightarrow> parseCIDFromPath k cs = Inr c \<Longrightarrow> okcid c"
  by (auto simp: parseCIDFromPath_def cid_codec_def split: if_splits)

lemma exists_handler:
  assumes "inv s" "cid_codec k okcid"
  shows "inv (snd (Exists_ServeHTTP k bp cs s)) \<and>
         below okcid (holds (snd (Exists_ServeHTTP k bp cs s))) (holds s)"
proof (cases "parseCIDFromPath k cs")
  case (Inr c)
  obtain q s1 where f: "bp_Exists bp c s = (q, s1)" by fastforce
  from exists_law [OF assms(1) parsed_ok [OF assms(2) Inr] f] Inr f show ?thesis
    by (cases q) (auto simp: Exists_ServeHTTP_def)
qed (simp add: Exists_ServeHTTP_def assms)

lemma pin_handler:
  assumes "inv s" "cid_codec k okcid"
  shows "inv (snd (Pin_ServeHTTP k bp cs s)) \<and>
         below okcid (holds (snd (Pin_ServeHTTP k bp cs s))) (holds s)"
proof (cases "parseCIDFromPath k cs")
  case (Inr c)
  obtain q s1 where f: "bp_Pin bp c s = (q, s1)" by fastforce
  from pin_law [OF assms(1) parsed_ok [OF assms(2) Inr] f] Inr f show ?thesis
    by (cases q) (auto simp: Pin_ServeHTTP_def)
qed (simp add: Pin_ServeHTTP_def assms)

lemma delete_handler:
  assumes "inv s" "cid_codec k okcid"
  shows "inv (snd (Delete_ServeHTTP k bp cs s)) \<and>
         below okcid (holds (snd (Delete_ServeHTTP k bp cs s))) (holds s)"
proof (cases "parseCIDFromPath k cs")
  case (Inr c)
  obtain q s1 where f: "bp_Delete bp c s = (q, s1)" by fastforce
  from delete_law [OF assms(1) parsed_ok [OF assms(2) Inr] f] Inr f show ?thesis
    by (cases q) (auto simp: Delete_ServeHTTP_def)
qed (simp add: Delete_ServeHTTP_def assms)

lemma resolve_handler:
  assumes "inv s" "cid_codec k okcid"
  shows "inv (snd (Resolve_ServeHTTP k bp e q cs s)) \<and>
         below okcid (holds (snd (Resolve_ServeHTTP k bp e q cs s))) (holds s)"
proof (cases "parseCIDFromPath k cs")
  case (Inr c)
  obtain x s1 where f: "bp_Exists bp c s = (x, s1)" by fastforce
  obtain y s2 where g: "bp_Resolve bp c (requested_expiry e q) s1 = (y, s2)" by fastforce
  note ok = parsed_ok [OF assms(2) Inr]
  note l1 = exists_law [OF assms(1) ok f]
  have l2: "inv s2 \<and> below okcid (holds s2) (holds s1)" using l1 resolve_law [OF _ ok g] by blast
  with l1 have "below okcid (holds s2) (holds s)" using below_trans by blast
  with l1 l2 Inr f g show ?thesis
    by (cases x; cases y) (auto simp: Resolve_ServeHTTP_def)
qed (simp add: Resolve_ServeHTTP_def assms)

lemma health_handler:
  assumes "inv s"
  shows "inv (snd (Health_ServeHTTP k bp s)) \<and>
         below okcid (holds (snd (Health_ServeHTTP k bp s))) (holds s)"
proof -
  obtain h s1 where f: "bp_Healthy bp s = (h, s1)" by fastforce
  from healthy_law [OF assms f] f show ?thesis
    by (auto simp: Health_ServeHTTP_def split: outcome.splits option.splits)
qed

end

end
