(* ===== verification/Api_Server.thy ===== *)
theory Api_Server
  imports Api_Handlers
begin

text \<open>
  \<open>api/server.go\<close>: the configuration, the route table of \<open>NewMux\<close>, and the service it
  makes. Routing follows \<open>http.ServeMux\<close>: the escaped path is cleaned first (a path that
  changes is redirected), segments are unescaped one by one, \<open>HEAD\<close> falls back to the
  \<open>GET\<close> patterns, and a path known under other methods is answered 405. Handlers run
  concurrently, so the service is also given as a step relation over the single backend
  calls the handlers make, in any interleaving.
\<close>

section \<open>Routing\<close>

datatype pattern_segment = PLit string | PWild

datatype endpoint =
    EpPush
  | EpFetch string
  | EpExists string
  | EpDelete string
  | EpResolve string
  | EpPin string
  | EpHealth

datatype routed =
    Serve endpoint
  | Redirect string
  | MethodNotAllowed "string list"
  | NotFound

fun clean_segments :: "string list \<Rightarrow> string list \<Rightarrow> string list" where
  "clean_segments acc [] = rev acc"
| "clean_segments acc (x # xs) =
     (if x = [] \<or> x = ''.'' then clean_segments acc xs
      else if x = ''..'' then clean_segments (tl acc) xs
      else clean_segments (x # acc) xs)"

definition clean_path :: "string \<Rightarrow> string" where
  "clean_path p =
     (let q = (case p of [] \<Rightarrow> ''/'' | c # _ \<Rightarrow> if c = CHR ''/'' then p else CHR ''/'' # p);
          np = CHR ''/'' # join ''/'' (clean_segments [] (split_byte CHR ''/'' q))
      in if last q = CHR ''/'' \<and> np \<noteq> ''/'' then np @ ''/'' else np)"

definition path_unescape :: "string \<Rightarrow> string" where
  "path_unescape s = (case unescape False s of None \<Rightarrow> s | Some t \<Rightarrow> t)"

definition path_segments :: "string \<Rightarrow> string list" where
  "path_segments p = map path_unescape (split_byte CHR ''/'' (tl p))"

fun match_segments :: "pattern_segment list \<Rightarrow> string list \<Rightarrow> string list option" where
  "match_segments [] [] = Some []"
| "match_segments (PLit l # ps) (x # xs) = (if x = l then match_segments ps xs else None)"
| "match_segments (PWild # ps) (x # xs) =
     (if x = [] then None else map_option ((#) x) (match_segments ps xs))"
| "match_segments _ _ = None"

abbreviation artifacts_prefix :: "pattern_segment list" where
  "artifacts_prefix \<equiv> [PLit ''v1'', PLit ''artifacts'']"

text \<open>The seven calls of \<open>mux.Handle\<close>, in their order.\<close>

definition route_table :: "(string \<times> pattern_segment list \<times> (string list \<Rightarrow> endpoint)) list" where
  "route_table =
     [(''POST'', artifacts_prefix, \<lambda>_. EpPush),
      (''GET'', artifacts_prefix @ [PWild], \<lambda>m. EpFetch (hd m)),
      (''HEAD'', artifacts_prefix @ [PWild], \<lambda>m. EpExists (hd m)),
      (''DELETE'', artifacts_prefix @ [PWild], \<lambda>m. EpDelete (hd m)),
      (''GET'', artifacts_prefix @ [PWild, PLit ''resolve''], \<lambda>m. EpResolve (hd m)),
      (''POST'', artifacts_prefix @ [PWild, PLit ''pin''], \<lambda>m. EpPin (hd m)),
      (''GET'', [PLit ''healthz''], \<lambda>_. EpHealth)]"

definition match_method :: "string \<Rightarrow> string list \<Rightarrow> endpoint option" where
  "match_method meth segs =
     (case List.map_filter (\<lambda>(m, ps, f). if m = meth then map_option f (match_segments ps segs) else None)
             route_table of
        [] \<Rightarrow> None
      | e # _ \<Rightarrow> Some e)"

definition allowed_methods :: "string list \<Rightarrow> string list" where
  "allowed_methods segs =
     (let ms = filter (\<lambda>m. match_method m segs \<noteq> None) [''DELETE'', ''GET'', ''HEAD'', ''POST'']
      in if ''GET'' \<in> set ms \<and> ''HEAD'' \<notin> set ms
         then filter (\<lambda>m. m = ''HEAD'' \<or> m \<in> set ms) [''DELETE'', ''GET'', ''HEAD'', ''POST''] else ms)"

definition mux_match :: "string \<Rightarrow> string \<Rightarrow> routed" where
  "mux_match meth path =
     (let segs = path_segments path in
      case match_method meth segs of
        Some e \<Rightarrow> Serve e
      | None \<Rightarrow>
          (case (if meth = ''HEAD'' then match_method ''GET'' segs else None) of
             Some e \<Rightarrow> Serve e
           | None \<Rightarrow>
               (if allowed_methods segs \<noteq> [] then MethodNotAllowed (allowed_methods segs) else NotFound)))"

definition route :: "string \<Rightarrow> string \<Rightarrow> routed" where
  "route meth escaped =
     (if meth = ''CONNECT'' then mux_match meth escaped
      else if clean_path escaped \<noteq> escaped then Redirect (clean_path escaped)
      else mux_match meth escaped)"

section \<open>The service\<close>

record ServerConfig =
  sc_VerifyOnPush :: bool
  sc_MaxBodySize :: int64
  sc_DefaultExpiry :: duration
  sc_UploadTokenVerifier :: "token_verifier option"
  sc_UploadTokenPolicy :: string

definition push_handler :: "ServerConfig \<Rightarrow> PushHandler" where
  "push_handler cfg =
     \<lparr>h_verify = sc_VerifyOnPush cfg, h_maxBody = sc_MaxBodySize cfg,
      h_tokenVerifier = sc_UploadTokenVerifier cfg,
      h_tokenPolicy = (if sc_UploadTokenPolicy cfg = [] then ''off'' else sc_UploadTokenPolicy cfg)\<rparr>"

definition text_reply :: "nat \<Rightarrow> header \<Rightarrow> string \<Rightarrow> reply" where
  "text_reply st hdr msg =
     \<lparr>rp_status = st,
      rp_header = hdr @ [(''Content-Type'', ''text/plain; charset=utf-8''),
                        (''X-Content-Type-Options'', ''nosniff'')],
      rp_body = str_bytes (msg @ [newline])\<rparr>"

definition plain :: "reply \<times> 's \<Rightarrow> reply outcome \<times> log_record list \<times> 's" where
  "plain x = (Returns (fst x), [], snd x)"

definition serve_endpoint ::
  "sdk \<Rightarrow> ServerConfig \<Rightarrow> 's BackendProvider \<Rightarrow> time \<Rightarrow> server_request \<Rightarrow> endpoint \<Rightarrow> 's \<Rightarrow>
   reply outcome \<times> log_record list \<times> 's" where
  "serve_endpoint k cfg bp now r ep s =
     (case ep of
        EpPush \<Rightarrow> (case Push_ServeHTTP k (push_handler cfg) bp now r s of
                     (rp, lg, s') \<Rightarrow> (Returns rp, lg, s'))
      | EpFetch c \<Rightarrow> plain (Fetch_ServeHTTP k bp c s)
      | EpExists c \<Rightarrow> plain (Exists_ServeHTTP k bp c s)
      | EpDelete c \<Rightarrow> plain (Delete_ServeHTTP k bp c s)
      | EpResolve c \<Rightarrow> plain (Resolve_ServeHTTP k bp (sc_DefaultExpiry cfg) (sr_rawquery r) c s)
      | EpPin c \<Rightarrow> plain (Pin_ServeHTTP k bp c s)
      | EpHealth \<Rightarrow> (case Health_ServeHTTP k bp s of (rp, s') \<Rightarrow> (rp, [], s')))"

text \<open>The body of the 301 (a link, for people) is left out; its \<open>Location\<close> is kept.\<close>

definition serve ::
  "sdk \<Rightarrow> ServerConfig \<Rightarrow> 's BackendProvider \<Rightarrow> time \<Rightarrow> server_request \<Rightarrow> 's \<Rightarrow>
   reply outcome \<times> log_record list \<times> 's" where
  "serve k cfg bp now r s =
     (case route (sr_method r) (sr_path r) of
        Serve ep \<Rightarrow> serve_endpoint k cfg bp now r ep s
      | Redirect p \<Rightarrow>
          (Returns \<lparr>rp_status = 301,
             rp_header = [(''Location'', p @ (if sr_rawquery r = [] then [] else CHR ''?'' # sr_rawquery r))],
             rp_body = []\<rparr>, [], s)
      | MethodNotAllowed ms \<Rightarrow>
          (Returns (text_reply 405 [(''Allow'', join '', '' ms)] ''Method Not Allowed''), [], s)
      | NotFound \<Rightarrow> (Returns (text_reply 404 [] ''404 page not found''), [], s))"

section \<open>The backend calls of a request\<close>

text \<open>Which backend calls the handler of a request may make.\<close>

definition may_call ::
  "sdk \<Rightarrow> ServerConfig \<Rightarrow> time \<Rightarrow> server_request \<Rightarrow> backend_call \<Rightarrow> bool" where
  "may_call k cfg now r a \<longleftrightarrow>
     (case route (sr_method r) (sr_path r) of
        Serve ep \<Rightarrow>
          (case ep of
             EpPush \<Rightarrow> \<exists>c d. a = CallPush c d \<and> push_admitted k (push_handler cfg) now r c d \<and>
                             \<not> kid_collides (push_handler cfg) r
           | EpFetch x \<Rightarrow> \<exists>c. sdk_ParseCID k x = Inr c \<and> a = CallFetch c
           | EpExists x \<Rightarrow> \<exists>c. sdk_ParseCID k x = Inr c \<and> a = CallExists c
           | EpDelete x \<Rightarrow> \<exists>c. sdk_ParseCID k x = Inr c \<and> a = CallDelete c
           | EpResolve x \<Rightarrow> \<exists>c. sdk_ParseCID k x = Inr c \<and>
               (a = CallExists c \<or>
                a = CallResolve c (requested_expiry (sc_DefaultExpiry cfg) (sr_rawquery r)))
           | EpPin x \<Rightarrow> \<exists>c. sdk_ParseCID k x = Inr c \<and> a = CallPin c
           | EpHealth \<Rightarrow> a = CallHealthy)
      | _ \<Rightarrow> False)"

lemma parse_path_ok: "parseCIDFromPath k x = Inr c \<Longrightarrow> sdk_ParseCID k x = Inr c"
  by (simp add: parseCIDFromPath_def split: if_splits)

lemma do_calls_one: "snd (do_calls bp [a] s) = snd (do_call bp a s)"
  by (simp split: prod.splits)

lemma do_calls_two: "snd (do_calls bp [a, b] s) = snd (do_call bp b (snd (do_call bp a s)))"
  by (simp split: prod.splits)

lemma fetch_call_state: "snd (do_call bp (CallFetch c) s) = snd (bp_Fetch bp c s)"
  by (simp add: do_call_def split: prod.splits sum.splits)

text \<open>Each handler either leaves the backend alone or makes its one call (resolve: two).\<close>

lemma Fetch_calls:
  "snd (Fetch_ServeHTTP k bp x s) = s \<or>
   (\<exists>c. sdk_ParseCID k x = Inr c \<and> snd (Fetch_ServeHTTP k bp x s) = snd (do_call bp (CallFetch c) s))"
  by (cases "parseCIDFromPath k x")
    (simp_all add: Fetch_ServeHTTP_def parse_path_ok fetch_call_state split: prod.splits sum.splits)

lemma Exists_calls:
  "snd (Exists_ServeHTTP k bp x s) = s \<or>
   (\<exists>c. sdk_ParseCID k x = Inr c \<and> snd (Exists_ServeHTTP k bp x s) = snd (do_call bp (CallExists c) s))"
  by (cases "parseCIDFromPath k x")
    (simp_all add: Exists_ServeHTTP_def parse_path_ok do_call_def split: prod.splits sum.splits)

lemma Pin_calls:
  "snd (Pin_ServeHTTP k bp x s) = s \<or>
   (\<exists>c. sdk_ParseCID k x = Inr c \<and> snd (Pin_ServeHTTP k bp x s) = snd (do_call bp (CallPin c) s))"
  by (cases "parseCIDFromPath k x")
    (simp_all add: Pin_ServeHTTP_def parse_path_ok do_call_def split: prod.splits option.splits)

lemma Delete_calls:
  "snd (Delete_ServeHTTP k bp x s) = s \<or>
   (\<exists>c. sdk_ParseCID k x = Inr c \<and> snd (Delete_ServeHTTP k bp x s) = snd (do_call bp (CallDelete c) s))"
  by (cases "parseCIDFromPath k x")
    (simp_all add: Delete_ServeHTTP_def parse_path_ok do_call_def split: prod.splits option.splits)

lemma Resolve_calls:
  "snd (Resolve_ServeHTTP k bp e q x s) = s \<or>
   (\<exists>c. sdk_ParseCID k x = Inr c \<and>
      (\<exists>as \<in> {[CallExists c], [CallExists c, CallResolve c (requested_expiry e q)]}.
         snd (Resolve_ServeHTTP k bp e q x s) = snd (do_calls bp as s)))"
proof (cases "parseCIDFromPath k x")
  case (Inl err)
  then show ?thesis by (simp add: Resolve_ServeHTTP_def)
next
  case (Inr c)
  obtain b s1 where ex: "bp_Exists bp c s = (b, s1)" by fastforce
  show ?thesis
  proof (cases "b = Inr True")
    case True
    have "snd (Resolve_ServeHTTP k bp e q x s) = snd (bp_Resolve bp c (requested_expiry e q) s1)"
      using Inr ex True by (simp add: Resolve_ServeHTTP_def split: prod.splits sum.splits)
    also have "\<dots> = snd (do_calls bp [CallExists c, CallResolve c (requested_expiry e q)] s)"
      unfolding do_calls_two using ex by (simp add: do_call_def)
    finally show ?thesis using parse_path_ok [OF Inr] by blast
  next
    case False
    have "snd (Resolve_ServeHTTP k bp e q x s) = snd (do_calls bp [CallExists c] s)"
      using Inr ex False unfolding do_calls_one
      by (auto simp: Resolve_ServeHTTP_def do_call_def split: sum.splits)
    then show ?thesis using parse_path_ok [OF Inr] by blast
  qed
qed

lemma Push_calls:
  "snd (snd (Push_ServeHTTP k h bp now r s)) = s \<or>
   (\<exists>c d. push_admitted k h now r c d \<and> \<not> kid_collides h r \<and>
      snd (snd (Push_ServeHTTP k h bp now r s)) = snd (do_call bp (CallPush c d) s))"
  using Push_state [of k h bp now r s] by (simp add: do_call_def)

text \<open>Serving one request is running at most two of its calls.\<close>

definition runs_as ::
  "sdk \<Rightarrow> ServerConfig \<Rightarrow> 's BackendProvider \<Rightarrow> time \<Rightarrow> server_request \<Rightarrow> 's \<Rightarrow> 's \<Rightarrow> bool" where
  "runs_as k cfg bp now r s s' \<longleftrightarrow>
     (\<exists>as. length as \<le> 2 \<and> list_all (may_call k cfg now r) as \<and> s' = snd (do_calls bp as s))"

lemma runs_as_none: "s' = s \<Longrightarrow> runs_as k cfg bp now r s s'"
  unfolding runs_as_def by (intro exI [of _ "[]"]) simp

lemma runs_as_one: "may_call k cfg now r a \<Longrightarrow> s' = snd (do_call bp a s) \<Longrightarrow> runs_as k cfg bp now r s s'"
  unfolding runs_as_def using do_calls_one [of bp a s] by (intro exI [of _ "[a]"]) simp

lemma runs_as_single:
  assumes "s' = s \<or> (\<exists>c. P c \<and> s' = snd (do_call bp (f c) s))"
    and "\<And>c. P c \<Longrightarrow> may_call k cfg now r (f c)"
  shows "runs_as k cfg bp now r s s'"
  using assms runs_as_none runs_as_one by metis

lemma runs_as_resolve:
  assumes "route (sr_method r) (sr_path r) = Serve (EpResolve x)"
  shows "runs_as k cfg bp now r s
           (snd (Resolve_ServeHTTP k bp (sc_DefaultExpiry cfg) (sr_rawquery r) x s))"
proof -
  let ?e = "requested_expiry (sc_DefaultExpiry cfg) (sr_rawquery r)"
  let ?s = "snd (Resolve_ServeHTTP k bp (sc_DefaultExpiry cfg) (sr_rawquery r) x s)"
  consider "?s = s" | c as where "sdk_ParseCID k x = Inr c"
      "as \<in> {[CallExists c], [CallExists c, CallResolve c ?e]}" "?s = snd (do_calls bp as s)"
    using Resolve_calls [of k bp "sc_DefaultExpiry cfg" "sr_rawquery r" x s] by blast
  then show ?thesis
  proof cases
    case 1
    then show ?thesis by (rule runs_as_none)
  next
    case (2 c as)
    then have "length as \<le> 2 \<and> list_all (may_call k cfg now r) as"
      using assms by (auto simp: may_call_def)
    with 2(3) show ?thesis unfolding runs_as_def by blast
  qed
qed

lemma serve_endpoint_runs:
  assumes "route (sr_method r) (sr_path r) = Serve ep"
  shows "runs_as k cfg bp now r s (snd (snd (serve_endpoint k cfg bp now r ep s)))"
proof (cases ep)
  case EpPush
  let ?h = "push_handler cfg"
  let ?s = "snd (snd (Push_ServeHTTP k ?h bp now r s))"
  have st: "snd (snd (serve_endpoint k cfg bp now r ep s)) = ?s"
    by (simp add: EpPush serve_endpoint_def split: prod.splits)
  have "?s = s \<or> (\<exists>x. (push_admitted k ?h now r (fst x) (snd x) \<and> \<not> kid_collides ?h r) \<and>
      ?s = snd (do_call bp (CallPush (fst x) (snd x)) s))"
    using Push_calls [of k ?h bp now r s] by auto
  then show ?thesis unfolding st
    by (rule runs_as_single) (simp add: may_call_def assms EpPush)
next
  case (EpFetch x)
  show ?thesis
    unfolding EpFetch serve_endpoint_def plain_def endpoint.case snd_conv
    by (rule runs_as_single [OF Fetch_calls]) (simp add: may_call_def assms EpFetch)
next
  case (EpExists x)
  show ?thesis
    unfolding EpExists serve_endpoint_def plain_def endpoint.case snd_conv
    by (rule runs_as_single [OF Exists_calls]) (simp add: may_call_def assms EpExists)
next
  case (EpDelete x)
  show ?thesis
    unfolding EpDelete serve_endpoint_def plain_def endpoint.case snd_conv
    by (rule runs_as_single [OF Delete_calls]) (simp add: may_call_def assms EpDelete)
next
  case (EpPin x)
  show ?thesis
    unfolding EpPin serve_endpoint_def plain_def endpoint.case snd_conv
    by (rule runs_as_single [OF Pin_calls]) (simp add: may_call_def assms EpPin)
next
  case (EpResolve x)
  then show ?thesis
    using runs_as_resolve [of r x k cfg bp now s] assms by (simp add: serve_endpoint_def plain_def)
next
  case EpHealth
  have "snd (snd (serve_endpoint k cfg bp now r ep s)) = snd (do_call bp CallHealthy s)"
    by (simp add: EpHealth serve_endpoint_def Health_ServeHTTP_def do_call_def
        split: prod.splits outcome.splits option.splits)
  with EpHealth show ?thesis
    by (intro runs_as_one [of k cfg now r CallHealthy]) (simp_all add: may_call_def assms)
qed

lemma serve_runs: "runs_as k cfg bp now r s (snd (snd (serve k cfg bp now r s)))"
  by (cases "route (sr_method r) (sr_path r)")
    (simp_all add: serve_def serve_endpoint_runs runs_as_none)

section \<open>Concurrent service\<close>

text \<open>
  Requests overlap: between the two calls of a resolve, other requests may run. A trace is
  any sequence of backend calls, each one a call that the handler of some request makes.
\<close>

type_synonym event = "time \<times> server_request \<times> backend_call"

inductive trace :: "sdk \<Rightarrow> ServerConfig \<Rightarrow> 's BackendProvider \<Rightarrow> 's \<Rightarrow> event list \<Rightarrow> 's \<Rightarrow> bool"
  for k cfg bp s0 where
  trace_start: "trace k cfg bp s0 [] s0"
| trace_call: "trace k cfg bp s0 tr s \<Longrightarrow> may_call k cfg now r a \<Longrightarrow>
    trace k cfg bp s0 ((now, r, a) # tr) (snd (do_call bp a s))"

inductive_cases trace_emptyE: "trace k cfg bp s0 [] s"
inductive_cases trace_consE: "trace k cfg bp s0 (e # tr) s"

text \<open>Serving requests one after the other is a trace.\<close>

lemma trace_calls:
  "trace k cfg bp s0 tr s \<Longrightarrow> list_all (may_call k cfg now r) as \<Longrightarrow>
     \<exists>tr'. trace k cfg bp s0 tr' (snd (do_calls bp as s))"
proof (induction as arbitrary: tr s)
  case Nil
  then show ?case by auto
next
  case (Cons a as)
  then have "trace k cfg bp s0 ((now, r, a) # tr) (snd (do_call bp a s))"
    by (auto intro: trace_call)
  from Cons.IH [OF this] Cons.prems(2)
  have "\<exists>tr'. trace k cfg bp s0 tr' (snd (do_calls bp as (snd (do_call bp a s))))" by simp
  moreover have "snd (do_calls bp (a # as) s) = snd (do_calls bp as (snd (do_call bp a s)))"
    by (simp split: prod.splits)
  ultimately show ?case by simp
qed

lemma trace_serve:
  assumes "trace k cfg bp s0 tr s"
  shows "\<exists>tr'. trace k cfg bp s0 tr' (snd (snd (serve k cfg bp now r s)))"
  using trace_calls [OF assms] serve_runs [of k cfg bp now r s] unfolding runs_as_def by metis

fun serve_all ::
  "sdk \<Rightarrow> ServerConfig \<Rightarrow> 's BackendProvider \<Rightarrow> (time \<times> server_request) list \<Rightarrow> 's \<Rightarrow>
   (reply outcome \<times> log_record list) list \<times> 's" where
  "serve_all k cfg bp [] s = ([], s)"
| "serve_all k cfg bp ((now, r) # rs) s =
     (case serve k cfg bp now r s of
        (rp, lg, s1) \<Rightarrow> (case serve_all k cfg bp rs s1 of (os, s2) \<Rightarrow> ((rp, lg) # os, s2)))"

lemma may_call_cid:
  assumes "cid_codec k ok" "may_call k cfg now r a"
  shows "calls_ok ok [a]"
  using assms
  by (auto simp: may_call_def calls_ok_def push_admitted_def cid_codec_def split: routed.splits endpoint.splits)

context object_store
begin

lemma trace_inv:
  assumes "trace k cfg bp s0 tr s" "cid_codec k okcid" "inv s0"
  shows "inv s"
  using assms(1)
proof (induction rule: trace.induct)
  case trace_start
  then show ?case by (rule assms(3))
next
  case (trace_call tr s now r a)
  obtain x s' where "do_call bp a s = (x, s')" by fastforce
  with do_call_law(1) [OF trace_call.IH may_call_cid [OF assms(2) trace_call.hyps(2)]]
  show ?case by simp
qed

text \<open>Whatever can be served was there at the start or was put there by an admitted push.\<close>

lemma trace_provenance:
  assumes "trace k cfg bp s0 tr s" "cid_codec k okcid" "inv s0" "okcid c" "d \<in> holds s c"
  shows "d \<in> holds s0 c \<or>
    (\<exists>now r. (now, r, CallPush c d) \<in> set tr \<and> push_admitted k (push_handler cfg) now r c d)"
  using assms(1,5)
proof (induction rule: trace.induct)
  case trace_start
  then show ?case by simp
next
  case (trace_call tr s now r a)
  obtain x s' where dc: "do_call bp a s = (x, s')" by fastforce
  have "inv s" using trace_inv [OF trace_call.hyps(1) assms(2,3)] .
  from do_call_law(1) [OF this may_call_cid [OF assms(2) trace_call.hyps(2)] dc]
  have "d \<in> holds s c \<or> a = CallPush c d"
    using trace_call.prems dc assms(4) by simp
  then show ?case
  proof
    assume "d \<in> holds s c"
    from trace_call.IH [OF this] show ?thesis by auto
  next
    assume a: "a = CallPush c d"
    with trace_call.hyps(2) have "push_admitted k (push_handler cfg) now r c d"
      by (auto simp: may_call_def split: routed.splits endpoint.splits)
    with a show ?thesis by auto
  qed
qed

lemma trace_intact:
  assumes "trace k cfg bp s0 tr s" "cid_codec k okcid" "inv s0" "sc_VerifyOnPush cfg"
    "intact k okcid (holds s0)"
  shows "intact k okcid (holds s)"
  unfolding intact_def
proof (intro allI impI)
  fix c d assume "okcid c" "d \<in> holds s c"
  from trace_provenance [OF assms(1-3) this] \<open>okcid c\<close> assms(4,5) show "sdk_Verify k c d"
    by (auto simp: intact_def push_admitted_def push_handler_def)
qed

end

section \<open>Every CID has its routes\<close>

lemma path_escape_no_slash: "CHR ''/'' \<notin> set (path_escape s)"
proof
  assume "CHR ''/'' \<in> set (path_escape s)"
  from path_escape_set [OF this] show False
    by (auto simp: keep_path_segment_def unreserved_def is_alpha_def is_digit_def)
qed

lemma path_escape_eq_plain:
  assumes "path_escape s = t" "CHR ''%'' \<notin> set t"
  shows "s = t"
  using unescape_path_escape [of s] unescape_plain [OF assms(2)] assms(1) by simp

definition segment_cid :: "string \<Rightarrow> bool" where
  "segment_cid cs \<longleftrightarrow> cs \<noteq> [] \<and> cs \<noteq> ''.'' \<and> cs \<noteq> ''..''"

lemma segment_cid_escape:
  assumes "segment_cid cs"
  shows "path_escape cs \<noteq> [] \<and> path_escape cs \<noteq> ''.'' \<and> path_escape cs \<noteq> ''..''"
proof -
  have "path_escape cs = t \<Longrightarrow> CHR ''%'' \<notin> set t \<Longrightarrow> cs = t" for t
    by (rule path_escape_eq_plain)
  from this [of "[]"] this [of "''.''"] this [of "''..''"] assms show ?thesis
    by (auto simp: segment_cid_def)
qed

lemma last_no_slash: "s \<noteq> [] \<Longrightarrow> CHR ''/'' \<notin> set s \<Longrightarrow> last s \<noteq> CHR ''/''"
  using last_in_set by metis

text \<open>The paths \<open>/v1/artifacts/{cid}\<close> and \<open>/v1/artifacts/{cid}/x\<close> with the CID escaped.\<close>

definition artifact_path :: "string \<Rightarrow> string list \<Rightarrow> string" where
  "artifact_path cs rest = ''/v1/artifacts/'' @ join ''/'' (path_escape cs # rest)"

lemma artifact_path_canonical:
  assumes "segment_cid cs" "rest \<in> {[], [''resolve''], [''pin'']}"
  shows "clean_path (artifact_path cs rest) = artifact_path cs rest"
    and "path_segments (artifact_path cs rest) = [''v1'', ''artifacts'', cs] @ rest"
proof -
  let ?e = "path_escape cs"
  note ne = segment_cid_escape [OF assms(1)] and ns = path_escape_no_slash [of cs]
  have sp: "split_byte CHR ''/'' (join ''/'' (?e # rest)) = ?e # rest"
    using assms(2) split_byte_no_sep [OF ns] split_byte_append [OF ns] by (auto split: list.splits)
  have lits: "''resolve'' \<noteq> []" "''pin'' \<noteq> []" by simp_all
  have last: "last (artifact_path cs rest) \<noteq> CHR ''/''"
    using assms(2) ne last_no_slash [OF _ ns] by (auto simp: artifact_path_def)
  have seg: "split_byte CHR ''/'' (artifact_path cs rest) = [[], ''v1'', ''artifacts''] @ ?e # rest"
    using sp by (simp add: artifact_path_def)
  have cs: "clean_segments [] ([[], ''v1'', ''artifacts''] @ ?e # rest) = [''v1'', ''artifacts''] @ ?e # rest"
    using ne assms(2) by auto
  show "clean_path (artifact_path cs rest) = artifact_path cs rest"
    using last assms(2) seg cs
    by (auto simp: clean_path_def artifact_path_def Let_def)
  have "split_byte CHR ''/'' (tl (artifact_path cs rest)) = [''v1'', ''artifacts''] @ ?e # rest"
    using sp by (simp add: artifact_path_def)
  moreover have "path_unescape ?e = cs" by (simp add: path_unescape_def unescape_path_escape)
  moreover have "path_unescape ''v1'' = ''v1''" "path_unescape ''artifacts'' = ''artifacts''"
    "path_unescape ''resolve'' = ''resolve''" "path_unescape ''pin'' = ''pin''"
    by (simp_all add: path_unescape_def)
  ultimately show "path_segments (artifact_path cs rest) = [''v1'', ''artifacts'', cs] @ rest"
    using assms(2) by (auto simp: path_segments_def)
qed

lemma mux_match_artifact:
  assumes "segment_cid cs"
  shows "mux_match ''GET'' (artifact_path cs []) = Serve (EpFetch cs)"
    and "mux_match ''HEAD'' (artifact_path cs []) = Serve (EpExists cs)"
    and "mux_match ''DELETE'' (artifact_path cs []) = Serve (EpDelete cs)"
    and "mux_match ''GET'' (artifact_path cs [''resolve'']) = Serve (EpResolve cs)"
    and "mux_match ''POST'' (artifact_path cs [''pin'']) = Serve (EpPin cs)"
proof -
  have ne: "cs \<noteq> []" using assms by (simp add: segment_cid_def)
  have ps: "path_segments (artifact_path cs []) = [''v1'', ''artifacts'', cs]"
    "path_segments (artifact_path cs [''resolve'']) = [''v1'', ''artifacts'', cs, ''resolve'']"
    "path_segments (artifact_path cs [''pin'']) = [''v1'', ''artifacts'', cs, ''pin'']"
    using artifact_path_canonical(2) [OF assms] by simp_all
  note ev = mux_match_def match_method_def route_table_def List.map_filter_def ps Let_def
  show "mux_match ''GET'' (artifact_path cs []) = Serve (EpFetch cs)"
    "mux_match ''HEAD'' (artifact_path cs []) = Serve (EpExists cs)"
    "mux_match ''DELETE'' (artifact_path cs []) = Serve (EpDelete cs)"
    "mux_match ''GET'' (artifact_path cs [''resolve'']) = Serve (EpResolve cs)"
    "mux_match ''POST'' (artifact_path cs [''pin'']) = Serve (EpPin cs)"
    using ne by (simp_all add: ev)
qed

lemma route_artifact:
  assumes "segment_cid cs"
  shows "route ''GET'' (artifact_path cs []) = Serve (EpFetch cs)"
    and "route ''HEAD'' (artifact_path cs []) = Serve (EpExists cs)"
    and "route ''DELETE'' (artifact_path cs []) = Serve (EpDelete cs)"
    and "route ''GET'' (artifact_path cs [''resolve'']) = Serve (EpResolve cs)"
    and "route ''POST'' (artifact_path cs [''pin'']) = Serve (EpPin cs)"
  using mux_match_artifact [OF assms] artifact_path_canonical(1) [OF assms]
  by (simp_all add: route_def)

lemma route_fixed:
  "route ''POST'' ''/v1/artifacts'' = Serve EpPush" "route ''GET'' ''/healthz'' = Serve EpHealth"
  by code_simp+

section \<open>Requests over a reliable store\<close>

definition artifact_request :: "string \<Rightarrow> string \<Rightarrow> string list \<Rightarrow> string \<Rightarrow> server_request" where
  "artifact_request meth cs rest q =
     \<lparr>sr_method = meth, sr_path = artifact_path cs rest, sr_rawquery = q, sr_header = [],
      sr_body = stream_of [], sr_remote = []\<rparr>"

definition push_request :: "string \<Rightarrow> string \<Rightarrow> bytes \<Rightarrow> server_request" where
  "push_request cs token d =
     \<lparr>sr_method = ''POST'', sr_path = ''/v1/artifacts'', sr_rawquery = [],
      sr_header = [(''X-Artifact-Cid'', cs), (''X-Upload-Token'', token)],
      sr_body = stream_of d, sr_remote = []\<rparr>"

lemma push_request_sel [simp]:
  "claimed_cid (push_request cs tk d) = cs" "upload_token (push_request cs tk d) = tk"
  "sr_body (push_request cs tk d) = stream_of d" "sr_method (push_request cs tk d) = ''POST''"
  "sr_path (push_request cs tk d) = ''/v1/artifacts''"
  by (simp_all add: push_request_def header_get_def)

definition ok_fetch :: "bytes \<Rightarrow> reply" where
  "ok_fetch d =
     \<lparr>rp_status = 200,
      rp_header = [(''Content-Type'', ''application/octet-stream''),
                   (''Cache-Control'', ''public, immutable''),
                   (''Content-Length'', itoa (int (length d)))],
      rp_body = d\<rparr>"

definition ok_push :: "sdk \<Rightarrow> cid \<Rightarrow> bytes \<Rightarrow> reply" where
  "ok_push k c d =
     json_reply 200 (JObj [(''cid'', JStr (sdk_String k c)), (''size'', JNum (itoa (int (length d))))])"

lemma serve_push_eq:
  "serve k cfg bp now (push_request cs tk d) s =
     (case Push_ServeHTTP k (push_handler cfg) bp now (push_request cs tk d) s of
        (rp, lg, s') \<Rightarrow> (Returns rp, lg, s'))"
  by (simp add: serve_def route_fixed serve_endpoint_def)

context reliable_store
begin

lemma serve_fetch:
  assumes "inv s" "cid_codec k okcid" "okcid c" "segment_cid (sdk_String k c)"
    "serve k cfg bp now (artifact_request ''GET'' (sdk_String k c) [] q) s = (rp, lg, s')"
  shows "rp = Returns (case contents s c of None \<Rightarrow> writeError 404 ''not found'' | Some d \<Rightarrow> ok_fetch d)"
    and "lg = [] \<and> inv s' \<and> agree okcid (contents s') (contents s)"
proof -
  have pc: "parseCIDFromPath k (sdk_String k c) = Inr c"
    using assms(2-4) by (simp add: parseCIDFromPath_def cid_codec_def segment_cid_def)
  obtain x s1 where f: "bp_Fetch bp c s = (x, s1)" by fastforce
  have sv: "serve k cfg bp now (artifact_request ''GET'' (sdk_String k c) [] q) s =
      plain (Fetch_ServeHTTP k bp (sdk_String k c) s)"
    using route_artifact(1) [OF assms(4)] by (simp add: serve_def artifact_request_def serve_endpoint_def)
  note ok = fetch_ok [OF assms(1,3) f]
  show "rp = Returns (case contents s c of None \<Rightarrow> writeError 404 ''not found'' | Some d \<Rightarrow> ok_fetch d)"
    using assms(5) sv pc f ok
    by (auto simp: Fetch_ServeHTTP_def plain_def ok_fetch_def split: option.splits)
  show "lg = [] \<and> inv s' \<and> agree okcid (contents s') (contents s)"
    using assms(5) sv pc f ok
    by (auto simp: Fetch_ServeHTTP_def plain_def split: option.splits)
qed

lemma serve_head:
  assumes "inv s" "cid_codec k okcid" "okcid c" "segment_cid (sdk_String k c)"
    "serve k cfg bp now (artifact_request ''HEAD'' (sdk_String k c) [] q) s = (rp, lg, s')"
  shows "rp = Returns (status_only (if contents s c = None then 404 else 200))"
    and "lg = [] \<and> inv s' \<and> agree okcid (contents s') (contents s)"
proof -
  have pc: "parseCIDFromPath k (sdk_String k c) = Inr c"
    using assms(2-4) by (simp add: parseCIDFromPath_def cid_codec_def segment_cid_def)
  obtain x s1 where f: "bp_Exists bp c s = (x, s1)" by fastforce
  have sv: "serve k cfg bp now (artifact_request ''HEAD'' (sdk_String k c) [] q) s =
      plain (Exists_ServeHTTP k bp (sdk_String k c) s)"
    using route_artifact(2) [OF assms(4)] by (simp add: serve_def artifact_request_def serve_endpoint_def)
  note ok = exists_ok [OF assms(1,3) f]
  show "rp = Returns (status_only (if contents s c = None then 404 else 200))"
    using assms(5) sv pc f ok by (auto simp: Exists_ServeHTTP_def plain_def)
  show "lg = [] \<and> inv s' \<and> agree okcid (contents s') (contents s)"
    using assms(5) sv pc f ok by (auto simp: Exists_ServeHTTP_def plain_def)
qed

lemma serve_push:
  assumes "inv s" "cid_codec k okcid"
    "push_admitted k (push_handler cfg) now (push_request cs tk d) c d"
    "\<not> kid_collides (push_handler cfg) (push_request cs tk d)"
    "serve k cfg bp now (push_request cs tk d) s = (rp, lg, s')"
  shows "rp = Returns (ok_push k c d) \<and> lg = [] \<and> inv s' \<and>
         agree okcid (contents s') ((contents s)(c := Some d))"
proof -
  obtain rp1 lg1 s1 where p:
    "Push_ServeHTTP k (push_handler cfg) bp now (push_request cs tk d) s = (rp1, lg1, s1)"
    by (metis prod_cases3)
  from push_handler_stores [OF assms(1-4) p] assms(5) p show ?thesis
    by (simp add: serve_push_eq ok_push_def)
qed

lemma serve_delete:
  assumes "inv s" "cid_codec k okcid" "okcid c" "segment_cid (sdk_String k c)"
    "serve k cfg bp now (artifact_request ''DELETE'' (sdk_String k c) [] q) s = (rp, lg, s')"
  shows "inv s' \<and> agree okcid (contents s') ((contents s)(c := None))"
    and "contents s c \<noteq> None \<Longrightarrow> rp = Returns (status_only 200)"
proof -
  have pc: "parseCIDFromPath k (sdk_String k c) = Inr c"
    using assms(2-4) by (simp add: parseCIDFromPath_def cid_codec_def segment_cid_def)
  obtain x s1 where f: "bp_Delete bp c s = (x, s1)" by fastforce
  have sv: "serve k cfg bp now (artifact_request ''DELETE'' (sdk_String k c) [] q) s =
      plain (Delete_ServeHTTP k bp (sdk_String k c) s)"
    using route_artifact(3) [OF assms(4)] by (simp add: serve_def artifact_request_def serve_endpoint_def)
  note ok = delete_ok [OF assms(1,3) f]
  show "inv s' \<and> agree okcid (contents s') ((contents s)(c := None))"
    using assms(5) sv pc f ok by (auto simp: Delete_ServeHTTP_def plain_def split: option.splits)
  show "contents s c \<noteq> None \<Longrightarrow> rp = Returns (status_only 200)"
    using assms(5) sv pc f ok by (auto simp: Delete_ServeHTTP_def plain_def split: option.splits)
qed

text \<open>An artifact that was pushed is served back; once deleted it is gone.\<close>

lemma push_then_get:
  assumes "inv s" "cid_codec k okcid"
    "push_admitted k (push_handler cfg) now (push_request cs tk d) c d"
    "\<not> kid_collides (push_handler cfg) (push_request cs tk d)" "segment_cid (sdk_String k c)"
    "serve k cfg bp now (push_request cs tk d) s = (rp1, lg1, s1)"
    "serve k cfg bp now' (artifact_request ''GET'' (sdk_String k c) [] q) s1 = (rp2, lg2, s2)"
  shows "rp1 = Returns (ok_push k c d) \<and> rp2 = Returns (ok_fetch d)"
proof -
  have ok: "okcid c" using assms(2,3) by (auto simp: push_admitted_def cid_codec_def)
  note p = serve_push [OF assms(1-4,6)]
  have "contents s1 c = Some d" using p ok by (simp add: agree_def)
  with serve_fetch(1) [OF _ assms(2) ok assms(5,7)] p show ?thesis by simp
qed

lemma delete_then_get:
  assumes "inv s" "cid_codec k okcid" "okcid c" "segment_cid (sdk_String k c)"
    "serve k cfg bp now (artifact_request ''DELETE'' (sdk_String k c) [] q1) s = (rp1, lg1, s1)"
    "serve k cfg bp now' (artifact_request ''GET'' (sdk_String k c) [] q2) s1 = (rp2, lg2, s2)"
  shows "rp2 = Returns (writeError 404 ''not found'')"
proof -
  note p = serve_delete [OF assms(1-5)]
  have "contents s1 c = None" using p assms(3) by (simp add: agree_def)
  with serve_fetch(1) [OF _ assms(2-4,6)] p show ?thesis by simp
qed

end

end
