(* ===== verification/Backend_Mirrored.thy ===== *)
theory Backend_Mirrored
  imports Api_Server
begin

text \<open>
  \<open>backends/mirrored.go\<close>: the synchronous double-write decorator over two backends, each
  with a state of its own. A failure of the mirror is logged and swallowed; reads fall back
  to the mirror. \<open>Close\<close> is a no-op and has no counterpart here.
\<close>

record ('p, 'm) mirrored =
  mi_primary :: 'p
  mi_mirror :: 'm
  mi_log :: "log_record list"

definition MirrorModeSync :: string where
  "MirrorModeSync = ''sync''"

text \<open>\<open>NewMirroredStore\<close>: an unknown mode is logged and treated as sync.\<close>

definition NewMirroredStore :: "string \<Rightarrow> 'p \<Rightarrow> 'm \<Rightarrow> ('p, 'm) mirrored" where
  "NewMirroredStore mode p m =
     \<lparr>mi_primary = p, mi_mirror = m,
      mi_log = (if mode \<noteq> [] \<and> mode \<noteq> MirrorModeSync
                then [warn ''mirror: unknown mode, defaulting to sync'' [(''mode'', AStr mode)]]
                else [])\<rparr>"

definition mirrored_log :: "log_record \<Rightarrow> ('p, 'm) mirrored \<Rightarrow> ('p, 'm) mirrored" where
  "mirrored_log r s = s\<lparr>mi_log := mi_log s @ [r]\<rparr>"

definition Mirrored_Push ::
  "sdk \<Rightarrow> 'p BackendProvider \<Rightarrow> 'm BackendProvider \<Rightarrow> cid \<Rightarrow> bytes \<Rightarrow> ('p, 'm) mirrored \<Rightarrow>
   goerr option \<times> ('p, 'm) mirrored" where
  "Mirrored_Push k p m c d s =
     (case bp_Push p c d (mi_primary s) of
        (Some e, p1) \<Rightarrow> (Some e, s\<lparr>mi_primary := p1\<rparr>)
      | (None, p1) \<Rightarrow>
          (case bp_Push m c d (mi_mirror s) of
             (Some e, m1) \<Rightarrow>
               (None, mirrored_log (warn ''mirror push failed (non-fatal)''
                          [(''cid'', AStr (sdk_String k c)), (''error'', AErr e)])
                        (s\<lparr>mi_primary := p1, mi_mirror := m1\<rparr>))
           | (None, m1) \<Rightarrow> (None, s\<lparr>mi_primary := p1, mi_mirror := m1\<rparr>)))"

definition Mirrored_Fetch ::
  "sdk \<Rightarrow> 'p BackendProvider \<Rightarrow> 'm BackendProvider \<Rightarrow> cid \<Rightarrow> ('p, 'm) mirrored \<Rightarrow>
   (goerr + bytes) \<times> ('p, 'm) mirrored" where
  "Mirrored_Fetch k p m c s =
     (case bp_Fetch p c (mi_primary s) of
        (Inr d, p1) \<Rightarrow> (Inr d, s\<lparr>mi_primary := p1\<rparr>)
      | (Inl e, p1) \<Rightarrow>
          (case bp_Fetch m c (mi_mirror s) of
             (r, m1) \<Rightarrow>
               (r, mirrored_log (info ''primary fetch failed, trying mirror''
                      [(''cid'', AStr (sdk_String k c)), (''primary_error'', AErr e)])
                    (s\<lparr>mi_primary := p1, mi_mirror := m1\<rparr>))))"

definition Mirrored_Exists ::
  "'p BackendProvider \<Rightarrow> 'm BackendProvider \<Rightarrow> cid \<Rightarrow> ('p, 'm) mirrored \<Rightarrow>
   (goerr + bool) \<times> ('p, 'm) mirrored" where
  "Mirrored_Exists p m c s =
     (case bp_Exists p c (mi_primary s) of
        (r, p1) \<Rightarrow>
          (if r = Inr True then (Inr True, s\<lparr>mi_primary := p1\<rparr>)
           else case bp_Exists m c (mi_mirror s) of
                  (r', m1) \<Rightarrow> (r', s\<lparr>mi_primary := p1, mi_mirror := m1\<rparr>)))"

definition Mirrored_Pin ::
  "sdk \<Rightarrow> 'p BackendProvider \<Rightarrow> 'm BackendProvider \<Rightarrow> cid \<Rightarrow> ('p, 'm) mirrored \<Rightarrow>
   goerr option \<times> ('p, 'm) mirrored" where
  "Mirrored_Pin k p m c s =
     (case bp_Pin p c (mi_primary s) of
        (r, p1) \<Rightarrow>
          (case bp_Pin m c (mi_mirror s) of
             (None, m1) \<Rightarrow> (r, s\<lparr>mi_primary := p1, mi_mirror := m1\<rparr>)
           | (Some e, m1) \<Rightarrow>
               (r, mirrored_log (warn ''mirror pin failed (non-fatal)''
                      [(''cid'', AStr (sdk_String k c)), (''error'', AErr e)])
                    (s\<lparr>mi_primary := p1, mi_mirror := m1\<rparr>))))"

definition Mirrored_Delete ::
  "sdk \<Rightarrow> 'p BackendProvider \<Rightarrow> 'm BackendProvider \<Rightarrow> cid \<Rightarrow> ('p, 'm) mirrored \<Rightarrow>
   goerr option \<times> ('p, 'm) mirrored" where
  "Mirrored_Delete k p m c s =
     (case bp_Delete p c (mi_primary s) of
        (r, p1) \<Rightarrow>
          (case bp_Delete m c (mi_mirror s) of
             (None, m1) \<Rightarrow> (r, s\<lparr>mi_primary := p1, mi_mirror := m1\<rparr>)
           | (Some e, m1) \<Rightarrow>
               (r, mirrored_log (warn ''mirror delete failed (non-fatal)''
                      [(''cid'', AStr (sdk_String k c)), (''error'', AErr e)])
                    (s\<lparr>mi_primary := p1, mi_mirror := m1\<rparr>))))"

definition Mirrored_Resolve ::
  "'p BackendProvider \<Rightarrow> cid \<Rightarrow> duration \<Rightarrow> ('p, 'm) mirrored \<Rightarrow>
   (goerr + RetrievalCredential) \<times> ('p, 'm) mirrored" where
  "Mirrored_Resolve p c e s =
     (case bp_Resolve p c e (mi_primary s) of (r, p1) \<Rightarrow> (r, s\<lparr>mi_primary := p1\<rparr>))"

definition Mirrored_Healthy ::
  "'p BackendProvider \<Rightarrow> 'm BackendProvider \<Rightarrow> ('p, 'm) mirrored \<Rightarrow>
   goerr option outcome \<times> ('p, 'm) mirrored" where
  "Mirrored_Healthy p m s =
     (case bp_Healthy p (mi_primary s) of
        (Panics x, p1) \<Rightarrow> (Panics x, s\<lparr>mi_primary := p1\<rparr>)
      | (Returns (Some e), p1) \<Rightarrow> (Returns (Some e), s\<lparr>mi_primary := p1\<rparr>)
      | (Returns None, p1) \<Rightarrow>
          (case bp_Healthy m (mi_mirror s) of
             (h, m1) \<Rightarrow> (h, s\<lparr>mi_primary := p1, mi_mirror := m1\<rparr>)))"

definition MirroredStore ::
  "sdk \<Rightarrow> 'p BackendProvider \<Rightarrow> 'm BackendProvider \<Rightarrow> ('p, 'm) mirrored BackendProvider" where
  "MirroredStore k p m =
     \<lparr>bp_Push = Mirrored_Push k p m, bp_Fetch = Mirrored_Fetch k p m, bp_Pin = Mirrored_Pin k p m,
      bp_Exists = Mirrored_Exists p m, bp_Delete = Mirrored_Delete k p m,
      bp_Resolve = Mirrored_Resolve p, bp_Healthy = Mirrored_Healthy p m\<rparr>"

lemma MirroredStore_sel [simp]:
  "bp_Push (MirroredStore k p m) = Mirrored_Push k p m"
  "bp_Fetch (MirroredStore k p m) = Mirrored_Fetch k p m"
  "bp_Pin (MirroredStore k p m) = Mirrored_Pin k p m"
  "bp_Exists (MirroredStore k p m) = Mirrored_Exists p m"
  "bp_Delete (MirroredStore k p m) = Mirrored_Delete k p m"
  "bp_Resolve (MirroredStore k p m) = Mirrored_Resolve p"
  "bp_Healthy (MirroredStore k p m) = Mirrored_Healthy p m"
  by (simp_all add: MirroredStore_def)

lemma mirrored_log_sel [simp]:
  "mi_primary (mirrored_log r s) = mi_primary s" "mi_mirror (mirrored_log r s) = mi_mirror s"
  "mi_log (mirrored_log r s) = mi_log s @ [r]"
  by (simp_all add: mirrored_log_def)

section \<open>Two stores make a store\<close>

text \<open>
  Over two backends that meet the contract, whatever their failures, the decorator meets it
  too; what it may serve is what either side may serve.
\<close>

locale mirrored_pair =
  p: object_store pbp pinv pholds okcid + m: object_store mbp minv mholds okcid
  for pbp :: "'p BackendProvider" and pinv pholds
    and mbp :: "'m BackendProvider" and minv mholds and okcid

sublocale mirrored_pair \<subseteq> st: object_store "MirroredStore k pbp mbp"
  "\<lambda>s. pinv (mi_primary s) \<and> minv (mi_mirror s)"
  "\<lambda>s c. pholds (mi_primary s) c \<union> mholds (mi_mirror s) c" okcid for k
proof (unfold_locales, goal_cases)
  case (1 s c d r s')
  let ?h = "\<lambda>s c. pholds (mi_primary s) c \<union> mholds (mi_mirror s) c"
  obtain rp p1 where P: "bp_Push pbp c d (mi_primary s) = (rp, p1)" by fastforce
  obtain rm m1 where M: "bp_Push mbp c d (mi_mirror s) = (rm, m1)" by fastforce
  have pl: "pinv p1" "\<And>c' x. okcid c' \<Longrightarrow> x \<in> pholds p1 c' \<Longrightarrow>
      x \<in> pholds (mi_primary s) c' \<or> c' = c \<and> x = d"
    using p.push_law [OF _ _ P] 1 by (simp_all add: below_insert_iff)
  have ml: "minv m1" "\<And>c' x. okcid c' \<Longrightarrow> x \<in> mholds m1 c' \<Longrightarrow>
      x \<in> mholds (mi_mirror s) c' \<or> c' = c \<and> x = d"
    using m.push_law [OF _ _ M] 1 by (simp_all add: below_insert_iff)
  have st: "mi_primary s' = p1" "mi_mirror s' = m1 \<or> mi_mirror s' = mi_mirror s"
    using 1 P M by (auto simp: Mirrored_Push_def split: option.splits)
  have "pinv (mi_primary s') \<and> minv (mi_mirror s')"
    using st pl(1) ml(1) 1 by auto
  moreover have "\<And>c' x. okcid c' \<Longrightarrow> x \<in> ?h s' c' \<Longrightarrow> x \<in> ?h s c' \<or> c' = c \<and> x = d"
    using st pl(2) ml(2) by auto
  ultimately show ?case
    using below_insert_iff [of okcid "?h s'" "?h s" c d] by blast
next
  case (2 s c q s')
  then show ?case
    using p.fetch_law [of "mi_primary s" c] m.fetch_law [of "mi_mirror s" c]
    by (auto simp: Mirrored_Fetch_def intro!: below_Un split: prod.splits sum.splits)
next
  case (3 s c b s')
  then show ?case
    using p.exists_law [of "mi_primary s" c] m.exists_law [of "mi_mirror s" c]
    by (auto simp: Mirrored_Exists_def intro!: below_Un split: prod.splits if_splits)
next
  case (4 s c r s')
  then show ?case
    using p.pin_law [of "mi_primary s" c] m.pin_law [of "mi_mirror s" c]
    by (auto simp: Mirrored_Pin_def intro!: below_Un split: prod.splits option.splits)
next
  case (5 s c r s')
  then show ?case
    using p.delete_law [of "mi_primary s" c] m.delete_law [of "mi_mirror s" c]
    by (auto simp: Mirrored_Delete_def intro!: below_Un split: prod.splits option.splits)
next
  case (6 s c e v s')
  then show ?case
    using p.resolve_law [of "mi_primary s" c e]
    by (auto simp: Mirrored_Resolve_def intro!: below_Un split: prod.splits)
next
  case (7 s h s')
  then show ?case
    using p.healthy_law [of "mi_primary s"] m.healthy_law [of "mi_mirror s"]
    by (auto simp: Mirrored_Healthy_def intro!: below_Un split: prod.splits outcome.splits option.splits)
qed

section \<open>Two reliable stores in step\<close>

locale mirrored_reliable =
  p: reliable_store pbp pinv pcontents okcid + m: reliable_store mbp minv mcontents okcid
  for pbp :: "'p BackendProvider" and pinv pcontents
    and mbp :: "'m BackendProvider" and minv mcontents and okcid

sublocale mirrored_reliable \<subseteq> st: reliable_store "MirroredStore k pbp mbp"
  "\<lambda>s. pinv (mi_primary s) \<and> minv (mi_mirror s) \<and>
       agree okcid (pcontents (mi_primary s)) (mcontents (mi_mirror s))"
  "\<lambda>s. pcontents (mi_primary s)" okcid for k
proof (unfold_locales, goal_cases)
  case (1 s c d r s')
  then show ?case
    using p.push_ok [of "mi_primary s" c d] m.push_ok [of "mi_mirror s" c d]
    by (auto simp: Mirrored_Push_def agree_def split: prod.splits option.splits)
next
  case (2 s c q s')
  then show ?case
    using p.fetch_ok [of "mi_primary s" c] m.fetch_ok [of "mi_mirror s" c]
    by (auto simp: Mirrored_Fetch_def agree_def split: prod.splits sum.splits option.splits)
next
  case (3 s c b s')
  then show ?case
    using p.exists_ok [of "mi_primary s" c] m.exists_ok [of "mi_mirror s" c]
    by (auto simp: Mirrored_Exists_def agree_def split: prod.splits if_splits)
next
  case (4 s c r s')
  then show ?case
    using p.pin_ok [of "mi_primary s" c] m.pin_ok [of "mi_mirror s" c]
    by (auto simp: Mirrored_Pin_def agree_def split: prod.splits option.splits)
next
  case (5 s c r s')
  then show ?case
    using p.delete_ok [of "mi_primary s" c] m.delete_ok [of "mi_mirror s" c]
    by (auto simp: Mirrored_Delete_def agree_def split: prod.splits option.splits)
next
  case (6 s c e v s')
  then show ?case
    using p.resolve_ok [of "mi_primary s" c e]
    by (auto simp: Mirrored_Resolve_def agree_def split: prod.splits)
next
  case (7 s h s')
  then show ?case
    using p.healthy_ok [of "mi_primary s"] m.healthy_ok [of "mi_mirror s"]
    by (auto simp: Mirrored_Healthy_def agree_def split: prod.splits outcome.splits option.splits)
qed

section \<open>One side down\<close>

text \<open>
  With the primary up, a push succeeds and is read back whatever the mirror does; with the
  mirror up, a read that the primary fails is served by the mirror.
\<close>

locale mirrored_primary_up =
  p: reliable_store pbp pinv pcontents okcid
  for pbp :: "'p BackendProvider" and pinv pcontents okcid
begin

lemma push_then_fetch:
  assumes "pinv (mi_primary s)" "okcid c" "Mirrored_Push k pbp mbp c d s = (r, s1)"
  shows "r = None \<and> fst (Mirrored_Fetch k pbp mbp c s1) = Inr d"
proof -
  obtain rp p1 where p: "bp_Push pbp c d (mi_primary s) = (rp, p1)" by fastforce
  note ok = p.push_ok [OF assms(1,2) p]
  have s1: "r = None" "mi_primary s1 = p1"
    using assms(3) p ok by (auto simp: Mirrored_Push_def split: prod.splits option.splits)
  obtain q p2 where f: "bp_Fetch pbp c p1 = (q, p2)" by fastforce
  have "pcontents p1 c = Some d" using ok assms(2) by (simp add: agree_def)
  then have "q = Inr d" using p.fetch_ok [OF _ assms(2) f] ok by simp
  with f s1 show ?thesis by (simp add: Mirrored_Fetch_def)
qed

text \<open>Deleting from the primary only: the caller sees success even when the mirror kept it.\<close>

lemma delete_masks_mirror:
  assumes "pinv (mi_primary s)" "okcid c" "pcontents (mi_primary s) c \<noteq> None"
    "bp_Delete mbp c (mi_mirror s) = (Some e, m1)" "bp_Fetch mbp c m1 = (Inr d, m2)"
    "Mirrored_Delete k pbp mbp c s = (r, s1)"
  shows "r = None \<and> fst (Mirrored_Fetch k pbp mbp c s1) = Inr d"
proof -
  obtain rp p1 where p: "bp_Delete pbp c (mi_primary s) = (rp, p1)" by fastforce
  note ok = p.delete_ok [OF assms(1,2) p]
  have s1: "r = None" "mi_primary s1 = p1" "mi_mirror s1 = m1"
    using assms(3,4,6) p ok by (auto simp: Mirrored_Delete_def)
  obtain q p2 where f: "bp_Fetch pbp c p1 = (q, p2)" by fastforce
  have "pcontents p1 c = None" using ok assms(2) by (simp add: agree_def)
  then have "q = Inl (Sentinel ErrContentNotFound)" using p.fetch_ok [OF _ assms(2) f] ok by simp
  with f s1 assms(5) show ?thesis by (simp add: Mirrored_Fetch_def)
qed

end

locale mirrored_mirror_up =
  m: reliable_store mbp minv mcontents okcid
  for mbp :: "'m BackendProvider" and minv mcontents okcid
begin

lemma fetch_fails_over:
  assumes "minv (mi_mirror s)" "okcid c" "mcontents (mi_mirror s) c = Some d"
    "bp_Fetch pbp c (mi_primary s) = (Inl e, p1)"
  shows "fst (Mirrored_Fetch k pbp mbp c s) = Inr d"
  using assms m.fetch_ok [OF assms(1,2)]
  by (auto simp: Mirrored_Fetch_def split: prod.splits)

end

end
