(* ===== verification/Backend_Memory.thy ===== *)
theory Backend_Memory
  imports Api_Server
begin

text \<open>
  \<open>InMemoryBackend\<close> (\<open>backends/backend.go\<close>) and the test fixture \<open>NotSupportedBackend\<close>
  (\<open>internal/testutil/notsupported_backend.go\<close>). Both delegate to the SDK's in-memory
  content store and retrieval provider, which are not part of this repository: the SDK
  methods they call are the record \<open>memory_sdk\<close>. \<open>Healthy\<close> and the fixture's \<open>Delete\<close>
  are their own.
\<close>

record 's memory_sdk =
  ms_Push :: "cid \<Rightarrow> bytes \<Rightarrow> 's \<Rightarrow> goerr option \<times> 's"
  ms_Fetch :: "cid \<Rightarrow> 's \<Rightarrow> (goerr + bytes) \<times> 's"
  ms_Pin :: "cid \<Rightarrow> 's \<Rightarrow> goerr option \<times> 's"
  ms_Exists :: "cid \<Rightarrow> 's \<Rightarrow> (goerr + bool) \<times> 's"
  ms_Delete :: "cid \<Rightarrow> 's \<Rightarrow> goerr option \<times> 's"
  ms_Resolve :: "cid \<Rightarrow> duration \<Rightarrow> 's \<Rightarrow> (goerr + RetrievalCredential) \<times> 's"

definition InMemoryBackend :: "'s memory_sdk \<Rightarrow> 's BackendProvider" where
  "InMemoryBackend ms =
     \<lparr>bp_Push = ms_Push ms, bp_Fetch = ms_Fetch ms, bp_Pin = ms_Pin ms, bp_Exists = ms_Exists ms,
      bp_Delete = ms_Delete ms, bp_Resolve = ms_Resolve ms, bp_Healthy = (\<lambda>s. (Returns None, s))\<rparr>"

definition NotSupportedBackend :: "'s memory_sdk \<Rightarrow> 's BackendProvider" where
  "NotSupportedBackend ms =
     \<lparr>bp_Push = ms_Push ms, bp_Fetch = ms_Fetch ms, bp_Pin = ms_Pin ms, bp_Exists = ms_Exists ms,
      bp_Delete = (\<lambda>c s. (Some (Sentinel ErrNotSupported), s)),
      bp_Resolve = ms_Resolve ms, bp_Healthy = (\<lambda>s. (Returns None, s))\<rparr>"

text \<open>A store over a map from CIDs to bytes, to instantiate the parameter.\<close>

definition map_store :: "(cid \<Rightarrow> bytes option) memory_sdk" where
  "map_store =
     \<lparr>ms_Push = (\<lambda>c d m. (None, m(c := Some d))),
      ms_Fetch = (\<lambda>c m. (case m c of None \<Rightarrow> Inl (Sentinel ErrContentNotFound) | Some d \<Rightarrow> Inr d, m)),
      ms_Pin = (\<lambda>c m. (if m c = None then Some (Sentinel ErrContentNotFound) else None, m)),
      ms_Exists = (\<lambda>c m. (Inr (m c \<noteq> None), m)),
      ms_Delete = (\<lambda>c m. (None, m(c := None))),
      ms_Resolve = (\<lambda>c e m.
        (if m c = None then Inl (Sentinel ErrContentNotFound)
         else Inr \<lparr>rc_Method = ''direct'', rc_URL = [], rc_Expiry = None\<rparr>, m))\<rparr>"

interpretation memory: reliable_store "InMemoryBackend map_store" "\<lambda>_. True" "\<lambda>m. m" "\<lambda>_. True"
  by unfold_locales (auto simp: InMemoryBackend_def map_store_def agree_def)

end
