(* ===== verification/Backend_Gcs.thy ===== *)
theory Backend_Gcs
  imports Store_Types
begin

text \<open>
  \<open>backends/gcs.go\<close>: the Google Cloud Storage backend over the GCS JSON API. The OAuth
  token function and the URL signer of the configuration act on the same world as the
  HTTP client; a nil function or signer is \<^const>\<open>None\<close>.
\<close>

record 'w GCSConfig =
  gc_Bucket :: string
  gc_Prefix :: string
  gc_TokenFunc :: "('w \<Rightarrow> (goerr + string) \<times> 'w) option"
  gc_URLSigner :: "(string \<Rightarrow> string \<Rightarrow> duration \<Rightarrow> 'w \<Rightarrow> (goerr + string) \<times> 'w) option"
  gc_BaseURL :: string

record 'w GCSBackend =
  g_cfg :: "'w GCSConfig"
  g_client :: "'w net"

definition GCS_baseURL :: "'w GCSBackend \<Rightarrow> string" where
  "GCS_baseURL g =
     (if gc_BaseURL (g_cfg g) \<noteq> [] then gc_BaseURL (g_cfg g)
      else ''https://storage.googleapis.com'')"

definition GCS_objectPath :: "sdk \<Rightarrow> 'w GCSBackend \<Rightarrow> cid \<Rightarrow> string" where
  "GCS_objectPath k g c = gc_Prefix (g_cfg g) @ sdk_String k c"

definition GCS_apiURL :: "'w GCSBackend \<Rightarrow> string \<Rightarrow> string" where
  "GCS_apiURL g object =
     GCS_baseURL g @ ''/upload/storage/v1/b/'' @ gc_Bucket (g_cfg g) @
     ''/o?uploadType=media&name='' @ query_escape object"

definition GCS_objectURL :: "'w GCSBackend \<Rightarrow> string \<Rightarrow> string" where
  "GCS_objectURL g object =
     GCS_baseURL g @ ''/storage/v1/b/'' @ gc_Bucket (g_cfg g) @ ''/o/'' @ path_escape object"

definition GCS_mediaURL :: "'w GCSBackend \<Rightarrow> string \<Rightarrow> string" where
  "GCS_mediaURL g object =
     GCS_baseURL g @ ''/storage/v1/b/'' @ gc_Bucket (g_cfg g) @ ''/o/'' @ path_escape object @
     ''?alt=media''"

definition GCS_authHeader :: "'w GCSBackend \<Rightarrow> 'w \<Rightarrow> (goerr + string) \<times> 'w" where
  "GCS_authHeader g w =
     (case gc_TokenFunc (g_cfg g) of
        None \<Rightarrow> (Inr [], w)
      | Some f \<Rightarrow>
          (case f w of
             (Inl e, w') \<Rightarrow> (Inl (Errorf [Lit ''gcs: get token: '', Wrp e]), w')
           | (Inr t, w') \<Rightarrow> (Inr (''Bearer '' @ t), w')))"

text \<open>
  The steps every operation starts with: build the request, set its content type, add
  the authorization header unless it is empty, and send it. A request that cannot be
  built and a transport error are wrapped under the operation's tag; a token error is
  returned as it is.
\<close>

definition GCS_send ::
  "'w GCSBackend \<Rightarrow> string \<Rightarrow> string \<Rightarrow> string \<Rightarrow> bytes option \<Rightarrow> string option \<Rightarrow> 'w \<Rightarrow>
   (goerr + http_response) \<times> 'w" where
  "GCS_send g tag m u b ctype w =
     (case new_request m u b of
        Inl e \<Rightarrow> (Inl (Errorf [Lit (tag @ '': ''), Wrp e]), w)
      | Inr req \<Rightarrow>
          (case GCS_authHeader g w of
             (Inl e, w1) \<Rightarrow> (Inl e, w1)
           | (Inr auth, w1) \<Rightarrow>
               (let req1 = (case ctype of None \<Rightarrow> req | Some t \<Rightarrow> set_header ''Content-Type'' t req);
                    req2 = (if auth \<noteq> [] then set_header ''Authorization'' auth req1 else req1)
                in case net_do (g_client g) req2 w1 of
                     (Inl e, w2) \<Rightarrow> (Inl (Errorf [Lit (tag @ '': ''), Wrp e]), w2)
                   | (Inr resp, w2) \<Rightarrow> (Inr resp, w2))))"

definition GCS_Push :: "sdk \<Rightarrow> 'w GCSBackend \<Rightarrow> cid \<Rightarrow> bytes \<Rightarrow> 'w \<Rightarrow> goerr option \<times> 'w" where
  "GCS_Push k g c d w =
     (case GCS_send g ''gcs/push'' ''POST'' (GCS_apiURL g (GCS_objectPath k g c)) (Some d)
             (Some ''application/octet-stream'') w of
        (Inl e, w1) \<Rightarrow> (Some e, w1)
      | (Inr resp, w1) \<Rightarrow>
          (if rs_status resp \<noteq> 200 \<and> rs_status resp \<noteq> 201
           then (Some (Errorf [Lit (''gcs/push: HTTP '' @ itoa (int (rs_status resp)) @ '': '' @
                                    error_body resp)]), w1)
           else (None, w1)))"

definition GCS_Fetch :: "sdk \<Rightarrow> 'w GCSBackend \<Rightarrow> cid \<Rightarrow> 'w \<Rightarrow> (goerr + bytes) \<times> 'w" where
  "GCS_Fetch k g c w =
     (case GCS_send g ''gcs/fetch'' ''GET'' (GCS_mediaURL g (GCS_objectPath k g c)) None None w of
        (Inl e, w1) \<Rightarrow> (Inl e, w1)
      | (Inr resp, w1) \<Rightarrow>
          (if rs_status resp = 404 then (Inl (Sentinel ErrContentNotFound), w1)
           else if rs_status resp \<noteq> 200
           then (Inl (Errorf [Lit (''gcs/fetch: HTTP '' @ itoa (int (rs_status resp)) @ '': '' @
                                   error_body resp)]), w1)
           else (case read_all (rs_body resp) of
                   (d, None) \<Rightarrow> (Inr d, w1)
                 | (d, Some e) \<Rightarrow> (Inl e, w1))))"

definition GCS_Exists :: "sdk \<Rightarrow> 'w GCSBackend \<Rightarrow> cid \<Rightarrow> 'w \<Rightarrow> (goerr + bool) \<times> 'w" where
  "GCS_Exists k g c w =
     (case GCS_send g ''gcs/exists'' ''GET'' (GCS_objectURL g (GCS_objectPath k g c)) None None w of
        (Inl e, w1) \<Rightarrow> (Inl e, w1)
      | (Inr resp, w1) \<Rightarrow> (Inr (rs_status resp = 200), w1))"

definition GCS_pin_body :: string where
  "GCS_pin_body =
     map char_of [123, 34 :: nat] @ ''metadata'' @ map char_of [34, 58, 123, 34 :: nat] @
     ''ortholog-pinned'' @ map char_of [34, 58, 34 :: nat] @ ''true'' @ map char_of [34, 125, 125 :: nat]"

definition GCS_Pin :: "sdk \<Rightarrow> 'w GCSBackend \<Rightarrow> cid \<Rightarrow> 'w \<Rightarrow> goerr option \<times> 'w" where
  "GCS_Pin k g c w =
     (case GCS_send g ''gcs/pin'' ''PATCH'' (GCS_objectURL g (GCS_objectPath k g c))
             (Some (str_bytes GCS_pin_body)) (Some ''application/json'') w of
        (Inl e, w1) \<Rightarrow> (Some e, w1)
      | (Inr resp, w1) \<Rightarrow>
          (if rs_status resp = 404 then (Some (Sentinel ErrContentNotFound), w1) else (None, w1)))"

definition GCS_Delete :: "sdk \<Rightarrow> 'w GCSBackend \<Rightarrow> cid \<Rightarrow> 'w \<Rightarrow> goerr option \<times> 'w" where
  "GCS_Delete k g c w =
     (case GCS_send g ''gcs/delete'' ''DELETE'' (GCS_objectURL g (GCS_objectPath k g c)) None None w of
        (Inl e, w1) \<Rightarrow> (Some e, w1)
      | (Inr resp, w1) \<Rightarrow>
          (if rs_status resp = 200 \<or> rs_status resp = 204 then (None, w1)
           else if rs_status resp = 404 then (Some (Sentinel ErrContentNotFound), w1)
           else (Some (Errorf [Lit (''gcs/delete: HTTP '' @ itoa (int (rs_status resp)) @ '': '' @
                                    error_body resp)]), w1)))"

definition GCS_Resolve ::
  "sdk \<Rightarrow> 'w GCSBackend \<Rightarrow> cid \<Rightarrow> duration \<Rightarrow> 'w \<Rightarrow> (goerr + RetrievalCredential) \<times> 'w" where
  "GCS_Resolve k g c expiry w =
     (case gc_URLSigner (g_cfg g) of
        None \<Rightarrow> (Inl (Errorf [Lit ''gcs/resolve: no URL signer configured'']), w)
      | Some sign \<Rightarrow>
          (case sign (gc_Bucket (g_cfg g)) (GCS_objectPath k g c) expiry w of
             (Inl e, w1) \<Rightarrow> (Inl (Errorf [Lit ''gcs/resolve: '', Wrp e]), w1)
           | (Inr u, w1) \<Rightarrow>
               (Inr \<lparr>rc_Method = sdk_MethodSignedURL k, rc_URL = u,
                     rc_Expiry = Some (time_add (net_now (g_client g) w1) expiry)\<rparr>, w1)))"

text \<open>
  The error of \<open>http.NewRequest\<close> is dropped here, so a base URL or bucket that does not
  parse leaves a nil request, and setting a header on it or sending it panics.
\<close>

definition GCS_Healthy :: "'w GCSBackend \<Rightarrow> 'w \<Rightarrow> goerr option outcome \<times> 'w" where
  "GCS_Healthy g w =
     (case GCS_authHeader g w of
        (Inl e, w1) \<Rightarrow> (Returns (Some e), w1)
      | (Inr auth, w1) \<Rightarrow>
          (case new_request ''GET'' (GCS_baseURL g @ ''/storage/v1/b/'' @ gc_Bucket (g_cfg g)) None of
             Inl e \<Rightarrow> (Panics ''nil request'', w1)
           | Inr req \<Rightarrow>
               (case net_do (g_client g)
                       (if auth \<noteq> [] then set_header ''Authorization'' auth req else req) w1 of
                  (Inl e, w2) \<Rightarrow> (Returns (Some (Errorf [Lit ''gcs/health: '', Wrp e])), w2)
                | (Inr resp, w2) \<Rightarrow>
                    (if rs_status resp \<noteq> 200
                     then (Returns (Some (Errorf [Lit (''gcs/health: HTTP '' @
                             itoa (int (rs_status resp)))])), w2)
                     else (Returns None, w2)))))"

definition GCS_provider :: "sdk \<Rightarrow> 'w GCSBackend \<Rightarrow> 'w BackendProvider" where
  "GCS_provider k g =
     \<lparr>bp_Push = GCS_Push k g, bp_Fetch = GCS_Fetch k g, bp_Pin = GCS_Pin k g,
      bp_Exists = GCS_Exists k g, bp_Delete = GCS_Delete k g, bp_Resolve = GCS_Resolve k g,
      bp_Healthy = GCS_Healthy g\<rparr>"

end
