(* ===== verification/Http_Fakes.thy ===== *)
theory Http_Fakes
  imports Store_Types Go_Json
begin

text \<open>
  \<open>internal/testutil/httpfakes.go\<close>: the in-process GCS and S3 servers the backends are
  tested against, as state transformers. A request carries the URL the client parsed; the
  server sees its decoded path and its raw query. A status override of 0 means the
  default behaviour; any other value (a final status code, 200 and above) is what the
  handler answers, with an empty body, before it touches its objects.
\<close>

record ObservedRequest =
  or_Method :: string
  or_Path :: string
  or_RawPath :: string
  or_Query :: string
  or_Header :: header
  or_Body :: bytes

definition request_bytes :: "http_request \<Rightarrow> bytes" where
  "request_bytes r = (case rq_body r of None \<Rightarrow> [] | Some d \<Rightarrow> d)"

definition observe :: "http_request \<Rightarrow> ObservedRequest" where
  "observe r =
     \<lparr>or_Method = rq_method r, or_Path = u_path (rq_url r), or_RawPath = u_rawpath (rq_url r),
      or_Query = u_rawquery (rq_url r), or_Header = rq_header r, or_Body = request_bytes r\<rparr>"

definition respond :: "nat \<Rightarrow> bytes \<Rightarrow> http_response" where
  "respond st d = \<lparr>rs_status = st, rs_body = stream_of d\<rparr>"

lemma respond_sel [simp]: "rs_status (respond st d) = st" "rs_body (respond st d) = stream_of d"
  by (simp_all add: respond_def)

section \<open>The GCS fake\<close>

record GCSFake =
  gf_objects :: "string \<Rightarrow> bytes option"
  gf_metadata :: "string \<Rightarrow> (string \<Rightarrow> string option) option"
  gf_requests :: "ObservedRequest list"
  gf_PushStatus :: nat
  gf_FetchStatus :: nat
  gf_ExistsStatus :: nat
  gf_PinStatus :: nat
  gf_DeleteStatus :: nat
  gf_HealthyStatus :: nat

definition NewGCSFake :: GCSFake where
  "NewGCSFake =
     \<lparr>gf_objects = (\<lambda>_. None), gf_metadata = (\<lambda>_. None), gf_requests = [],
      gf_PushStatus = 0, gf_FetchStatus = 0, gf_ExistsStatus = 0, gf_PinStatus = 0,
      gf_DeleteStatus = 0, gf_HealthyStatus = 0\<rparr>"

definition GCSFake_Put :: "string \<Rightarrow> string \<Rightarrow> bytes \<Rightarrow> GCSFake \<Rightarrow> GCSFake" where
  "GCSFake_Put bucket object d f =
     f\<lparr>gf_objects := (gf_objects f)(bucket @ ''/'' @ object := Some d)\<rparr>"

definition mark_pinned ::
  "(string \<Rightarrow> (string \<Rightarrow> string option) option) \<Rightarrow> string \<Rightarrow>
   (string \<Rightarrow> (string \<Rightarrow> string option) option)" where
  "mark_pinned m key =
     m(key := Some ((case m key of None \<Rightarrow> (\<lambda>_. None) | Some t \<Rightarrow> t)
                      (''ortholog-pinned'' := Some ''true'')))"

definition GCSFake_object ::
  "string \<Rightarrow> string \<Rightarrow> http_request \<Rightarrow> GCSFake \<Rightarrow> http_response \<times> GCSFake" where
  "GCSFake_object bucket object r f =
     (let key = bucket @ ''/'' @ object in
      if rq_method r = ''GET'' then
        (if query_get (u_rawquery (rq_url r)) ''alt'' = ''media'' then
           (if gf_FetchStatus f \<noteq> 0 then (respond (gf_FetchStatus f) [], f)
            else case gf_objects f key of
                   None \<Rightarrow> (respond 404 [], f)
                 | Some d \<Rightarrow> (respond 200 d, f))
         else if gf_ExistsStatus f \<noteq> 0 then (respond (gf_ExistsStatus f) [], f)
         else case gf_objects f key of
                None \<Rightarrow> (respond 404 [], f)
              | Some d \<Rightarrow>
                  (respond 200 (str_bytes (json_encode_line (JObj [(''name'', JStr object)]))), f))
      else if rq_method r = ''PATCH'' then
        (if gf_PinStatus f \<noteq> 0 then (respond (gf_PinStatus f) [], f)
         else case gf_objects f key of
                None \<Rightarrow> (respond 404 [], f)
              | Some d \<Rightarrow> (respond 200 [], f\<lparr>gf_metadata := mark_pinned (gf_metadata f) key\<rparr>))
      else if rq_method r = ''DELETE'' then
        (if gf_DeleteStatus f \<noteq> 0 then (respond (gf_DeleteStatus f) [], f)
         else (respond 200 [], f\<lparr>gf_objects := (gf_objects f)(key := None)\<rparr>))
      else (respond 404 [], f))"

definition GCSFake_handle :: "http_request \<Rightarrow> GCSFake \<Rightarrow> http_response \<times> GCSFake" where
  "GCSFake_handle r f0 =
     (let f = f0\<lparr>gf_requests := gf_requests f0 @ [observe r]\<rparr>;
          path = u_path (rq_url r) in
      if rq_method r = ''POST'' \<and> has_prefix path ''/upload/storage/v1/b/'' then
        (if gf_PushStatus f \<noteq> 0 then (respond (gf_PushStatus f) [], f)
         else
           let bucket = trim_suffix (trim_prefix path ''/upload/storage/v1/b/'') ''/o'';
               object = query_get (u_rawquery (rq_url r)) ''name''
           in (respond 200 (str_bytes (json_encode_line
                 (JObj [(''bucket'', JStr bucket), (''name'', JStr object)]))),
               f\<lparr>gf_objects := (gf_objects f)(bucket @ ''/'' @ object := Some (request_bytes r))\<rparr>))
      else if rq_method r = ''GET'' \<and> has_prefix path ''/storage/v1/b/'' \<and>
              \<not> contains (trim_prefix path ''/storage/v1/b/'') ''/o'' then
        (if gf_HealthyStatus f \<noteq> 0 then (respond (gf_HealthyStatus f) [], f)
         else (respond 200 [], f))
      else if has_prefix path ''/storage/v1/b/'' \<and> contains path ''/o/'' then
        (case split_n2 (trim_prefix path ''/storage/v1/b/'') ''/o/'' of
           [bucket, object] \<Rightarrow> GCSFake_object bucket object r f
         | _ \<Rightarrow> (respond 400 [], f))
      else (respond 404 [], f))"

section \<open>The S3 fake\<close>

record S3Fake =
  sf_objects :: "string \<Rightarrow> bytes option"
  sf_tags :: "string \<Rightarrow> (string \<Rightarrow> string option) option"
  sf_requests :: "ObservedRequest list"
  sf_PushStatus :: nat
  sf_FetchStatus :: nat
  sf_ExistsStatus :: nat
  sf_PinStatus :: nat
  sf_DeleteStatus :: nat
  sf_HealthyStatus :: nat

definition NewS3Fake :: S3Fake where
  "NewS3Fake =
     \<lparr>sf_objects = (\<lambda>_. None), sf_tags = (\<lambda>_. None), sf_requests = [],
      sf_PushStatus = 0, sf_FetchStatus = 0, sf_ExistsStatus = 0, sf_PinStatus = 0,
      sf_DeleteStatus = 0, sf_HealthyStatus = 0\<rparr>"

definition S3Fake_Put :: "string \<Rightarrow> string \<Rightarrow> bytes \<Rightarrow> S3Fake \<Rightarrow> S3Fake" where
  "S3Fake_Put bucket key d f =
     f\<lparr>sf_objects := (sf_objects f)(bucket @ ''/'' @ key := Some d)\<rparr>"

definition S3Fake_object :: "string \<Rightarrow> http_request \<Rightarrow> S3Fake \<Rightarrow> http_response \<times> S3Fake" where
  "S3Fake_object fullKey r f =
     (if query_get (u_rawquery (rq_url r)) ''tagging'' \<noteq> [] \<or>
         has_suffix (u_rawquery (rq_url r)) ''tagging'' then
        (if sf_PinStatus f \<noteq> 0 then (respond (sf_PinStatus f) [], f)
         else case sf_objects f fullKey of
                None \<Rightarrow> (respond 404 [], f)
              | Some d \<Rightarrow> (respond 200 [], f\<lparr>sf_tags := mark_pinned (sf_tags f) fullKey\<rparr>))
      else if rq_method r = ''PUT'' then
        (if sf_PushStatus f \<noteq> 0 then (respond (sf_PushStatus f) [], f)
         else (respond 200 [], f\<lparr>sf_objects := (sf_objects f)(fullKey := Some (request_bytes r))\<rparr>))
      else if rq_method r = ''GET'' then
        (if sf_FetchStatus f \<noteq> 0 then (respond (sf_FetchStatus f) [], f)
         else case sf_objects f fullKey of
                None \<Rightarrow> (respond 404 [], f)
              | Some d \<Rightarrow> (respond 200 d, f))
      else if rq_method r = ''HEAD'' then
        (if sf_ExistsStatus f \<noteq> 0 then (respond (sf_ExistsStatus f) [], f)
         else case sf_objects f fullKey of
                None \<Rightarrow> (respond 404 [], f)
              | Some d \<Rightarrow> (respond 200 [], f))
      else if rq_method r = ''DELETE'' then
        (if sf_DeleteStatus f \<noteq> 0 then (respond (sf_DeleteStatus f) [], f)
         else (respond 200 [], f\<lparr>sf_objects := (sf_objects f)(fullKey := None)\<rparr>))
      else (respond 405 [], f))"

definition S3Fake_handle :: "http_request \<Rightarrow> S3Fake \<Rightarrow> http_response \<times> S3Fake" where
  "S3Fake_handle r f0 =
     (let f = f0\<lparr>sf_requests := sf_requests f0 @ [observe r]\<rparr>;
          path = trim_prefix (u_path (rq_url r)) ''/'' in
      if path = [] then (respond 404 [], f)
      else
        (let parts = split_n2 path ''/'';
             bucket = hd parts;
             key = (if length parts = 2 then parts ! 1 else [])
         in if key = [] then
              (if sf_HealthyStatus f \<noteq> 0 then (respond (sf_HealthyStatus f) [], f)
               else (respond 200 [], f))
            else S3Fake_object (bucket @ ''/'' @ key) r f))"

end
