(* ===== verification/Gcs_Contract.thy ===== *)
theory Gcs_Contract
  imports Backend_Gcs Api_Server Http_Fakes
begin

text \<open>
  The GCS backend against the GCS fake: every request it sends reaches the object that the
  CID names, whatever bytes the prefix and the CID's string form contain, and the backend
  meets the contracts of \<open>Backend_Contract\<close>.
\<close>

section \<open>The backend wired to the fake\<close>

definition gcs_fake_net :: "time \<Rightarrow> GCSFake net" where
  "gcs_fake_net now =
     \<lparr>net_do = (\<lambda>r f. case GCSFake_handle r f of (resp, f') \<Rightarrow> (Inr resp, f')),
      net_now = (\<lambda>_. now)\<rparr>"

text \<open>
  A usable configuration: an absolute base URL, a bucket name of unreserved characters (the
  only ones GCS allows), and token and signing functions that do not touch the bucket.
\<close>

definition gcs_wired :: "GCSFake GCSBackend \<Rightarrow> bool" where
  "gcs_wired g \<longleftrightarrow>
     (\<exists>now. g_client g = gcs_fake_net now) \<and>
     (\<exists>sch auth host. base_parts (GCS_baseURL g) sch auth host) \<and>
     list_all unreserved (gc_Bucket (g_cfg g)) \<and>
     (\<forall>f. gc_TokenFunc (g_cfg g) = Some f \<longrightarrow> (\<forall>w. snd (f w) = w)) \<and>
     (\<forall>f. gc_URLSigner (g_cfg g) = Some f \<longrightarrow> (\<forall>b p e w. snd (f b p e w) = w))"

definition gcs_key :: "sdk \<Rightarrow> 'w GCSBackend \<Rightarrow> cid \<Rightarrow> string" where
  "gcs_key k g c = gc_Bucket (g_cfg g) @ ''/'' @ GCS_objectPath k g c"

definition gcs_contents :: "sdk \<Rightarrow> 'w GCSBackend \<Rightarrow> GCSFake \<Rightarrow> cid \<Rightarrow> bytes option" where
  "gcs_contents k g f c = gf_objects f (gcs_key k g c)"

lemma gcs_key_inject:
  "cid_codec k reg \<Longrightarrow> reg c \<Longrightarrow> reg c' \<Longrightarrow> gcs_key k g c = gcs_key k g c' \<longleftrightarrow> c = c'"
  by (simp add: gcs_key_def GCS_objectPath_def cid_codec_inject)

section \<open>Requests reach the object they name\<close>

lemma unreserved_plain:
  "unreserved c \<Longrightarrow> plain_url_char c \<and> c \<notin> set ''%/&;=''"
  by (auto simp: unreserved_def is_alpha_def is_digit_def plain_url_char_def is_ctl_def Let_def)

lemma keep_path_plain: "keep_path_segment c \<Longrightarrow> plain_url_char c"
  using unreserved_plain by (auto simp: keep_path_segment_def plain_url_char_def is_ctl_def)

lemma plain_path_escape: "list_all plain_url_char (path_escape s)"
proof -
  have "plain_url_char (CHR ''%'')" by (simp add: plain_url_char_def is_ctl_def)
  with keep_path_plain show ?thesis by (auto simp: list_all_iff dest!: path_escape_set)
qed

lemma query_escape_plain:
  assumes "x \<in> set (query_escape s)"
  shows "plain_url_char x \<and> x \<notin> set ''&;=''"
proof -
  have "plain_url_char (CHR ''%'')" "plain_url_char (CHR ''+'')"
    by (simp_all add: plain_url_char_def is_ctl_def)
  with query_escape_set [OF assms] unreserved_plain [of x] show ?thesis by auto
qed

lemma unreserved_bucket:
  assumes "list_all unreserved b"
  shows "list_all plain_url_char b" "CHR ''/'' \<notin> set b" "unescape False b = Some b"
proof -
  show "list_all plain_url_char b" "CHR ''/'' \<notin> set b"
    using assms unreserved_plain by (auto simp: list_all_iff)
  have "CHR ''%'' \<notin> set b" using assms unreserved_plain by (auto simp: list_all_iff)
  then show "unescape False b = Some b" by (simp add: unescape_plain)
qed

lemma gcs_object_path:
  assumes "list_all unreserved b"
  shows "list_all plain_url_char (''/storage/v1/b/'' @ b @ ''/o/'' @ path_escape o1)"
    and "unescape False (''/storage/v1/b/'' @ b @ ''/o/'' @ path_escape o1) =
           Some (''/storage/v1/b/'' @ b @ ''/o/'' @ o1)"
proof -
  note ub = unreserved_bucket [OF assms]
  have lit: "list_all plain_url_char ''/storage/v1/b/''" "list_all plain_url_char ''/o/''"
    by (simp_all add: plain_url_char_def is_ctl_def)
  show "list_all plain_url_char (''/storage/v1/b/'' @ b @ ''/o/'' @ path_escape o1)"
    using ub(1) lit plain_path_escape [of o1] by (simp only: list_all_append)
  have "unescape False (''/o/'' @ path_escape o1) = Some (''/o/'' @ o1)"
    using unescape_append [of False "''/o/''" "''/o/''" "path_escape o1"]
    by (simp add: unescape_path_escape)
  then show "unescape False (''/storage/v1/b/'' @ b @ ''/o/'' @ path_escape o1) =
      Some (''/storage/v1/b/'' @ b @ ''/o/'' @ o1)"
    using unescape_append [OF ub(3), of "''/o/'' @ path_escape o1"] by simp
qed

lemma gcs_new_request_object:
  assumes base: "base_parts (GCS_baseURL g) sch auth host"
    and b: "list_all unreserved (gc_Bucket (g_cfg g))"
  shows "\<exists>req. new_request m (GCS_objectURL g o1) d = Inr req \<and> rq_method req = m \<and> rq_body req = d \<and>
      u_path (rq_url req) = ''/storage/v1/b/'' @ gc_Bucket (g_cfg g) @ ''/o/'' @ o1 \<and>
      u_rawquery (rq_url req) = []"
    and "\<exists>req. new_request m (GCS_mediaURL g o1) d = Inr req \<and> rq_method req = m \<and> rq_body req = d \<and>
      u_path (rq_url req) = ''/storage/v1/b/'' @ gc_Bucket (g_cfg g) @ ''/o/'' @ o1 \<and>
      u_rawquery (rq_url req) = ''alt=media''"
proof -
  let ?p = "''/storage/v1/b/'' @ gc_Bucket (g_cfg g) @ ''/o/'' @ path_escape o1"
  have hp: "has_prefix ?p ''/''" by simp
  have q: "CHR ''#'' \<notin> set ''alt=media''" "\<not> list_ex is_ctl ''alt=media''"
    "CHR ''#'' \<notin> set []" "\<not> list_ex is_ctl []"
    by (simp_all add: is_ctl_def)
  note pu = parse_url_base [OF base hp gcs_object_path [OF b]]
  show "\<exists>req. new_request m (GCS_objectURL g o1) d = Inr req \<and> rq_method req = m \<and> rq_body req = d \<and>
      u_path (rq_url req) = ''/storage/v1/b/'' @ gc_Bucket (g_cfg g) @ ''/o/'' @ o1 \<and>
      u_rawquery (rq_url req) = []"
    using pu [OF q(3,4), where hasq = False] by (simp add: new_request_def GCS_objectURL_def)
  show "\<exists>req. new_request m (GCS_mediaURL g o1) d = Inr req \<and> rq_method req = m \<and> rq_body req = d \<and>
      u_path (rq_url req) = ''/storage/v1/b/'' @ gc_Bucket (g_cfg g) @ ''/o/'' @ o1 \<and>
      u_rawquery (rq_url req) = ''alt=media''"
    using pu [OF q(1,2), where hasq = True] by (simp add: new_request_def GCS_mediaURL_def)
qed

lemma gcs_new_request_upload:
  assumes base: "base_parts (GCS_baseURL g) sch auth host"
    and b: "list_all unreserved (gc_Bucket (g_cfg g))"
  shows "\<exists>req. new_request m (GCS_apiURL g o1) d = Inr req \<and> rq_method req = m \<and> rq_body req = d \<and>
      u_path (rq_url req) = ''/upload/storage/v1/b/'' @ gc_Bucket (g_cfg g) @ ''/o'' \<and>
      u_rawquery (rq_url req) = ''uploadType=media&name='' @ query_escape o1"
proof -
  let ?p = "''/upload/storage/v1/b/'' @ gc_Bucket (g_cfg g) @ ''/o''"
  let ?q = "''uploadType=media&name='' @ query_escape o1"
  note ub = unreserved_bucket [OF b]
  have hp: "has_prefix ?p ''/''" by simp
  have lit: "list_all plain_url_char ''/upload/storage/v1/b/''" "list_all plain_url_char ''/o''"
    "list_all plain_url_char ''uploadType=media&name=''"
    by (simp_all add: plain_url_char_def is_ctl_def)
  have pp: "list_all plain_url_char ?p"
    using ub(1) lit by (simp only: list_all_append)
  have un: "unescape False ?p = Some ?p"
    using unescape_append [OF ub(3), of "''/o''"] by simp
  have "list_all plain_url_char (query_escape o1)"
    using query_escape_plain by (simp add: list_all_iff)
  then have "list_all plain_url_char ?q"
    using lit(3) by (simp only: list_all_append)
  from plain_url_string [OF this] have q: "CHR ''#'' \<notin> set ?q" "\<not> list_ex is_ctl ?q" by blast+
  show ?thesis
    using parse_url_base [OF base hp pp un q, where hasq = True]
    by (simp add: new_request_def GCS_apiURL_def)
qed

lemma query_get_alt_media: "query_get ''alt=media'' ''alt'' = ''media''"
  by code_simp

lemma query_get_upload_name: "query_get (''uploadType=media&name='' @ query_escape o1) ''name'' = o1"
proof -
  have n: "CHR ''&'' \<notin> set (query_escape o1)" "CHR '';'' \<notin> set (query_escape o1)"
    "CHR ''='' \<notin> set (query_escape o1)"
    using query_escape_plain by fastforce+
  have "split_byte CHR ''&'' (''uploadType=media'' @ CHR ''&'' # (''name='' @ query_escape o1))
      = [''uploadType=media'', ''name='' @ query_escape o1]"
    using split_byte_no_sep [of "CHR ''&''" "''name='' @ query_escape o1"] n(1) by simp
  then have sp: "split_byte CHR ''&'' (''uploadType=media&name='' @ query_escape o1)
      = [''uploadType=media'', ''name='' @ query_escape o1]" by simp
  have c1: "cut_str ''='' ''uploadType=media'' = Some (''uploadType'', ''media'')" by code_simp
  have c2: "cut_str ''='' (''name='' @ query_escape o1) = Some (''name'', query_escape o1)" by simp
  have u: "unescape True ''uploadType'' = Some ''uploadType''" "unescape True ''media'' = Some ''media''"
    "unescape True ''name'' = Some ''name''" by code_simp+
  have m: "query_pairs (''uploadType=media&name='' @ query_escape o1) =
     [(''uploadType'', ''media''), (''name'', o1)]"
    unfolding query_pairs_def sp List.map_filter_def
    using n(2) by (simp add: c1 [simplified] c2 [simplified] u [simplified] unescape_query_escape)
  show ?thesis unfolding query_get_def m by simp
qed

section \<open>What the fake does with them\<close>

definition gf_overrides :: "GCSFake \<Rightarrow> nat list" where
  "gf_overrides f = [gf_PushStatus f, gf_FetchStatus f, gf_ExistsStatus f, gf_PinStatus f,
                     gf_DeleteStatus f, gf_HealthyStatus f]"

lemma gf_overrides_update [simp]:
  "gf_overrides (f\<lparr>gf_requests := x\<rparr>) = gf_overrides f"
  "gf_overrides (f\<lparr>gf_objects := y\<rparr>) = gf_overrides f"
  "gf_overrides (f\<lparr>gf_metadata := z\<rparr>) = gf_overrides f"
  by (simp_all add: gf_overrides_def)

lemma gf_overrides_eqD:
  "gf_overrides f = gf_overrides f' \<Longrightarrow>
     gf_PushStatus f = gf_PushStatus f' \<and> gf_FetchStatus f = gf_FetchStatus f' \<and>
     gf_ExistsStatus f = gf_ExistsStatus f' \<and> gf_PinStatus f = gf_PinStatus f' \<and>
     gf_DeleteStatus f = gf_DeleteStatus f' \<and> gf_HealthyStatus f = gf_HealthyStatus f'"
  by (simp add: gf_overrides_def)

lemma handle_upload:
  assumes "rq_method r = ''POST''" "u_path (rq_url r) = ''/upload/storage/v1/b/'' @ b @ ''/o''"
    "u_rawquery (rq_url r) = ''uploadType=media&name='' @ query_escape o1" "rq_body r = Some d"
    "GCSFake_handle r f = (resp, f')"
  shows "gf_overrides f' = gf_overrides f"
    and "gf_PushStatus f \<noteq> 0 \<Longrightarrow> rs_status resp = gf_PushStatus f \<and> gf_objects f' = gf_objects f"
    and "gf_PushStatus f = 0 \<Longrightarrow>
           rs_status resp = 200 \<and> gf_objects f' = (gf_objects f)(b @ ''/'' @ o1 := Some d)"
proof -
  have tr: "trim_suffix (trim_prefix (''/upload/storage/v1/b/'' @ b @ ''/o'') ''/upload/storage/v1/b/'') ''/o'' = b"
    by (simp only: trim_prefix_append trim_suffix_append)
  have hp: "has_prefix (''/upload/storage/v1/b/'' @ b @ ''/o'') ''/upload/storage/v1/b/''"
    by (rule has_prefix_append)
  have "GCSFake_handle r f =
      (let f1 = f\<lparr>gf_requests := gf_requests f @ [observe r]\<rparr> in
       if gf_PushStatus f \<noteq> 0 then (respond (gf_PushStatus f) [], f1)
       else (respond 200 (str_bytes (json_encode_line (JObj [(''bucket'', JStr b), (''name'', JStr o1)]))),
             f1\<lparr>gf_objects := (gf_objects f)(b @ ''/'' @ o1 := Some d)\<rparr>))"
    unfolding GCSFake_handle_def assms(1-3) tr Let_def query_get_upload_name
    using hp assms(4) by (simp add: request_bytes_def)
  then show "gf_overrides f' = gf_overrides f"
    "gf_PushStatus f \<noteq> 0 \<Longrightarrow> rs_status resp = gf_PushStatus f \<and> gf_objects f' = gf_objects f"
    "gf_PushStatus f = 0 \<Longrightarrow>
       rs_status resp = 200 \<and> gf_objects f' = (gf_objects f)(b @ ''/'' @ o1 := Some d)"
    using assms(5) by (auto simp: Let_def split: if_splits)
qed

lemma handle_object:
  assumes "CHR ''/'' \<notin> set b" "rq_method r \<noteq> ''POST''"
    "u_path (rq_url r) = ''/storage/v1/b/'' @ b @ ''/o/'' @ o1"
  shows "GCSFake_handle r f = GCSFake_object b o1 r (f\<lparr>gf_requests := gf_requests f @ [observe r]\<rparr>)"
proof -
  let ?p = "''/storage/v1/b/'' @ b @ ''/o/'' @ o1"
  have hp: "has_prefix ?p ''/storage/v1/b/''" by (rule has_prefix_append)
  have tp: "trim_prefix ?p ''/storage/v1/b/'' = b @ ''/o/'' @ o1" by (rule trim_prefix_append)
  have c1: "contains (b @ ''/o/'' @ o1) ''/o''"
    using contains_append [of b "''/o''" "CHR ''/'' # o1"] by simp
  have c2: "contains ?p ''/o/''"
    using contains_append [of "''/storage/v1/b/'' @ b" "''/o/''" o1] by simp
  have sp: "split_n2 (b @ ''/o/'' @ o1) ''/o/'' = [b, o1]"
    using cut_first [OF assms(1), of "''o/''" o1] by (simp add: split_n2_def)
  show ?thesis
    unfolding GCSFake_handle_def assms(3) tp Let_def sp
    using assms(2) hp c1 c2 by simp
qed

section \<open>The operations against the fake\<close>

lemma gcs_auth_pure:
  assumes "gcs_wired g" "GCS_authHeader g f = (a, f1)"
  shows "f1 = f \<and> (isl a \<longrightarrow> (\<exists>tf. gc_TokenFunc (g_cfg g) = Some tf \<and> isl (fst (tf f))))"
proof (cases "gc_TokenFunc (g_cfg g)")
  case None
  with assms(2) show ?thesis by (auto simp: GCS_authHeader_def)
next
  case (Some tf)
  have "snd (tf f) = f" using assms(1) Some by (simp add: gcs_wired_def)
  with Some assms(2) show ?thesis
    by (cases "tf f"; cases "fst (tf f)") (auto simp: GCS_authHeader_def)
qed

lemma gcs_send_fake:
  assumes "gcs_wired g" "new_request m u b = Inr req"
  obtains (token) e where "GCS_send g tag m u b ct f = (Inl e, f)"
      "\<exists>tf. gc_TokenFunc (g_cfg g) = Some tf \<and> isl (fst (tf f))"
    | (sent) r resp f' where "rq_method r = rq_method req" "rq_url r = rq_url req"
        "rq_body r = rq_body req" "GCSFake_handle r f = (resp, f')"
        "GCS_send g tag m u b ct f = (Inr resp, f')"
proof (cases "GCS_authHeader g f")
  case (Pair a f1)
  have f1: "f1 = f" and err: "isl a \<Longrightarrow> \<exists>tf. gc_TokenFunc (g_cfg g) = Some tf \<and> isl (fst (tf f))"
    using gcs_auth_pure [OF assms(1) Pair] by blast+
  obtain now where now: "g_client g = gcs_fake_net now"
    using assms(1) by (auto simp: gcs_wired_def)
  show thesis
  proof (cases a)
    case (Inl e)
    with Pair f1 err assms(2) show thesis by (intro token) (auto simp: GCS_send_def)
  next
    case (Inr auth)
    define r1 where "r1 = (case ct of None \<Rightarrow> req | Some t \<Rightarrow> set_header ''Content-Type'' t req)"
    define r where "r = (if auth \<noteq> [] then set_header ''Authorization'' auth r1 else r1)"
    have same: "rq_method r = rq_method req" "rq_url r = rq_url req" "rq_body r = rq_body req"
      by (auto simp: r_def r1_def split: option.splits)
    obtain resp f' where h: "GCSFake_handle r f = (resp, f')" by fastforce
    have "GCS_send g tag m u b ct f = (Inr resp, f')"
      using Pair Inr f1 assms(2) h
      by (simp add: GCS_send_def now gcs_fake_net_def r_def [symmetric] r1_def [symmetric])
    with same h show thesis by (rule sent)
  qed
qed

definition gcs_token_ok :: "'w GCSBackend \<Rightarrow> bool" where
  "gcs_token_ok g \<longleftrightarrow> (\<forall>tf. gc_TokenFunc (g_cfg g) = Some tf \<longrightarrow> (\<forall>w. \<not> isl (fst (tf w))))"

lemma gcs_send_object:
  assumes g: "gcs_wired g" and m: "m \<noteq> ''POST''"
    and u: "u = GCS_objectURL g o1 \<and> q = [] \<or> u = GCS_mediaURL g o1 \<and> q = ''alt=media''"
  obtains (token) e where "GCS_send g tag m u b ct f = (Inl e, f)" "\<not> gcs_token_ok g"
    | (sent) r resp f' where "rq_method r = m" "u_rawquery (rq_url r) = q"
        "GCSFake_object (gc_Bucket (g_cfg g)) o1 r (f\<lparr>gf_requests := gf_requests f @ [observe r]\<rparr>) =
           (resp, f')"
        "GCS_send g tag m u b ct f = (Inr resp, f')"
proof -
  obtain sch auth host where base: "base_parts (GCS_baseURL g) sch auth host"
    using g by (auto simp: gcs_wired_def)
  have bk: "list_all unreserved (gc_Bucket (g_cfg g))" using g by (simp add: gcs_wired_def)
  obtain req where req: "new_request m u b = Inr req" "rq_method req = m" "rq_body req = b"
    "u_path (rq_url req) = ''/storage/v1/b/'' @ gc_Bucket (g_cfg g) @ ''/o/'' @ o1"
    "u_rawquery (rq_url req) = q"
    using u gcs_new_request_object [OF base bk, of m o1 b] by blast
  from g req(1) show thesis
  proof (cases rule: gcs_send_fake [where tag = tag and ct = ct and f = f])
    case (token e)
    then show thesis using that(1) by (auto simp: gcs_token_ok_def)
  next
    case (sent r resp f')
    have "GCSFake_handle r f =
        GCSFake_object (gc_Bucket (g_cfg g)) o1 r (f\<lparr>gf_requests := gf_requests f @ [observe r]\<rparr>)"
      using sent(1,2) req m by (intro handle_object unreserved_bucket(2) [OF bk]) simp_all
    with sent req show thesis by (intro that(2)) simp_all
  qed
qed

lemma GCS_Push_step:
  assumes g: "gcs_wired g" and p: "GCS_Push k g c d f = (r, f')"
  shows "gf_overrides f' = gf_overrides f"
    and "gf_objects f' = gf_objects f \<or> gf_objects f' = (gf_objects f)(gcs_key k g c := Some d)"
    and "gf_PushStatus f = 0 \<Longrightarrow> gcs_token_ok g \<or> r = None \<Longrightarrow>
           r = None \<and> gf_objects f' = (gf_objects f)(gcs_key k g c := Some d)"
proof -
  obtain sch auth host where base: "base_parts (GCS_baseURL g) sch auth host"
    using g by (auto simp: gcs_wired_def)
  have bk: "list_all unreserved (gc_Bucket (g_cfg g))" using g by (simp add: gcs_wired_def)
  let ?o = "GCS_objectPath k g c"
  obtain req where req: "new_request ''POST'' (GCS_apiURL g ?o) (Some d) = Inr req"
    "rq_method req = ''POST''" "rq_body req = Some d"
    "u_path (rq_url req) = ''/upload/storage/v1/b/'' @ gc_Bucket (g_cfg g) @ ''/o''"
    "u_rawquery (rq_url req) = ''uploadType=media&name='' @ query_escape ?o"
    using gcs_new_request_upload [OF base bk, of "''POST''" ?o "Some d"] by blast
  have "gf_overrides f' = gf_overrides f \<and>
    (gf_objects f' = gf_objects f \<or> gf_objects f' = (gf_objects f)(gcs_key k g c := Some d)) \<and>
    (gf_PushStatus f = 0 \<longrightarrow> gcs_token_ok g \<or> r = None \<longrightarrow>
       r = None \<and> gf_objects f' = (gf_objects f)(gcs_key k g c := Some d))"
    using g req(1)
  proof (cases rule: gcs_send_fake [where tag = "''gcs/push''" and ct = "Some ''application/octet-stream''" and f = f])
    case (token e)
    then show ?thesis using p by (auto simp: GCS_Push_def gcs_token_ok_def)
  next
    case (sent r1 resp f1)
    have "rq_method r1 = ''POST''"
      "u_path (rq_url r1) = ''/upload/storage/v1/b/'' @ gc_Bucket (g_cfg g) @ ''/o''"
      "u_rawquery (rq_url r1) = ''uploadType=media&name='' @ query_escape ?o" "rq_body r1 = Some d"
      using sent(1-3) req by simp_all
    note h = handle_upload [OF this sent(4), folded gcs_key_def]
    have "f' = f1" "rs_status resp = 200 \<Longrightarrow> r = None"
      using p sent(5) by (auto simp: GCS_Push_def split: if_splits)
    with h show ?thesis by (cases "gf_PushStatus f = 0") simp_all
  qed
  then show "gf_overrides f' = gf_overrides f"
    and "gf_objects f' = gf_objects f \<or> gf_objects f' = (gf_objects f)(gcs_key k g c := Some d)"
    and "gf_PushStatus f = 0 \<Longrightarrow> gcs_token_ok g \<or> r = None \<Longrightarrow>
           r = None \<and> gf_objects f' = (gf_objects f)(gcs_key k g c := Some d)"
    by blast+
qed

lemma GCS_Fetch_step:
  assumes g: "gcs_wired g" and p: "GCS_Fetch k g c f = (q, f')"
  shows "gf_overrides f' = gf_overrides f \<and> gf_objects f' = gf_objects f"
    and "q = Inr d \<Longrightarrow> gf_FetchStatus f \<noteq> 200 \<Longrightarrow> gcs_contents k g f c = Some d"
    and "gf_FetchStatus f = 0 \<Longrightarrow> gcs_token_ok g \<Longrightarrow>
           q = (case gcs_contents k g f c of None \<Rightarrow> Inl (Sentinel ErrContentNotFound) | Some d \<Rightarrow> Inr d)"
proof -
  have m: "''GET'' \<noteq> ''POST''" by simp
  let ?u = "GCS_mediaURL g (GCS_objectPath k g c)"
  have u: "?u = GCS_objectURL g (GCS_objectPath k g c) \<and> ''alt=media'' = [] \<or>
           ?u = GCS_mediaURL g (GCS_objectPath k g c) \<and> ''alt=media'' = ''alt=media''" by simp
  from g m u have "gf_overrides f' = gf_overrides f \<and> gf_objects f' = gf_objects f \<and>
    (q = Inr d \<longrightarrow> gf_FetchStatus f \<noteq> 200 \<longrightarrow> gcs_contents k g f c = Some d) \<and>
    (gf_FetchStatus f = 0 \<longrightarrow> gcs_token_ok g \<longrightarrow>
       q = (case gcs_contents k g f c of None \<Rightarrow> Inl (Sentinel ErrContentNotFound) | Some d \<Rightarrow> Inr d))"
  proof (cases rule: gcs_send_object [where tag = "''gcs/fetch''" and ct = None and b = None and f = f])
    case (token e)
    then show ?thesis using p by (auto simp: GCS_Fetch_def)
  next
    case (sent r resp f1)
    then show ?thesis using p
      by (auto simp: GCS_Fetch_def GCSFake_object_def query_get_alt_media gcs_contents_def
          gcs_key_def read_all_def Let_def split: if_splits option.splits)
  qed
  then show "gf_overrides f' = gf_overrides f \<and> gf_objects f' = gf_objects f"
    and "q = Inr d \<Longrightarrow> gf_FetchStatus f \<noteq> 200 \<Longrightarrow> gcs_contents k g f c = Some d"
    and "gf_FetchStatus f = 0 \<Longrightarrow> gcs_token_ok g \<Longrightarrow>
           q = (case gcs_contents k g f c of None \<Rightarrow> Inl (Sentinel ErrContentNotFound) | Some d \<Rightarrow> Inr d)"
    by blast+
qed

lemma query_get_Nil: "query_get [] a = []"
  by (simp add: query_get_def query_pairs_def List.map_filter_def)

lemma gcs_send_metadata:
  assumes "gcs_wired g" "m \<noteq> ''POST''"
  obtains (token) e where "GCS_send g tag m (GCS_objectURL g o1) b ct f = (Inl e, f)" "\<not> gcs_token_ok g"
    | (sent) r resp f' where "rq_method r = m" "u_rawquery (rq_url r) = []"
        "GCSFake_object (gc_Bucket (g_cfg g)) o1 r (f\<lparr>gf_requests := gf_requests f @ [observe r]\<rparr>) =
           (resp, f')"
        "GCS_send g tag m (GCS_objectURL g o1) b ct f = (Inr resp, f')"
proof -
  have u: "GCS_objectURL g o1 = GCS_objectURL g o1 \<and> [] = [] \<or>
           GCS_objectURL g o1 = GCS_mediaURL g o1 \<and> [] = ''alt=media''" by simp
  show thesis
    by (rule gcs_send_object [OF assms u, of tag b ct f]) (erule that, assumption)+
qed

lemma GCS_Exists_step:
  assumes g: "gcs_wired g" and p: "GCS_Exists k g c f = (b, f')"
  shows "gf_overrides f' = gf_overrides f \<and> gf_objects f' = gf_objects f \<and>
    (b = Inr True \<longrightarrow> gf_ExistsStatus f \<noteq> 200 \<longrightarrow> gcs_contents k g f c \<noteq> None) \<and>
    (gf_ExistsStatus f = 0 \<longrightarrow> gcs_token_ok g \<longrightarrow> b = Inr (gcs_contents k g f c \<noteq> None))"
proof -
  have m: "''GET'' \<noteq> ''POST''" by simp
  from g m show ?thesis
  proof (cases rule: gcs_send_metadata [where tag = "''gcs/exists''" and ct = None and b = None and
        f = f and ?o1.0 = "GCS_objectPath k g c"])
    case (token e)
    then show ?thesis using p by (auto simp: GCS_Exists_def)
  next
    case (sent r resp f1)
    then show ?thesis using p
      by (auto simp: GCS_Exists_def GCSFake_object_def query_get_Nil gcs_contents_def
          gcs_key_def Let_def split: if_splits option.splits)
  qed
qed

lemma GCS_Pin_step:
  assumes g: "gcs_wired g" and p: "GCS_Pin k g c f = (r, f')"
  shows "gf_overrides f' = gf_overrides f \<and> gf_objects f' = gf_objects f \<and>
    (gf_PinStatus f = 0 \<longrightarrow> gcs_token_ok g \<longrightarrow>
       r = (if gcs_contents k g f c = None then Some (Sentinel ErrContentNotFound) else None))"
proof -
  have m: "''PATCH'' \<noteq> ''POST''" by simp
  from g m show ?thesis
  proof (cases rule: gcs_send_metadata [where tag = "''gcs/pin''" and ct = "Some ''application/json''" and
        b = "Some (str_bytes GCS_pin_body)" and f = f and ?o1.0 = "GCS_objectPath k g c"])
    case (token e)
    then show ?thesis using p by (auto simp: GCS_Pin_def)
  next
    case (sent r1 resp f1)
    then show ?thesis using p
      by (auto simp: GCS_Pin_def GCSFake_object_def gcs_contents_def
          gcs_key_def Let_def split: if_splits option.splits)
  qed
qed

lemma GCS_Delete_step:
  assumes g: "gcs_wired g" and p: "GCS_Delete k g c f = (r, f')"
  shows "gf_overrides f' = gf_overrides f \<and>
    (gf_objects f' = gf_objects f \<or> gf_objects f' = (gf_objects f)(gcs_key k g c := None)) \<and>
    (gf_DeleteStatus f = 0 \<longrightarrow> gcs_token_ok g \<longrightarrow>
       r = None \<and> gf_objects f' = (gf_objects f)(gcs_key k g c := None))"
proof -
  have m: "''DELETE'' \<noteq> ''POST''" by simp
  from g m show ?thesis
  proof (cases rule: gcs_send_metadata [where tag = "''gcs/delete''" and ct = None and
        b = None and f = f and ?o1.0 = "GCS_objectPath k g c"])
    case (token e)
    then show ?thesis using p by (auto simp: GCS_Delete_def)
  next
    case (sent r1 resp f1)
    then show ?thesis using p
      by (auto simp: GCS_Delete_def GCSFake_object_def
          gcs_key_def Let_def split: if_splits)
  qed
qed

lemma GCS_Resolve_step:
  assumes g: "gcs_wired g" and p: "GCS_Resolve k g c e f = (v, f')"
  shows "f' = f"
proof (cases "gc_URLSigner (g_cfg g)")
  case None
  with p show ?thesis by (simp add: GCS_Resolve_def)
next
  case (Some sign)
  have "snd (sign (gc_Bucket (g_cfg g)) (GCS_objectPath k g c) e f) = f"
    using g Some by (simp add: gcs_wired_def)
  with Some p show ?thesis
    by (auto simp: GCS_Resolve_def split: prod.splits sum.splits)
qed

lemma handle_get_pure:
  assumes "rq_method r = ''GET''" "GCSFake_handle r f = (resp, f')"
  shows "gf_overrides f' = gf_overrides f \<and> gf_objects f' = gf_objects f"
  using assms
  by (auto simp: GCSFake_handle_def GCSFake_object_def Let_def split: if_splits list.splits option.splits)

lemma GCS_Healthy_step:
  assumes g: "gcs_wired g" and p: "GCS_Healthy g f = (h, f')"
  shows "gf_overrides f' = gf_overrides f \<and> gf_objects f' = gf_objects f \<and> (\<exists>x. h = Returns x) \<and>
    (gcs_token_ok g \<longrightarrow> (h = Returns None \<longleftrightarrow> gf_HealthyStatus f \<in> {0, 200}))"
proof -
  let ?b = "gc_Bucket (g_cfg g)"
  obtain sch auth host where base: "base_parts (GCS_baseURL g) sch auth host"
    using g by (auto simp: gcs_wired_def)
  have bk: "list_all unreserved ?b" using g by (simp add: gcs_wired_def)
  note ub = unreserved_bucket [OF bk]
  obtain now where now: "g_client g = gcs_fake_net now"
    using g by (auto simp: gcs_wired_def)
  have lit: "list_all plain_url_char ''/storage/v1/b/''"
    by (simp add: plain_url_char_def is_ctl_def)
  have hp: "has_prefix (''/storage/v1/b/'' @ ?b) ''/''"
    and pl: "list_all plain_url_char (''/storage/v1/b/'' @ ?b)"
    and un: "unescape False (''/storage/v1/b/'' @ ?b) = Some (''/storage/v1/b/'' @ ?b)"
    using ub lit by (simp, simp only: list_all_append, simp)
  obtain req where req: "new_request ''GET'' (GCS_baseURL g @ ''/storage/v1/b/'' @ ?b) None = Inr req"
    "rq_method req = ''GET''" "u_path (rq_url req) = ''/storage/v1/b/'' @ ?b"
    using parse_url_base [OF base hp pl un, of "[]" False] by (simp add: new_request_def)
  obtain a f1 where a: "GCS_authHeader g f = (a, f1)" by fastforce
  note au = gcs_auth_pure [OF g a]
  show ?thesis
  proof (cases a)
    case (Inl e)
    with a au p show ?thesis by (auto simp: GCS_Healthy_def gcs_token_ok_def)
  next
    case (Inr auth)
    define r where "r = (if auth \<noteq> [] then set_header ''Authorization'' auth req else req)"
    have r: "rq_method r = ''GET''" "u_path (rq_url r) = ''/storage/v1/b/'' @ ?b"
      using req by (simp_all add: r_def)
    obtain resp f2 where h: "GCSFake_handle r f = (resp, f2)" by fastforce
    have tp: "trim_prefix (''/storage/v1/b/'' @ ?b) ''/storage/v1/b/'' = ?b" by (rule trim_prefix_append)
    have nc: "\<not> contains ?b ''/o''" using cut_absent [OF ub(2)] by (simp add: contains_def)
    have hp2: "has_prefix (''/storage/v1/b/'' @ ?b) ''/storage/v1/b/''" by (rule has_prefix_append)
    have "rs_status resp = (if gf_HealthyStatus f = 0 then 200 else gf_HealthyStatus f)"
      using h unfolding GCSFake_handle_def r tp Let_def
      using nc hp2 by (auto split: if_splits)
    then show ?thesis
      using p Inr a au req(1) h handle_get_pure [OF r(1) h]
      by (auto simp: GCS_Healthy_def now gcs_fake_net_def r_def [symmetric] split: if_splits)
  qed
qed

section \<open>The contracts hold\<close>

text \<open>The fake may refuse any operation, but it does not answer 200 to a read it refuses.\<close>

definition gcs_inv :: "sdk \<Rightarrow> (cid \<Rightarrow> bool) \<Rightarrow> GCSFake GCSBackend \<Rightarrow> GCSFake \<Rightarrow> bool" where
  "gcs_inv k reg g f \<longleftrightarrow>
     gcs_wired g \<and> cid_codec k reg \<and> gf_FetchStatus f \<noteq> 200 \<and> gf_ExistsStatus f \<noteq> 200"

text \<open>The fake is up: no overrides, and the token function delivers tokens.\<close>

definition gcs_up :: "sdk \<Rightarrow> (cid \<Rightarrow> bool) \<Rightarrow> GCSFake GCSBackend \<Rightarrow> GCSFake \<Rightarrow> bool" where
  "gcs_up k reg g f \<longleftrightarrow>
     gcs_wired g \<and> cid_codec k reg \<and> gcs_token_ok g \<and> gf_overrides f = [0, 0, 0, 0, 0, 0]"

lemma GCS_provider_sel [simp]:
  "bp_Push (GCS_provider k g) = GCS_Push k g" "bp_Fetch (GCS_provider k g) = GCS_Fetch k g"
  "bp_Pin (GCS_provider k g) = GCS_Pin k g" "bp_Exists (GCS_provider k g) = GCS_Exists k g"
  "bp_Delete (GCS_provider k g) = GCS_Delete k g" "bp_Resolve (GCS_provider k g) = GCS_Resolve k g"
  "bp_Healthy (GCS_provider k g) = GCS_Healthy g"
  by (simp_all add: GCS_provider_def)

lemma gcs_inv_frame:
  "gcs_inv k reg g f \<Longrightarrow> gf_overrides f' = gf_overrides f \<Longrightarrow> gcs_inv k reg g f'"
  by (auto simp: gcs_inv_def dest: gf_overrides_eqD)

lemma gcs_up_frame:
  "gcs_up k reg g f \<Longrightarrow> gf_overrides f' = gf_overrides f \<Longrightarrow> gcs_up k reg g f'"
  by (simp add: gcs_up_def)

lemma gcs_contents_update:
  assumes "cid_codec k reg" "reg c" "gf_objects f' = (gf_objects f)(gcs_key k g c := x)"
  shows "agree reg (gcs_contents k g f') ((gcs_contents k g f)(c := x))"
  using assms by (auto simp: agree_def gcs_contents_def gcs_key_inject)

lemma gcs_contents_same:
  "gf_objects f' = gf_objects f \<Longrightarrow> gcs_contents k g f' = gcs_contents k g f"
  by (auto simp: gcs_contents_def)

lemma gcs_upD:
  assumes "gcs_up k reg g f"
  shows "gcs_wired g" "cid_codec k reg" "gcs_token_ok g" "gf_PushStatus f = 0" "gf_FetchStatus f = 0"
    "gf_ExistsStatus f = 0" "gf_PinStatus f = 0" "gf_DeleteStatus f = 0" "gf_HealthyStatus f = 0"
  using assms by (auto simp: gcs_up_def gf_overrides_def)

interpretation gcs: reliable_store "GCS_provider k g" "gcs_up k reg g" "gcs_contents k g" reg for k reg g
proof (unfold_locales, goal_cases)
  case (1 s c d r s')
  note up = gcs_upD [OF 1(1)]
  from 1 have p: "GCS_Push k g c d s = (r, s')" by simp
  note st = GCS_Push_step [OF up(1) p]
  have "r = None \<and> gf_objects s' = (gf_objects s)(gcs_key k g c := Some d)"
    using st(3) up by blast
  with st(1) show ?case
    using gcs_contents_update [OF up(2) 1(2)] gcs_up_frame [OF 1(1)] by blast
next
  case (2 s c q s')
  note up = gcs_upD [OF 2(1)]
  from 2 have p: "GCS_Fetch k g c s = (q, s')" by simp
  note st = GCS_Fetch_step [OF up(1) p]
  show ?case
    using st(1) st(3) [OF up(5,3)] gcs_up_frame [OF 2(1)] gcs_contents_same [of s' s k g] by simp
next
  case (3 s c b s')
  note up = gcs_upD [OF 3(1)]
  from 3 have p: "GCS_Exists k g c s = (b, s')" by simp
  from GCS_Exists_step [OF up(1) p] show ?case
    using up gcs_up_frame [OF 3(1)] gcs_contents_same [of s' s k g] by simp
next
  case (4 s c r s')
  note up = gcs_upD [OF 4(1)]
  from 4 have p: "GCS_Pin k g c s = (r, s')" by simp
  from GCS_Pin_step [OF up(1) p] show ?case
    using up gcs_up_frame [OF 4(1)] gcs_contents_same [of s' s k g] by simp
next
  case (5 s c r s')
  note up = gcs_upD [OF 5(1)]
  from 5 have p: "GCS_Delete k g c s = (r, s')" by simp
  from GCS_Delete_step [OF up(1) p] show ?case
    using up gcs_up_frame [OF 5(1)] gcs_contents_update [OF up(2) 5(2)] by blast
next
  case (6 s c e v s')
  note up = gcs_upD [OF 6(1)]
  from 6 have p: "GCS_Resolve k g c e s = (v, s')" by simp
  from GCS_Resolve_step [OF up(1) p] 6 show ?case by simp
next
  case (7 s h s')
  note up = gcs_upD [OF 7(1)]
  from 7 have p: "GCS_Healthy g s = (h, s')" by simp
  from GCS_Healthy_step [OF up(1) p] show ?case
    using gcs_up_frame [OF 7(1)] gcs_contents_same [of s' s k g] by simp
qed

interpretation gcs_any: object_store "GCS_provider k g" "gcs_inv k reg g"
  "\<lambda>f c. set_option (gcs_contents k g f c)" reg for k reg g
proof (unfold_locales, goal_cases)
  case (1 s c d r s')
  then have w: "gcs_wired g" "cid_codec k reg" by (simp_all add: gcs_inv_def)
  from 1 have p: "GCS_Push k g c d s = (r, s')" by simp
  note st = GCS_Push_step [OF w(1) p]
  have "agree reg (gcs_contents k g s') ((gcs_contents k g s)(c := Some d)) \<or>
        gcs_contents k g s' = gcs_contents k g s"
    using st(2) gcs_contents_update [OF w(2) 1(2)] gcs_contents_same by blast
  then show ?case
    using gcs_inv_frame [OF 1(1) st(1)] by (auto simp: below_def agree_def)
next
  case (2 s c q s')
  then have w: "gcs_wired g" "gf_FetchStatus s \<noteq> 200" by (simp_all add: gcs_inv_def)
  from 2 have p: "GCS_Fetch k g c s = (q, s')" by simp
  note st = GCS_Fetch_step [OF w(1) p]
  show ?case
    using st(1) st(2) w(2) gcs_inv_frame [OF 2(1)] gcs_contents_same [of s' s k g] by simp
next
  case (3 s c b s')
  then have w: "gcs_wired g" "gf_ExistsStatus s \<noteq> 200" by (simp_all add: gcs_inv_def)
  from 3 have p: "GCS_Exists k g c s = (b, s')" by simp
  from GCS_Exists_step [OF w(1) p] show ?case
    using w(2) gcs_inv_frame [OF 3(1)] gcs_contents_same [of s' s k g] by auto
next
  case (4 s c r s')
  then have w: "gcs_wired g" by (simp add: gcs_inv_def)
  from 4 have p: "GCS_Pin k g c s = (r, s')" by simp
  from GCS_Pin_step [OF w p] show ?case
    using gcs_inv_frame [OF 4(1)] gcs_contents_same [of s' s k g] by simp
next
  case (5 s c r s')
  then have w: "gcs_wired g" "cid_codec k reg" by (simp_all add: gcs_inv_def)
  from 5 have p: "GCS_Delete k g c s = (r, s')" by simp
  note st = GCS_Delete_step [OF w(1) p]
  have "agree reg (gcs_contents k g s') ((gcs_contents k g s)(c := None)) \<or>
        gcs_contents k g s' = gcs_contents k g s"
    using st gcs_contents_update [OF w(2) 5(2)] gcs_contents_same by blast
  then show ?case
    using gcs_inv_frame [OF 5(1)] st by (auto simp: below_def agree_def split: if_splits)
next
  case (6 s c e v s')
  then have w: "gcs_wired g" by (simp add: gcs_inv_def)
  from 6 have p: "GCS_Resolve k g c e s = (v, s')" by simp
  from GCS_Resolve_step [OF w p] 6 show ?case by simp
next
  case (7 s h s')
  then have w: "gcs_wired g" by (simp add: gcs_inv_def)
  from 7 have p: "GCS_Healthy g s = (h, s')" by simp
  from GCS_Healthy_step [OF w p] show ?case
    using gcs_inv_frame [OF 7(1)] gcs_contents_same [of s' s k g] by simp
qed

end
