(* ===== verification/Backend_Rustfs.thy ===== *)
theory Backend_Rustfs
  imports Store_Types
begin

text \<open>
  \<open>backends/rustfs.go\<close>: the S3-protocol backend. The request signer rewrites the request it
  is given or fails; the URL signer mints presigned URLs. A nil signer is \<^const>\<open>None\<close>.
\<close>

type_synonym 'w request_signer = "http_request \<Rightarrow> 'w \<Rightarrow> (goerr + http_request) \<times> 'w"

record 'w RustFSConfig =
  rf_Endpoint :: string
  rf_Bucket :: string
  rf_Region :: string
  rf_Prefix :: string
  rf_PathStyle :: bool
  rf_RequestSigner :: "'w request_signer option"
  rf_URLSigner :: "(string \<Rightarrow> string \<Rightarrow> duration \<Rightarrow> 'w \<Rightarrow> (goerr + string) \<times> 'w) option"

record 'w RustFSBackend =
  r_cfg :: "'w RustFSConfig"
  r_client :: "'w net"

definition RustFS_objectURL :: "sdk \<Rightarrow> 'w RustFSBackend \<Rightarrow> cid \<Rightarrow> string" where
  "RustFS_objectURL k b c =
     (let key = rf_Prefix (r_cfg b) @ sdk_String k c in
      if rf_PathStyle (r_cfg b)
      then rf_Endpoint (r_cfg b) @ ''/'' @ rf_Bucket (r_cfg b) @ ''/'' @ key
      else let endpoint = rf_Endpoint (r_cfg b) @ ''/'' @ rf_Bucket (r_cfg b)
           in endpoint @ ''/'' @ key)"

definition RustFS_signRequest ::
  "'w RustFSBackend \<Rightarrow> http_request \<Rightarrow> 'w \<Rightarrow> (goerr + http_request) \<times> 'w" where
  "RustFS_signRequest b req w =
     (case rf_RequestSigner (r_cfg b) of None \<Rightarrow> (Inr req, w) | Some sign \<Rightarrow> sign req w)"

text \<open>
  The steps every operation starts with: build the request, set its content type and
  length, sign it and send it, each failure wrapped under the operation's tag.
\<close>

definition RustFS_send ::
  "'w RustFSBackend \<Rightarrow> string \<Rightarrow> string \<Rightarrow> string \<Rightarrow> bytes option \<Rightarrow> string option \<Rightarrow> 'w \<Rightarrow>
   (goerr + http_response) \<times> 'w" where
  "RustFS_send b tag m u d ctype w =
     (case new_request m u d of
        Inl e \<Rightarrow> (Inl (Errorf [Lit (tag @ '': ''), Wrp e]), w)
      | Inr req \<Rightarrow>
          (case RustFS_signRequest b
                  (case ctype of None \<Rightarrow> req | Some t \<Rightarrow> set_header ''Content-Type'' t req) w of
             (Inl e, w1) \<Rightarrow> (Inl (Errorf [Lit (tag @ '': sign: ''), Wrp e]), w1)
           | (Inr req1, w1) \<Rightarrow>
               (case net_do (r_client b) req1 w1 of
                  (Inl e, w2) \<Rightarrow> (Inl (Errorf [Lit (tag @ '': ''), Wrp e]), w2)
                | (Inr resp, w2) \<Rightarrow> (Inr resp, w2))))"

definition RustFS_Push :: "sdk \<Rightarrow> 'w RustFSBackend \<Rightarrow> cid \<Rightarrow> bytes \<Rightarrow> 'w \<Rightarrow> goerr option \<times> 'w" where
  "RustFS_Push k b c d w =
     (case RustFS_send b ''rustfs/push'' ''PUT'' (RustFS_objectURL k b c) (Some d)
             (Some ''application/octet-stream'') w of
        (Inl e, w1) \<Rightarrow> (Some e, w1)
      | (Inr resp, w1) \<Rightarrow>
          (if rs_status resp \<noteq> 200 \<and> rs_status resp \<noteq> 201
           then (Some (Errorf [Lit (''rustfs/push: HTTP '' @ itoa (int (rs_status resp)))]), w1)
           else (None, w1)))"

definition RustFS_Fetch :: "sdk \<Rightarrow> 'w RustFSBackend \<Rightarrow> cid \<Rightarrow> 'w \<Rightarrow> (goerr + bytes) \<times> 'w" where
  "RustFS_Fetch k b c w =
     (case RustFS_send b ''rustfs/fetch'' ''GET'' (RustFS_objectURL k b c) None None w of
        (Inl e, w1) \<Rightarrow> (Inl e, w1)
      | (Inr resp, w1) \<Rightarrow>
          (if rs_status resp = 404 \<or> rs_status resp = 403 then (Inl (Sentinel ErrContentNotFound), w1)
           else if rs_status resp \<noteq> 200
           then (Inl (Errorf [Lit (''rustfs/fetch: HTTP '' @ itoa (int (rs_status resp)) @ '': '' @
                                   error_body resp)]), w1)
           else (case read_all (rs_body resp) of
                   (d, None) \<Rightarrow> (Inr d, w1)
                 | (d, Some e) \<Rightarrow> (Inl e, w1))))"

definition RustFS_Exists :: "sdk \<Rightarrow> 'w RustFSBackend \<Rightarrow> cid \<Rightarrow> 'w \<Rightarrow> (goerr + bool) \<times> 'w" where
  "RustFS_Exists k b c w =
     (case RustFS_send b ''rustfs/exists'' ''HEAD'' (RustFS_objectURL k b c) None None w of
        (Inl e, w1) \<Rightarrow> (Inl e, w1)
      | (Inr resp, w1) \<Rightarrow> (Inr (rs_status resp = 200), w1))"

definition RustFS_pin_body :: string where
  "RustFS_pin_body =
     ''<?xml version='' @ [CHR 0x22] @ ''1.0'' @ [CHR 0x22] @ '' encoding='' @ [CHR 0x22] @ ''UTF-8'' @
     [CHR 0x22] @ ''?><Tagging><TagSet><Tag><Key>ortholog-pinned</Key><Value>true</Value></Tag></TagSet></Tagging>''"

definition RustFS_Pin :: "sdk \<Rightarrow> 'w RustFSBackend \<Rightarrow> cid \<Rightarrow> 'w \<Rightarrow> goerr option \<times> 'w" where
  "RustFS_Pin k b c w =
     (case RustFS_send b ''rustfs/pin'' ''PUT'' (RustFS_objectURL k b c @ ''?tagging'')
             (Some (str_bytes RustFS_pin_body)) (Some ''application/xml'') w of
        (Inl e, w1) \<Rightarrow> (Some e, w1)
      | (Inr resp, w1) \<Rightarrow>
          (if rs_status resp = 404 then (Some (Sentinel ErrContentNotFound), w1) else (None, w1)))"

definition RustFS_Delete :: "sdk \<Rightarrow> 'w RustFSBackend \<Rightarrow> cid \<Rightarrow> 'w \<Rightarrow> goerr option \<times> 'w" where
  "RustFS_Delete k b c w =
     (case RustFS_send b ''rustfs/delete'' ''DELETE'' (RustFS_objectURL k b c) None None w of
        (Inl e, w1) \<Rightarrow> (Some e, w1)
      | (Inr resp, w1) \<Rightarrow>
          (if rs_status resp < 200 \<or> 300 \<le> rs_status resp
           then (Some (Errorf [Lit (''rustfs/delete: HTTP '' @ itoa (int (rs_status resp)) @ '': '' @
                                    error_body resp)]), w1)
           else (None, w1)))"

definition RustFS_Resolve ::
  "sdk \<Rightarrow> 'w RustFSBackend \<Rightarrow> cid \<Rightarrow> duration \<Rightarrow> 'w \<Rightarrow> (goerr + RetrievalCredential) \<times> 'w" where
  "RustFS_Resolve k b c expiry w =
     (case rf_URLSigner (r_cfg b) of
        None \<Rightarrow> (Inl (Errorf [Lit ''rustfs/resolve: no URL signer configured'']), w)
      | Some sign \<Rightarrow>
          (case sign (rf_Bucket (r_cfg b)) (rf_Prefix (r_cfg b) @ sdk_String k c) expiry w of
             (Inl e, w1) \<Rightarrow> (Inl (Errorf [Lit ''rustfs/resolve: '', Wrp e]), w1)
           | (Inr u, w1) \<Rightarrow>
               (Inr \<lparr>rc_Method = sdk_MethodSignedURL k, rc_URL = u,
                     rc_Expiry = Some (time_add (net_now (r_client b) w1) expiry)\<rparr>, w1)))"

text \<open>As in the GCS backend, the error of \<open>http.NewRequest\<close> is dropped.\<close>

definition RustFS_Healthy :: "sdk \<Rightarrow> 'w RustFSBackend \<Rightarrow> 'w \<Rightarrow> goerr option outcome \<times> 'w" where
  "RustFS_Healthy k b w =
     (let u = (if rf_PathStyle (r_cfg b) then rf_Endpoint (r_cfg b) @ ''/'' @ rf_Bucket (r_cfg b)
               else RustFS_objectURL k b zero_cid)
      in case new_request ''HEAD'' u None of
           Inl e \<Rightarrow> (Panics ''nil request'', w)
         | Inr req \<Rightarrow>
             (case RustFS_signRequest b req w of
                (Inl e, w1) \<Rightarrow> (Returns (Some (Errorf [Lit ''rustfs/health: sign: '', Wrp e])), w1)
              | (Inr req1, w1) \<Rightarrow>
                  (case net_do (r_client b) req1 w1 of
                     (Inl e, w2) \<Rightarrow> (Returns (Some (Errorf [Lit ''rustfs/health: '', Wrp e])), w2)
                   | (Inr resp, w2) \<Rightarrow>
                       (if 500 \<le> rs_status resp
                        then (Returns (Some (Errorf [Lit (''rustfs/health: HTTP '' @
                                itoa (int (rs_status resp)))])), w2)
                        else (Returns None, w2)))))"

definition RustFS_provider :: "sdk \<Rightarrow> 'w RustFSBackend \<Rightarrow> 'w BackendProvider" where
  "RustFS_provider k b =
     \<lparr>bp_Push = RustFS_Push k b, bp_Fetch = RustFS_Fetch k b, bp_Pin = RustFS_Pin k b,
      bp_Exists = RustFS_Exists k b, bp_Delete = RustFS_Delete k b, bp_Resolve = RustFS_Resolve k b,
      bp_Healthy = RustFS_Healthy k b\<rparr>"

lemma RustFS_provider_sel [simp]:
  "bp_Push (RustFS_provider k b) = RustFS_Push k b" "bp_Fetch (RustFS_provider k b) = RustFS_Fetch k b"
  "bp_Pin (RustFS_provider k b) = RustFS_Pin k b" "bp_Exists (RustFS_provider k b) = RustFS_Exists k b"
  "bp_Delete (RustFS_provider k b) = RustFS_Delete k b"
  "bp_Resolve (RustFS_provider k b) = RustFS_Resolve k b"
  "bp_Healthy (RustFS_provider k b) = RustFS_Healthy k b"
  by (simp_all add: RustFS_provider_def)

end
