(* ===== verification/Rustfs_Contract.thy ===== *)
theory Rustfs_Contract
  imports Backend_Rustfs Api_Server Http_Fakes
begin

text \<open>
  The RustFS backend against the S3 fake. The object key is not escaped, so the contract is
  proved for prefixes and CID strings whose characters need no escaping (those of the
  SDK's string form are letters, digits and a colon).
\<close>

definition s3_fake_net :: "time \<Rightarrow> S3Fake net" where
  "s3_fake_net now =
     \<lparr>net_do = (\<lambda>r f. case S3Fake_handle r f of (resp, f') \<Rightarrow> (Inr resp, f')),
      net_now = (\<lambda>_. now)\<rparr>"

definition plain_key :: "string \<Rightarrow> bool" where
  "plain_key s = list_all (\<lambda>c. plain_url_char c \<and> c \<noteq> CHR ''%'') s"

definition rustfs_key :: "sdk \<Rightarrow> 'w RustFSBackend \<Rightarrow> cid \<Rightarrow> string" where
  "rustfs_key k b c = rf_Prefix (r_cfg b) @ sdk_String k c"

text \<open>
  A usable configuration: an absolute endpoint, a plain bucket name, and signers that add
  headers only and do not touch the bucket.
\<close>

definition rustfs_wired :: "S3Fake RustFSBackend \<Rightarrow> bool" where
  "rustfs_wired b \<longleftrightarrow>
     (\<exists>now. r_client b = s3_fake_net now) \<and>
     (\<exists>sch auth host. base_parts (rf_Endpoint (r_cfg b)) sch auth host) \<and>
     plain_key (rf_Bucket (r_cfg b)) \<and> rf_Bucket (r_cfg b) \<noteq> [] \<and>
     CHR ''/'' \<notin> set (rf_Bucket (r_cfg b)) \<and> plain_key (rf_Prefix (r_cfg b)) \<and>
     (\<forall>sign. rf_RequestSigner (r_cfg b) = Some sign \<longrightarrow>
        (\<forall>r w. snd (sign r w) = w \<and>
           (\<forall>r'. fst (sign r w) = Inr r' \<longrightarrow>
              rq_method r' = rq_method r \<and> rq_url r' = rq_url r \<and> rq_body r' = rq_body r))) \<and>
     (\<forall>f. rf_URLSigner (r_cfg b) = Some f \<longrightarrow> (\<forall>b' p e w. snd (f b' p e w) = w))"

definition plain_cids :: "sdk \<Rightarrow> (cid \<Rightarrow> bool) \<Rightarrow> bool" where
  "plain_cids k reg \<longleftrightarrow>
     cid_codec k reg \<and> (\<forall>c. reg c \<longrightarrow> plain_key (sdk_String k c) \<and> sdk_String k c \<noteq> []) \<and>
     plain_key (sdk_String k zero_cid)"

definition rustfs_contents :: "sdk \<Rightarrow> 'w RustFSBackend \<Rightarrow> S3Fake \<Rightarrow> cid \<Rightarrow> bytes option" where
  "rustfs_contents k b f c = sf_objects f (rf_Bucket (r_cfg b) @ ''/'' @ rustfs_key k b c)"

lemma RustFS_objectURL_eq:
  "RustFS_objectURL k b c = rf_Endpoint (r_cfg b) @ ''/'' @ rf_Bucket (r_cfg b) @ ''/'' @ rustfs_key k b c"
  by (simp add: RustFS_objectURL_def rustfs_key_def Let_def)

lemma plain_key_append [simp]: "plain_key (a @ b) \<longleftrightarrow> plain_key a \<and> plain_key b"
  by (simp add: plain_key_def)

lemma plain_keyD:
  assumes "plain_key s"
  shows "list_all plain_url_char s" "unescape False s = Some s"
proof -
  show "list_all plain_url_char s" using assms by (auto simp: plain_key_def list_all_iff)
  have "CHR ''%'' \<notin> set s" using assms by (auto simp: plain_key_def list_all_iff)
  then show "unescape False s = Some s" by (rule unescape_plain)
qed

lemma rustfs_new_request:
  assumes base: "base_parts (rf_Endpoint (r_cfg b)) sch auth host"
    and bk: "plain_key (rf_Bucket (r_cfg b))" and key: "plain_key key"
  shows "\<exists>req. new_request m (rf_Endpoint (r_cfg b) @ ''/'' @ rf_Bucket (r_cfg b) @ ''/'' @ key) d = Inr req \<and>
      rq_method req = m \<and> rq_body req = d \<and>
      u_path (rq_url req) = ''/'' @ rf_Bucket (r_cfg b) @ ''/'' @ key \<and> u_rawquery (rq_url req) = []"
    and "\<exists>req. new_request m ((rf_Endpoint (r_cfg b) @ ''/'' @ rf_Bucket (r_cfg b) @ ''/'' @ key) @ ''?tagging'') d
        = Inr req \<and>
      rq_method req = m \<and> rq_body req = d \<and>
      u_path (rq_url req) = ''/'' @ rf_Bucket (r_cfg b) @ ''/'' @ key \<and> u_rawquery (rq_url req) = ''tagging''"
    and "\<exists>req. new_request m (rf_Endpoint (r_cfg b) @ ''/'' @ rf_Bucket (r_cfg b)) d = Inr req \<and>
      rq_method req = m \<and> rq_body req = d \<and>
      u_path (rq_url req) = ''/'' @ rf_Bucket (r_cfg b) \<and> u_rawquery (rq_url req) = []"
proof -
  have pk: "plain_key ''/''" by (simp add: plain_key_def plain_url_char_def is_ctl_def)
  let ?p = "''/'' @ rf_Bucket (r_cfg b) @ ''/'' @ key"
  let ?bp = "''/'' @ rf_Bucket (r_cfg b)"
  have "plain_key ?p" "plain_key ?bp" using bk key pk by (simp_all only: plain_key_append)
  note kd = plain_keyD [OF this(1)] plain_keyD [OF this(2)]
  have hp: "has_prefix ?p ''/''" "has_prefix ?bp ''/''" by simp_all
  have q: "CHR ''#'' \<notin> set ''tagging''" "\<not> list_ex is_ctl ''tagging''"
    "CHR ''#'' \<notin> set []" "\<not> list_ex is_ctl []"
    by (simp_all add: is_ctl_def)
  note pu = parse_url_base [OF base hp(1) kd(1,2)] and pu0 = parse_url_base [OF base hp(2) kd(3,4)]
  show "\<exists>req. new_request m (rf_Endpoint (r_cfg b) @ ''/'' @ rf_Bucket (r_cfg b) @ ''/'' @ key) d = Inr req \<and>
      rq_method req = m \<and> rq_body req = d \<and>
      u_path (rq_url req) = ''/'' @ rf_Bucket (r_cfg b) @ ''/'' @ key \<and> u_rawquery (rq_url req) = []"
    using pu [OF q(3,4), where hasq = False] by (simp add: new_request_def)
  show "\<exists>req. new_request m ((rf_Endpoint (r_cfg b) @ ''/'' @ rf_Bucket (r_cfg b) @ ''/'' @ key) @ ''?tagging'') d
        = Inr req \<and>
      rq_method req = m \<and> rq_body req = d \<and>
      u_path (rq_url req) = ''/'' @ rf_Bucket (r_cfg b) @ ''/'' @ key \<and> u_rawquery (rq_url req) = ''tagging''"
    using pu [OF q(1,2), where hasq = True] by (simp add: new_request_def)
  show "\<exists>req. new_request m (rf_Endpoint (r_cfg b) @ ''/'' @ rf_Bucket (r_cfg b)) d = Inr req \<and>
      rq_method req = m \<and> rq_body req = d \<and>
      u_path (rq_url req) = ''/'' @ rf_Bucket (r_cfg b) \<and> u_rawquery (rq_url req) = []"
    using pu0 [OF q(3,4), where hasq = False] by (simp add: new_request_def)
qed

lemma s3_handle_object:
  assumes "bk \<noteq> []" "CHR ''/'' \<notin> set bk" "u_path (rq_url r) = ''/'' @ bk @ ''/'' @ key"
  shows "S3Fake_handle r f =
    (let f1 = f\<lparr>sf_requests := sf_requests f @ [observe r]\<rparr> in
     if key = [] then (respond (if sf_HealthyStatus f \<noteq> 0 then sf_HealthyStatus f else 200) [], f1)
     else S3Fake_object (bk @ ''/'' @ key) r f1)"
proof -
  have tp: "trim_prefix (''/'' @ bk @ ''/'' @ key) ''/'' = bk @ ''/'' @ key" by (rule trim_prefix_append)
  have sp: "split_n2 (bk @ ''/'' @ key) ''/'' = [bk, key]"
    using cut_first [OF assms(2), of "[]" key] by (simp add: split_n2_def)
  have "bk @ ''/'' @ key \<noteq> []" by simp
  then show ?thesis
    unfolding S3Fake_handle_def assms(3) tp Let_def sp by simp
qed

lemma s3_handle_bucket:
  assumes "bk \<noteq> []" "CHR ''/'' \<notin> set bk" "u_path (rq_url r) = ''/'' @ bk"
  shows "S3Fake_handle r f =
     (respond (if sf_HealthyStatus f \<noteq> 0 then sf_HealthyStatus f else 200) [],
      f\<lparr>sf_requests := sf_requests f @ [observe r]\<rparr>)"
proof -
  have tp: "trim_prefix (''/'' @ bk) ''/'' = bk" by (rule trim_prefix_append)
  have sp: "split_n2 bk ''/'' = [bk]"
    using cut_absent [OF assms(2)] by (simp add: split_n2_def)
  show ?thesis
    unfolding S3Fake_handle_def assms(3) tp Let_def sp using assms(1) by simp
qed

section \<open>The operations against the fake\<close>

definition sf_overrides :: "S3Fake \<Rightarrow> nat list" where
  "sf_overrides f = [sf_PushStatus f, sf_FetchStatus f, sf_ExistsStatus f, sf_PinStatus f,
                     sf_DeleteStatus f, sf_HealthyStatus f]"

lemma sf_overrides_update [simp]:
  "sf_overrides (f\<lparr>sf_requests := x\<rparr>) = sf_overrides f"
  "sf_overrides (f\<lparr>sf_objects := y\<rparr>) = sf_overrides f"
  "sf_overrides (f\<lparr>sf_tags := z\<rparr>) = sf_overrides f"
  by (simp_all add: sf_overrides_def)

lemma sf_overrides_eqD:
  "sf_overrides f = sf_overrides f' \<Longrightarrow>
     sf_FetchStatus f = sf_FetchStatus f' \<and> sf_ExistsStatus f = sf_ExistsStatus f'"
  by (simp add: sf_overrides_def)

definition rustfs_sign_ok :: "'w RustFSBackend \<Rightarrow> bool" where
  "rustfs_sign_ok b \<longleftrightarrow>
     (\<forall>sign. rf_RequestSigner (r_cfg b) = Some sign \<longrightarrow> (\<forall>r w. \<not> isl (fst (sign r w))))"

lemma rustfs_sign_pure:
  assumes "rustfs_wired b" "RustFS_signRequest b req f = (a, f1)"
  shows "f1 = f"
    and "isl a \<Longrightarrow> \<not> rustfs_sign_ok b"
    and "a = Inr r \<Longrightarrow> rq_method r = rq_method req \<and> rq_url r = rq_url req \<and> rq_body r = rq_body req"
proof -
  have "f1 = f \<and> (isl a \<longrightarrow> \<not> rustfs_sign_ok b) \<and>
     (a = Inr r \<longrightarrow> rq_method r = rq_method req \<and> rq_url r = rq_url req \<and> rq_body r = rq_body req)"
  proof (cases "rf_RequestSigner (r_cfg b)")
    case None
    with assms(2) show ?thesis by (auto simp: RustFS_signRequest_def)
  next
    case (Some sign)
    have "snd (sign req f) = f"
      and same: "\<And>r'. fst (sign req f) = Inr r' \<Longrightarrow>
        rq_method r' = rq_method req \<and> rq_url r' = rq_url req \<and> rq_body r' = rq_body req"
      using assms(1) Some by (simp_all add: rustfs_wired_def)
    then have sr: "sign req f = (a, f)" "f1 = f"
      using Some assms(2) by (auto simp: RustFS_signRequest_def)
    then have "isl a \<Longrightarrow> \<not> rustfs_sign_ok b"
      using Some by (auto simp: rustfs_sign_ok_def intro!: exI [of _ req] exI [of _ f])
    with sr same [of r] show ?thesis by auto
  qed
  then show "f1 = f" "isl a \<Longrightarrow> \<not> rustfs_sign_ok b"
    "a = Inr r \<Longrightarrow> rq_method r = rq_method req \<and> rq_url r = rq_url req \<and> rq_body r = rq_body req"
    by blast+
qed

lemma rustfs_send_object:
  assumes b: "rustfs_wired b" and kc: "plain_key (sdk_String k c)" "sdk_String k c \<noteq> []"
    and u: "u = RustFS_objectURL k b c \<and> q = [] \<or> u = RustFS_objectURL k b c @ ''?tagging'' \<and> q = ''tagging''"
  obtains (unsigned) e where "RustFS_send b tag m u d ct f = (Inl e, f)" "\<not> rustfs_sign_ok b"
    | (sent) r resp f' where "rq_method r = m" "u_rawquery (rq_url r) = q" "rq_body r = d"
        "S3Fake_object (rf_Bucket (r_cfg b) @ ''/'' @ rustfs_key k b c) r
           (f\<lparr>sf_requests := sf_requests f @ [observe r]\<rparr>) = (resp, f')"
        "RustFS_send b tag m u d ct f = (Inr resp, f')"
proof -
  obtain sch auth host where base: "base_parts (rf_Endpoint (r_cfg b)) sch auth host"
    using b by (auto simp: rustfs_wired_def)
  have bk: "plain_key (rf_Bucket (r_cfg b))" "rf_Bucket (r_cfg b) \<noteq> []"
    "CHR ''/'' \<notin> set (rf_Bucket (r_cfg b))" "plain_key (rf_Prefix (r_cfg b))"
    using b by (simp_all add: rustfs_wired_def)
  have key: "plain_key (rustfs_key k b c)" "rustfs_key k b c \<noteq> []"
    using kc bk(4) by (simp_all add: rustfs_key_def)
  obtain now where now: "r_client b = s3_fake_net now"
    using b by (auto simp: rustfs_wired_def)
  obtain req where req: "new_request m u d = Inr req" "rq_method req = m" "rq_body req = d"
    "u_path (rq_url req) = ''/'' @ rf_Bucket (r_cfg b) @ ''/'' @ rustfs_key k b c"
    "u_rawquery (rq_url req) = q"
    using u rustfs_new_request(1,2) [OF base bk(1) key(1), of m d]
    unfolding RustFS_objectURL_eq by blast
  define req1 where "req1 = (case ct of None \<Rightarrow> req | Some t \<Rightarrow> set_header ''Content-Type'' t req)"
  have same1: "rq_method req1 = m" "rq_url req1 = rq_url req" "rq_body req1 = d"
    using req by (auto simp: req1_def split: option.splits)
  obtain a f1 where a: "RustFS_signRequest b req1 f = (a, f1)" by fastforce
  show thesis
  proof (cases a)
    case (Inl e)
    with rustfs_sign_pure(1,2) [OF b a] a req(1) show thesis
      by (intro that(1)) (auto simp: RustFS_send_def req1_def)
  next
    case (Inr r)
    have f1: "f1 = f" using rustfs_sign_pure(1) [OF b a] .
    have same: "rq_method r = m" "rq_url r = rq_url req" "rq_body r = d"
      using rustfs_sign_pure(3) [OF b a Inr] same1 by simp_all
    obtain resp f' where h: "S3Fake_handle r f = (resp, f')" by fastforce
    have "S3Fake_object (rf_Bucket (r_cfg b) @ ''/'' @ rustfs_key k b c) r
           (f\<lparr>sf_requests := sf_requests f @ [observe r]\<rparr>) = (resp, f')"
      using s3_handle_object [OF bk(2,3), of r "rustfs_key k b c" f] same(2) req(4) key(2) h
      by (simp add: Let_def)
    moreover have "RustFS_send b tag m u d ct f = (Inr resp, f')"
      using req(1) a Inr f1 h by (simp add: RustFS_send_def req1_def [symmetric] now s3_fake_net_def)
    ultimately show thesis
      using same req(5) by (intro that(2)) simp_all
  qed
qed

lemma rustfs_send_plain:
  assumes "rustfs_wired b" "plain_key (sdk_String k c)" "sdk_String k c \<noteq> []"
  obtains (unsigned) e where "RustFS_send b tag m (RustFS_objectURL k b c) d ct f = (Inl e, f)"
      "\<not> rustfs_sign_ok b"
    | (sent) r resp f' where "rq_method r = m" "u_rawquery (rq_url r) = []" "rq_body r = d"
        "S3Fake_object (rf_Bucket (r_cfg b) @ ''/'' @ rustfs_key k b c) r
           (f\<lparr>sf_requests := sf_requests f @ [observe r]\<rparr>) = (resp, f')"
        "RustFS_send b tag m (RustFS_objectURL k b c) d ct f = (Inr resp, f')"
proof -
  have u: "RustFS_objectURL k b c = RustFS_objectURL k b c \<and> [] = [] \<or>
      RustFS_objectURL k b c = RustFS_objectURL k b c @ ''?tagging'' \<and> [] = ''tagging''" by simp
  show thesis
    by (rule rustfs_send_object [OF assms u, of tag m d ct f]) (erule that, assumption+)+
qed

lemma query_get_Nil3: "query_get [] a = []" "\<not> has_suffix [] ''tagging''"
  by (simp_all add: query_get_def query_pairs_def List.map_filter_def has_suffix_def)

abbreviation s3_full_key :: "sdk \<Rightarrow> 'w RustFSBackend \<Rightarrow> cid \<Rightarrow> string" where
  "s3_full_key k b c \<equiv> rf_Bucket (r_cfg b) @ ''/'' @ rustfs_key k b c"

lemma RustFS_Push_step:
  assumes w: "rustfs_wired b" "plain_key (sdk_String k c)" "sdk_String k c \<noteq> []"
    and p: "RustFS_Push k b c d f = (r, f')"
  shows "sf_overrides f' = sf_overrides f \<and>
    (sf_objects f' = sf_objects f \<or> sf_objects f' = (sf_objects f)(s3_full_key k b c := Some d)) \<and>
    (sf_PushStatus f = 0 \<longrightarrow> rustfs_sign_ok b \<or> r = None \<longrightarrow>
       r = None \<and> sf_objects f' = (sf_objects f)(s3_full_key k b c := Some d))"
  using w
proof (cases rule: rustfs_send_plain [where tag = "''rustfs/push''" and m = "''PUT''" and d = "Some d" and
      ct = "Some ''application/octet-stream''" and f = f])
  case (unsigned e)
  then show ?thesis using p by (auto simp: RustFS_Push_def)
next
  case (sent r1 resp f1)
  have "f' = f1" using p sent(5) by (auto simp: RustFS_Push_def split: if_splits)
  with sent show ?thesis using p
    by (auto simp: RustFS_Push_def S3Fake_object_def query_get_Nil3 request_bytes_def split: if_splits)
qed

lemma RustFS_Fetch_step:
  assumes w: "rustfs_wired b" "plain_key (sdk_String k c)" "sdk_String k c \<noteq> []"
    and p: "RustFS_Fetch k b c f = (q, f')"
  shows "sf_overrides f' = sf_overrides f \<and> sf_objects f' = sf_objects f \<and>
    (\<forall>d. q = Inr d \<longrightarrow> sf_FetchStatus f \<noteq> 200 \<longrightarrow> rustfs_contents k b f c = Some d) \<and>
    (sf_FetchStatus f = 0 \<longrightarrow> rustfs_sign_ok b \<longrightarrow>
       q = (case rustfs_contents k b f c of None \<Rightarrow> Inl (Sentinel ErrContentNotFound) | Some d \<Rightarrow> Inr d))"
  using w
proof (cases rule: rustfs_send_plain [where tag = "''rustfs/fetch''" and m = "''GET''" and d = None and
      ct = None and f = f])
  case (unsigned e)
  then show ?thesis using p by (auto simp: RustFS_Fetch_def)
next
  case (sent r1 resp f1)
  then show ?thesis using p
    by (auto simp: RustFS_Fetch_def S3Fake_object_def query_get_Nil3 rustfs_contents_def read_all_def
        split: if_splits option.splits)
qed

lemma RustFS_Exists_step:
  assumes w: "rustfs_wired b" "plain_key (sdk_String k c)" "sdk_String k c \<noteq> []"
    and p: "RustFS_Exists k b c f = (e, f')"
  shows "sf_overrides f' = sf_overrides f \<and> sf_objects f' = sf_objects f \<and>
    (e = Inr True \<longrightarrow> sf_ExistsStatus f \<noteq> 200 \<longrightarrow> rustfs_contents k b f c \<noteq> None) \<and>
    (sf_ExistsStatus f = 0 \<longrightarrow> rustfs_sign_ok b \<longrightarrow> e = Inr (rustfs_contents k b f c \<noteq> None))"
  using w
proof (cases rule: rustfs_send_plain [where tag = "''rustfs/exists''" and m = "''HEAD''" and d = None and
      ct = None and f = f])
  case (unsigned x)
  then show ?thesis using p by (auto simp: RustFS_Exists_def)
next
  case (sent r1 resp f1)
  then show ?thesis using p
    by (auto simp: RustFS_Exists_def S3Fake_object_def query_get_Nil3 rustfs_contents_def
        split: if_splits option.splits)
qed

lemma RustFS_Delete_step:
  assumes w: "rustfs_wired b" "plain_key (sdk_String k c)" "sdk_String k c \<noteq> []"
    and p: "RustFS_Delete k b c f = (r, f')"
  shows "sf_overrides f' = sf_overrides f \<and>
    (sf_objects f' = sf_objects f \<or> sf_objects f' = (sf_objects f)(s3_full_key k b c := None)) \<and>
    (sf_DeleteStatus f = 0 \<longrightarrow> rustfs_sign_ok b \<longrightarrow>
       r = None \<and> sf_objects f' = (sf_objects f)(s3_full_key k b c := None))"
  using w
proof (cases rule: rustfs_send_plain [where tag = "''rustfs/delete''" and m = "''DELETE''" and d = None and
      ct = None and f = f])
  case (unsigned x)
  then show ?thesis using p by (auto simp: RustFS_Delete_def)
next
  case (sent r1 resp f1)
  have "f' = f1" using p sent(5) by (auto simp: RustFS_Delete_def split: if_splits)
  with sent show ?thesis using p
    by (auto simp: RustFS_Delete_def S3Fake_object_def query_get_Nil3 split: if_splits)
qed

text \<open>A server that refuses the delete: the error is reported and the object stays.\<close>

lemma RustFS_Delete_refused:
  assumes w: "rustfs_wired b" "plain_key (sdk_String k c)" "sdk_String k c \<noteq> []"
    and "rustfs_sign_ok b" "300 \<le> sf_DeleteStatus f"
  shows "\<exists>e f'. RustFS_Delete k b c f = (Some e, f') \<and> sf_overrides f' = sf_overrides f \<and>
    sf_objects f' = sf_objects f"
  using w
proof (cases rule: rustfs_send_plain [where tag = "''rustfs/delete''" and m = "''DELETE''" and d = None and
      ct = None and f = f])
  case (unsigned x)
  then show ?thesis using assms(4) by simp
next
  case (sent r1 resp f1)
  then show ?thesis using assms(5)
    by (auto simp: RustFS_Delete_def S3Fake_object_def query_get_Nil3 split: if_splits)
qed

lemma RustFS_Pin_step:
  assumes w: "rustfs_wired b" "plain_key (sdk_String k c)" "sdk_String k c \<noteq> []"
    and p: "RustFS_Pin k b c f = (r, f')"
  shows "sf_overrides f' = sf_overrides f \<and> sf_objects f' = sf_objects f \<and>
    (sf_PinStatus f = 0 \<longrightarrow> rustfs_sign_ok b \<longrightarrow>
       r = (if rustfs_contents k b f c = None then Some (Sentinel ErrContentNotFound) else None))"
proof -
  let ?u = "RustFS_objectURL k b c @ ''?tagging''"
  have u: "?u = RustFS_objectURL k b c \<and> ''tagging'' = [] \<or> ?u = ?u \<and> ''tagging'' = ''tagging''" by simp
  have hs: "has_suffix ''tagging'' ''tagging''" using has_suffix_append [of "[]" "''tagging''"] by simp
  from w u show ?thesis
  proof (cases rule: rustfs_send_object [where tag = "''rustfs/pin''" and m = "''PUT''" and
        d = "Some (str_bytes RustFS_pin_body)" and ct = "Some ''application/xml''" and f = f])
    case (unsigned x)
    then show ?thesis using p by (auto simp: RustFS_Pin_def)
  next
    case (sent r1 resp f1)
    then show ?thesis using p hs
      by (auto simp: RustFS_Pin_def S3Fake_object_def rustfs_contents_def split: if_splits option.splits)
  qed
qed

lemma RustFS_Resolve_step:
  assumes w: "rustfs_wired b" and p: "RustFS_Resolve k b c e f = (v, f')"
  shows "f' = f"
proof (cases "rf_URLSigner (r_cfg b)")
  case None
  with p show ?thesis by (simp add: RustFS_Resolve_def)
next
  case (Some sign)
  have "snd (sign (rf_Bucket (r_cfg b)) (rf_Prefix (r_cfg b) @ sdk_String k c) e f) = f"
    using w Some unfolding rustfs_wired_def by blast
  with Some p show ?thesis
    by (auto simp: RustFS_Resolve_def split: prod.splits sum.splits)
qed

lemma s3_head_pure:
  assumes "rq_method r = ''HEAD''" "u_rawquery (rq_url r) = []" "S3Fake_handle r f = (resp, f')"
  shows "sf_overrides f' = sf_overrides f \<and> sf_objects f' = sf_objects f"
  using assms
  by (auto simp: S3Fake_handle_def S3Fake_object_def query_get_Nil3 Let_def
      split: if_splits option.splits)

lemma RustFS_Healthy_step:
  assumes b: "rustfs_wired b" and z: "plain_key (sdk_String k zero_cid)"
    and p: "RustFS_Healthy k b f = (h, f')"
  shows "sf_overrides f' = sf_overrides f \<and> sf_objects f' = sf_objects f \<and> (\<exists>x. h = Returns x)"
    and "rf_PathStyle (r_cfg b) \<Longrightarrow> rustfs_sign_ok b \<Longrightarrow> h = Returns None \<longleftrightarrow> sf_HealthyStatus f < 500"
proof -
  let ?u = "if rf_PathStyle (r_cfg b) then rf_Endpoint (r_cfg b) @ ''/'' @ rf_Bucket (r_cfg b)
            else RustFS_objectURL k b zero_cid"
  obtain sch auth host where base: "base_parts (rf_Endpoint (r_cfg b)) sch auth host"
    using b by (auto simp: rustfs_wired_def)
  have bk: "plain_key (rf_Bucket (r_cfg b))" "rf_Bucket (r_cfg b) \<noteq> []"
    "CHR ''/'' \<notin> set (rf_Bucket (r_cfg b))" "plain_key (rf_Prefix (r_cfg b))"
    using b by (simp_all add: rustfs_wired_def)
  have key: "plain_key (rustfs_key k b zero_cid)" using z bk(4) by (simp add: rustfs_key_def)
  obtain now where now: "r_client b = s3_fake_net now"
    using b by (auto simp: rustfs_wired_def)
  obtain req where req: "new_request ''HEAD'' ?u None = Inr req" "rq_method req = ''HEAD''"
    "u_rawquery (rq_url req) = []"
    "rf_PathStyle (r_cfg b) \<longrightarrow> u_path (rq_url req) = ''/'' @ rf_Bucket (r_cfg b)"
    using rustfs_new_request(1,3) [OF base bk(1) key, of "''HEAD''" None]
    by (cases "rf_PathStyle (r_cfg b)") (auto simp: RustFS_objectURL_eq)
  obtain a f1 where a: "RustFS_signRequest b req f = (a, f1)" by fastforce
  have f1: "f1 = f" using rustfs_sign_pure(1) [OF b a] .
  have "(sf_overrides f' = sf_overrides f \<and> sf_objects f' = sf_objects f \<and> (\<exists>x. h = Returns x)) \<and>
    (rf_PathStyle (r_cfg b) \<longrightarrow> rustfs_sign_ok b \<longrightarrow> (h = Returns None \<longleftrightarrow> sf_HealthyStatus f < 500))"
  proof (cases a)
    case (Inl e)
    with rustfs_sign_pure(2) [OF b a] a f1 p req(1) show ?thesis
      by (auto simp: RustFS_Healthy_def)
  next
    case (Inr r)
    have r: "rq_method r = ''HEAD''" "rq_url r = rq_url req"
      using rustfs_sign_pure(3) [OF b a Inr] req by simp_all
    obtain resp f2 where h: "S3Fake_handle r f = (resp, f2)" by fastforce
    have pure: "sf_overrides f2 = sf_overrides f \<and> sf_objects f2 = sf_objects f"
      using s3_head_pure [OF r(1) _ h] r(2) req(3) by simp
    have st: "rf_PathStyle (r_cfg b) \<Longrightarrow>
        rs_status resp = (if sf_HealthyStatus f \<noteq> 0 then sf_HealthyStatus f else 200)"
      using s3_handle_bucket [OF bk(2,3), of r f] r(2) req(4) h by simp
    have "RustFS_Healthy k b f =
        (if 500 \<le> rs_status resp
         then (Returns (Some (Errorf [Lit (''rustfs/health: HTTP '' @ itoa (int (rs_status resp)))])), f2)
         else (Returns None, f2))"
      using req(1) a Inr f1 h by (simp add: RustFS_Healthy_def now s3_fake_net_def)
    with p pure st show ?thesis by (auto split: if_splits)
  qed
  then show "sf_overrides f' = sf_overrides f \<and> sf_objects f' = sf_objects f \<and> (\<exists>x. h = Returns x)"
    "rf_PathStyle (r_cfg b) \<Longrightarrow> rustfs_sign_ok b \<Longrightarrow> h = Returns None \<longleftrightarrow> sf_HealthyStatus f < 500"
    by blast+
qed

section \<open>The contracts hold\<close>

definition rustfs_inv :: "sdk \<Rightarrow> (cid \<Rightarrow> bool) \<Rightarrow> S3Fake RustFSBackend \<Rightarrow> S3Fake \<Rightarrow> bool" where
  "rustfs_inv k reg b f \<longleftrightarrow>
     rustfs_wired b \<and> plain_cids k reg \<and> sf_FetchStatus f \<noteq> 200 \<and> sf_ExistsStatus f \<noteq> 200"

definition rustfs_up :: "sdk \<Rightarrow> (cid \<Rightarrow> bool) \<Rightarrow> S3Fake RustFSBackend \<Rightarrow> S3Fake \<Rightarrow> bool" where
  "rustfs_up k reg b f \<longleftrightarrow>
     rustfs_wired b \<and> plain_cids k reg \<and> rustfs_sign_ok b \<and> sf_overrides f = [0, 0, 0, 0, 0, 0]"

lemma rustfs_inv_frame:
  "rustfs_inv k reg b f \<Longrightarrow> sf_overrides f' = sf_overrides f \<Longrightarrow> rustfs_inv k reg b f'"
  by (auto simp: rustfs_inv_def dest: sf_overrides_eqD)

lemma rustfs_up_frame:
  "rustfs_up k reg b f \<Longrightarrow> sf_overrides f' = sf_overrides f \<Longrightarrow> rustfs_up k reg b f'"
  by (simp add: rustfs_up_def)

lemma rustfs_contents_update:
  assumes "plain_cids k reg" "reg c" "sf_objects f' = (sf_objects f)(s3_full_key k b c := x)"
  shows "agree reg (rustfs_contents k b f') ((rustfs_contents k b f)(c := x))"
  using assms
  by (auto simp: agree_def rustfs_contents_def rustfs_key_def plain_cids_def cid_codec_inject)

lemma rustfs_contents_same:
  "sf_objects f' = sf_objects f \<Longrightarrow> rustfs_contents k b f' = rustfs_contents k b f"
  by (auto simp: rustfs_contents_def)

lemma rustfs_upD:
  assumes "rustfs_up k reg b f"
  shows "rustfs_wired b" "plain_cids k reg" "rustfs_sign_ok b" "sf_PushStatus f = 0"
    "sf_FetchStatus f = 0" "sf_ExistsStatus f = 0" "sf_PinStatus f = 0" "sf_DeleteStatus f = 0"
    "sf_HealthyStatus f = 0"
  using assms by (auto simp: rustfs_up_def sf_overrides_def)

lemma plain_cidsD:
  "plain_cids k reg \<Longrightarrow> reg c \<Longrightarrow> plain_key (sdk_String k c) \<and> sdk_String k c \<noteq> []"
  by (simp add: plain_cids_def)

interpretation rustfs: reliable_store "RustFS_provider k b" "rustfs_up k reg b" "rustfs_contents k b" reg
  for k reg b
proof (unfold_locales, goal_cases)
  case (1 s c d r s')
  note up = rustfs_upD [OF 1(1)] and kc = plain_cidsD [OF rustfs_upD(2) [OF 1(1)] 1(2)]
  from 1 have p: "RustFS_Push k b c d s = (r, s')" by simp
  from RustFS_Push_step [OF up(1) conjunct1 [OF kc] conjunct2 [OF kc] p] show ?case
    using up rustfs_contents_update [OF up(2) 1(2)] rustfs_up_frame [OF 1(1)] by blast
next
  case (2 s c q s')
  note up = rustfs_upD [OF 2(1)] and kc = plain_cidsD [OF rustfs_upD(2) [OF 2(1)] 2(2)]
  from 2 have p: "RustFS_Fetch k b c s = (q, s')" by simp
  from RustFS_Fetch_step [OF up(1) conjunct1 [OF kc] conjunct2 [OF kc] p] show ?case
    using up rustfs_contents_same [of s' s k b] rustfs_up_frame [OF 2(1)] by simp
next
  case (3 s c q s')
  note up = rustfs_upD [OF 3(1)] and kc = plain_cidsD [OF rustfs_upD(2) [OF 3(1)] 3(2)]
  from 3 have p: "RustFS_Exists k b c s = (q, s')" by simp
  from RustFS_Exists_step [OF up(1) conjunct1 [OF kc] conjunct2 [OF kc] p] show ?case
    using up rustfs_contents_same [of s' s k b] rustfs_up_frame [OF 3(1)] by simp
next
  case (4 s c r s')
  note up = rustfs_upD [OF 4(1)] and kc = plain_cidsD [OF rustfs_upD(2) [OF 4(1)] 4(2)]
  from 4 have p: "RustFS_Pin k b c s = (r, s')" by simp
  from RustFS_Pin_step [OF up(1) conjunct1 [OF kc] conjunct2 [OF kc] p] show ?case
    using up rustfs_contents_same [of s' s k b] rustfs_up_frame [OF 4(1)] by simp
next
  case (5 s c r s')
  note up = rustfs_upD [OF 5(1)] and kc = plain_cidsD [OF rustfs_upD(2) [OF 5(1)] 5(2)]
  from 5 have p: "RustFS_Delete k b c s = (r, s')" by simp
  from RustFS_Delete_step [OF up(1) conjunct1 [OF kc] conjunct2 [OF kc] p] show ?case
    using up rustfs_contents_update [OF up(2) 5(2)] rustfs_up_frame [OF 5(1)] by blast
next
  case (6 s c e v s')
  from 6 have p: "RustFS_Resolve k b c e s = (v, s')" by simp
  from RustFS_Resolve_step [OF rustfs_upD(1) [OF 6(1)] p] 6 show ?case by simp
next
  case (7 s h s')
  note up = rustfs_upD [OF 7(1)]
  from 7 have p: "RustFS_Healthy k b s = (h, s')" by simp
  have z: "plain_key (sdk_String k zero_cid)" using up(2) by (simp add: plain_cids_def)
  from RustFS_Healthy_step(1) [OF up(1) z p] show ?case
    using rustfs_contents_same [of s' s k b] rustfs_up_frame [OF 7(1)] by simp
qed

interpretation rustfs_any: object_store "RustFS_provider k b" "rustfs_inv k reg b"
  "\<lambda>f c. set_option (rustfs_contents k b f c)" reg for k reg b
proof (unfold_locales, goal_cases)
  case (1 s c d r s')
  then have w: "rustfs_wired b" "plain_cids k reg" by (simp_all add: rustfs_inv_def)
  note kc = plain_cidsD [OF w(2) 1(2)]
  from 1 have p: "RustFS_Push k b c d s = (r, s')" by simp
  note st = RustFS_Push_step [OF w(1) conjunct1 [OF kc] conjunct2 [OF kc] p]
  have "agree reg (rustfs_contents k b s') ((rustfs_contents k b s)(c := Some d)) \<or>
        rustfs_contents k b s' = rustfs_contents k b s"
    using st rustfs_contents_update [OF w(2) 1(2)] rustfs_contents_same by blast
  then show ?case
    using rustfs_inv_frame [OF 1(1)] st by (auto simp: below_def agree_def)
next
  case (2 s c q s')
  then have w: "rustfs_wired b" "plain_cids k reg" "sf_FetchStatus s \<noteq> 200" by (simp_all add: rustfs_inv_def)
  note kc = plain_cidsD [OF w(2) 2(2)]
  from 2 have p: "RustFS_Fetch k b c s = (q, s')" by simp
  from RustFS_Fetch_step [OF w(1) conjunct1 [OF kc] conjunct2 [OF kc] p] show ?case
    using w(3) rustfs_inv_frame [OF 2(1)] rustfs_contents_same [of s' s k b] by simp
next
  case (3 s c q s')
  then have w: "rustfs_wired b" "plain_cids k reg" "sf_ExistsStatus s \<noteq> 200" by (simp_all add: rustfs_inv_def)
  note kc = plain_cidsD [OF w(2) 3(2)]
  from 3 have p: "RustFS_Exists k b c s = (q, s')" by simp
  from RustFS_Exists_step [OF w(1) conjunct1 [OF kc] conjunct2 [OF kc] p] show ?case
    using w(3) rustfs_inv_frame [OF 3(1)] rustfs_contents_same [of s' s k b] by auto
next
  case (4 s c r s')
  then have w: "rustfs_wired b" "plain_cids k reg" by (simp_all add: rustfs_inv_def)
  note kc = plain_cidsD [OF w(2) 4(2)]
  from 4 have p: "RustFS_Pin k b c s = (r, s')" by simp
  from RustFS_Pin_step [OF w(1) conjunct1 [OF kc] conjunct2 [OF kc] p] show ?case
    using rustfs_inv_frame [OF 4(1)] rustfs_contents_same [of s' s k b] by simp
next
  case (5 s c r s')
  then have w: "rustfs_wired b" "plain_cids k reg" by (simp_all add: rustfs_inv_def)
  note kc = plain_cidsD [OF w(2) 5(2)]
  from 5 have p: "RustFS_Delete k b c s = (r, s')" by simp
  note st = RustFS_Delete_step [OF w(1) conjunct1 [OF kc] conjunct2 [OF kc] p]
  have "agree reg (rustfs_contents k b s') ((rustfs_contents k b s)(c := None)) \<or>
        rustfs_contents k b s' = rustfs_contents k b s"
    using st rustfs_contents_update [OF w(2) 5(2)] rustfs_contents_same by blast
  then show ?case
    using rustfs_inv_frame [OF 5(1)] st by (auto simp: below_def agree_def split: if_splits)
next
  case (6 s c e v s')
  then have w: "rustfs_wired b" by (simp add: rustfs_inv_def)
  from 6 have p: "RustFS_Resolve k b c e s = (v, s')" by simp
  from RustFS_Resolve_step [OF w p] 6 show ?case by simp
next
  case (7 s h s')
  then have w: "rustfs_wired b" "plain_cids k reg" by (simp_all add: rustfs_inv_def)
  from 7 have p: "RustFS_Healthy k b s = (h, s')" by simp
  have z: "plain_key (sdk_String k zero_cid)" using w(2) by (simp add: plain_cids_def)
  from RustFS_Healthy_step(1) [OF w(1) z p] show ?case
    using rustfs_inv_frame [OF 7(1)] rustfs_contents_same [of s' s k b] by simp
qed

end
