(* ===== verification/Mirrored_Deployment.thy ===== *)
theory Mirrored_Deployment
  imports Backend_Mirrored Backend_Memory Gcs_Contract Rustfs_Contract
begin

text \<open>
  The mirrored decorator over the two object stores the service ships with: a GCS primary
  and a RustFS mirror, each wired to its fake server.
\<close>

type_synonym gcs_rustfs = "(GCSFake, S3Fake) mirrored"

interpretation gr_any: mirrored_pair "GCS_provider k g" "gcs_inv k reg g"
  "\<lambda>f c. set_option (gcs_contents k g f c)" "RustFS_provider k b" "rustfs_inv k reg b"
  "\<lambda>f c. set_option (rustfs_contents k b f c)" reg for k reg g b
  by (intro mirrored_pair.intro gcs_any.object_store_axioms rustfs_any.object_store_axioms)

interpretation gr: mirrored_reliable "GCS_provider k g" "gcs_up k reg g" "gcs_contents k g"
  "RustFS_provider k b" "rustfs_up k reg b" "rustfs_contents k b" reg for k reg g b
  by (intro mirrored_reliable.intro gcs.reliable_store_axioms rustfs.reliable_store_axioms)

interpretation gr_primary: mirrored_primary_up "GCS_provider k g" "gcs_up k reg g" "gcs_contents k g" reg
  for k reg g
  by (intro mirrored_primary_up.intro gcs.reliable_store_axioms)

interpretation gr_mirror: mirrored_mirror_up "RustFS_provider k b" "rustfs_up k reg b"
  "rustfs_contents k b" reg for k reg b
  by (intro mirrored_mirror_up.intro rustfs.reliable_store_axioms)

end
