(* ===== verification/Instances.thy ===== *)
theory Instances
  imports Mirrored_Deployment
begin

text \<open>
  A concrete value for every parameter: a CID codec, a hash, a signature check, and the two
  backends wired to their fakes. They show that the hypotheses of the properties can hold
  and give the properties concrete inputs.
\<close>

section \<open>An SDK\<close>

definition demo_cid :: "bytes \<Rightarrow> cid" where
  "demo_cid d = \<lparr>Algorithm = 18, Digest = d\<rparr>"

definition demo_reg :: "cid \<Rightarrow> bool" where
  "demo_reg c \<longleftrightarrow> Algorithm c = 18"

definition demo_hash :: "bytes \<Rightarrow> bytes" where
  "demo_hash d = [of_nat (length d), sum_list d]"

definition demo_parse :: "string \<Rightarrow> goerr + cid" where
  "demo_parse s =
     (if take 7 s = ''sha256:'' then
        (case hex_decode (drop 7 s) of None \<Rightarrow> Inl (Foreign ''cid: bad hex'') | Some d \<Rightarrow> Inr (demo_cid d))
      else Inl (Foreign ''cid: unknown algorithm''))"

definition demo_sdk :: sdk where
  "demo_sdk =
     \<lparr>sdk_ParseCID = demo_parse, sdk_String = (\<lambda>c. ''sha256:'' @ hex_encode (Digest c)),
      sdk_Verify = (\<lambda>c d. Digest c = demo_hash d),
      sdk_ComputeWith = (\<lambda>d a. \<lparr>Algorithm = a, Digest = demo_hash d\<rparr>),
      sdk_Compute = (\<lambda>d. demo_cid (demo_hash d)),
      sdk_VerifyEd25519 = (\<lambda>pk m sg. if sg = pk then None else Some (Foreign ''ed25519: bad signature'')),
      sdk_MethodSignedURL = ''signed_url'',
      sdk_ErrorText = (\<lambda>e. case e of Foreign m \<Rightarrow> m | _ \<Rightarrow> ''error''),
      sdk_IsPrint = (\<lambda>_. True)\<rparr>"

lemma demo_sdk_sel [simp]:
  "sdk_ParseCID demo_sdk = demo_parse" "sdk_String demo_sdk c = ''sha256:'' @ hex_encode (Digest c)"
  "sdk_Verify demo_sdk c d = (Digest c = demo_hash d)"
  "sdk_VerifyEd25519 demo_sdk pk m sg = (if sg = pk then None else Some (Foreign ''ed25519: bad signature''))"
  "sdk_Compute demo_sdk d = demo_cid (demo_hash d)"
  "sdk_MethodSignedURL demo_sdk = ''signed_url''"
  by (simp_all add: demo_sdk_def)

lemma demo_codec: "cid_codec demo_sdk demo_reg"
  by (auto simp: cid_codec_def demo_parse_def demo_reg_def demo_cid_def split: if_splits option.splits)

lemma demo_reg_cid [simp]: "demo_reg (demo_cid d)"
  by (simp add: demo_reg_def demo_cid_def)

lemma demo_segment: "segment_cid (sdk_String demo_sdk c)"
  by (simp add: segment_cid_def)

lemma demo_parse_string: "demo_parse (''sha256:'' @ hex_encode d) = Inr (demo_cid d)"
  by (simp add: demo_parse_def)

section \<open>The backends\<close>

definition demo_gcs :: "GCSFake GCSBackend" where
  "demo_gcs =
     \<lparr>g_cfg = \<lparr>gc_Bucket = ''artifacts'', gc_Prefix = ''a b/'', gc_TokenFunc = None, gc_URLSigner = None,
               gc_BaseURL = ''http://gcs''\<rparr>,
      g_client = gcs_fake_net 0\<rparr>"

definition demo_rustfs :: "S3Fake RustFSBackend" where
  "demo_rustfs =
     \<lparr>r_cfg = \<lparr>rf_Endpoint = ''http://rustfs'', rf_Bucket = ''artifacts'', rf_Region = ''us-east-1'',
               rf_Prefix = ''v1/'', rf_PathStyle = True, rf_RequestSigner = None, rf_URLSigner = None\<rparr>,
      r_client = s3_fake_net 0\<rparr>"

lemma demo_base_gcs: "base_parts ''http://gcs'' ''http'' ''gcs'' ''gcs''"
  by code_simp

lemma demo_base_rustfs: "base_parts ''http://rustfs'' ''http'' ''rustfs'' ''rustfs''"
  by code_simp

lemma demo_unreserved: "list_all unreserved ''artifacts''"
  by code_simp

lemma demo_plain_keys: "plain_key ''artifacts''" "plain_key ''v1/''"
  by code_simp+

lemma demo_gcs_wired: "gcs_wired demo_gcs"
proof -
  have "GCS_baseURL demo_gcs = ''http://gcs''" by (simp add: GCS_baseURL_def demo_gcs_def)
  then have "\<exists>sch auth host. base_parts (GCS_baseURL demo_gcs) sch auth host"
    using demo_base_gcs by metis
  then show ?thesis
    using demo_unreserved unfolding gcs_wired_def by (simp add: demo_gcs_def) blast
qed

lemma demo_rustfs_wired: "rustfs_wired demo_rustfs"
proof -
  have "\<exists>sch auth host. base_parts (rf_Endpoint (r_cfg demo_rustfs)) sch auth host"
    using demo_base_rustfs by (simp add: demo_rustfs_def) blast
  then show ?thesis
    using demo_plain_keys unfolding rustfs_wired_def by (simp add: demo_rustfs_def) blast
qed

lemma hex_chars_plain: "x \<in> set hex_chars \<Longrightarrow> plain_url_char x \<and> x \<noteq> CHR ''%''"
  by (auto simp: hex_chars_def plain_url_char_def is_ctl_def)

lemma demo_plain_cids: "plain_cids demo_sdk demo_reg"
proof -
  have "plain_key (hex_encode d)" for d
    using set_hex_encode [of d] hex_chars_plain by (auto simp: plain_key_def list_all_iff)
  moreover have "plain_key ''sha256:''" by code_simp
  ultimately have "plain_key (''sha256:'' @ hex_encode d)" for d by (simp only: plain_key_append)
  then show ?thesis using demo_codec by (simp add: plain_cids_def)
qed

lemma demo_gcs_up: "gcs_up demo_sdk demo_reg demo_gcs NewGCSFake"
  using demo_gcs_wired demo_codec
  by (simp add: gcs_up_def gcs_token_ok_def demo_gcs_def NewGCSFake_def gf_overrides_def)

lemma demo_rustfs_up: "rustfs_up demo_sdk demo_reg demo_rustfs NewS3Fake"
  using demo_rustfs_wired demo_plain_cids
  by (simp add: rustfs_up_def rustfs_sign_ok_def demo_rustfs_def NewS3Fake_def sf_overrides_def)

lemma demo_gcs_inv: "gcs_inv demo_sdk demo_reg demo_gcs NewGCSFake"
  using demo_gcs_wired demo_codec by (simp add: gcs_inv_def NewGCSFake_def)

lemma demo_rustfs_inv: "rustfs_inv demo_sdk demo_reg demo_rustfs NewS3Fake"
  using demo_rustfs_wired demo_plain_cids by (simp add: rustfs_inv_def NewS3Fake_def)

section \<open>A store with one artifact\<close>

definition demo_d :: bytes where
  "demo_d = [1, 2, 3]"

definition demo_c :: cid where
  "demo_c = demo_cid (demo_hash demo_d)"

definition demo_store :: GCSFake where
  "demo_store = GCSFake_Put ''artifacts'' (GCS_objectPath demo_sdk demo_gcs demo_c) demo_d NewGCSFake"

definition demo_state :: gcs_rustfs where
  "demo_state = \<lparr>mi_primary = demo_store, mi_mirror = NewS3Fake, mi_log = []\<rparr>"

lemma demo_reg_c [simp]: "demo_reg demo_c"
  by (simp add: demo_c_def)

lemma demo_store_overrides: "gf_overrides demo_store = gf_overrides NewGCSFake"
  by (simp add: demo_store_def GCSFake_Put_def)

lemma demo_store_up: "gcs_up demo_sdk demo_reg demo_gcs demo_store"
  by (rule gcs_up_frame [OF demo_gcs_up demo_store_overrides])

lemma demo_store_inv: "gcs_inv demo_sdk demo_reg demo_gcs demo_store"
  by (rule gcs_inv_frame [OF demo_gcs_inv demo_store_overrides])

lemma demo_store_contents:
  "demo_reg c \<Longrightarrow> gcs_contents demo_sdk demo_gcs demo_store c = (if c = demo_c then Some demo_d else None)"
proof -
  assume c: "demo_reg c"
  have "gf_objects demo_store = (gf_objects NewGCSFake)(gcs_key demo_sdk demo_gcs demo_c := Some demo_d)"
    by (simp add: demo_store_def GCSFake_Put_def gcs_key_def demo_gcs_def)
  moreover have "gf_objects NewGCSFake x = None" for x by (simp add: NewGCSFake_def)
  ultimately show ?thesis
    using gcs_key_inject [OF demo_codec c demo_reg_c, of demo_gcs] by (simp add: gcs_contents_def)
qed

lemma demo_mirror_empty: "rustfs_contents demo_sdk demo_rustfs NewS3Fake c = None"
  by (simp add: rustfs_contents_def NewS3Fake_def)

lemma demo_state_intact:
  "intact demo_sdk demo_reg
     (\<lambda>c. set_option (gcs_contents demo_sdk demo_gcs (mi_primary demo_state) c) \<union>
          set_option (rustfs_contents demo_sdk demo_rustfs (mi_mirror demo_state) c))"
  by (auto simp: intact_def demo_state_def demo_store_contents demo_mirror_empty demo_c_def demo_cid_def
      split: if_splits)

abbreviation demo_bp :: "gcs_rustfs BackendProvider" where
  "demo_bp \<equiv> MirroredStore demo_sdk (GCS_provider demo_sdk demo_gcs) (RustFS_provider demo_sdk demo_rustfs)"

lemma demo_parse_c: "parseCIDFromPath demo_sdk (sdk_String demo_sdk demo_c) = Inr demo_c"
  by (simp add: parseCIDFromPath_def demo_parse_def demo_c_def demo_cid_def)

lemma demo_fetch: "\<exists>s'. Fetch_ServeHTTP demo_sdk demo_bp (sdk_String demo_sdk demo_c) demo_state = (ok_fetch demo_d, s')"
proof -
  obtain q p1 where f: "GCS_Fetch demo_sdk demo_gcs demo_c demo_store = (q, p1)" by fastforce
  have "q = Inr demo_d"
    using gcs.fetch_ok [OF demo_store_up demo_reg_c] f demo_store_contents [OF demo_reg_c] by auto
  with f show ?thesis
    unfolding Fetch_ServeHTTP_def demo_parse_c
    by (simp add: Mirrored_Fetch_def demo_state_def ok_fetch_def)
qed

definition demo_s3 :: S3Fake where
  "demo_s3 = S3Fake_Put ''artifacts'' (rustfs_key demo_sdk demo_rustfs demo_c) demo_d NewS3Fake"

lemma demo_s3_up: "rustfs_up demo_sdk demo_reg demo_rustfs demo_s3"
  by (rule rustfs_up_frame [OF demo_rustfs_up]) (simp add: demo_s3_def S3Fake_Put_def)

lemma demo_s3_contents: "rustfs_contents demo_sdk demo_rustfs demo_s3 demo_c = Some demo_d"
  by (simp add: rustfs_contents_def demo_s3_def S3Fake_Put_def demo_rustfs_def)

section \<open>An upload\<close>

text \<open>A one-key deployment, a token minted under its kid, and the upload that carries it.\<close>

definition keys_for :: "string \<Rightarrow> pubkeys" where
  "keys_for kid = [(kid, [7])]"

definition payload_for :: "string \<Rightarrow> UploadTokenPayload" where
  "payload_for kid = \<lparr>p_CID = sdk_String demo_sdk demo_c, p_Size = 3, p_Exp = 100, p_Iat = 0, p_Kid = kid\<rparr>"

definition token_for :: "string \<Rightarrow> string" where
  "token_for kid = token_of (marshal_payload (payload_for kid)) [7]"

definition cfg_for :: "string \<Rightarrow> ServerConfig" where
  "cfg_for kid =
     \<lparr>sc_VerifyOnPush = True, sc_MaxBodySize = 1024, sc_DefaultExpiry = seconds 3600,
      sc_UploadTokenVerifier = Some (Token_Verify demo_sdk (keys_for kid)),
      sc_UploadTokenPolicy = ''required''\<rparr>"

definition push_for :: "string \<Rightarrow> server_request" where
  "push_for kid = push_request (sdk_String demo_sdk demo_c) (token_for kid) demo_d"

lemma ascii_hex_encode: "ascii (hex_encode d)"
  using set_hex_encode [of d]
  by (force simp: ascii_def list_all_iff hex_chars_def code_def)

lemma payload_for_ascii:
  assumes "ascii kid"
  shows "ascii (p_CID (payload_for kid))" "ascii (p_Kid (payload_for kid))"
  using assms ascii_hex_encode by (simp_all add: payload_for_def ascii_def code_def)

lemma token_for_authorises:
  assumes "ascii kid"
  shows "token_authorises demo_sdk (keys_for kid) (token_for kid) (sdk_String demo_sdk demo_c) 3 50
           (payload_for kid)"
  using token_parts_of [OF marshal_payload_nonempty, of "[7]" "payload_for kid"]
    unmarshal_marshal_payload [OF payload_for_ascii [OF assms]]
  unfolding token_authorises_def token_for_def
  by (simp add: keys_for_def) (simp add: payload_for_def unix_def)

lemma token_for_ok:
  "ascii kid \<Longrightarrow>
     Token_Verify demo_sdk (keys_for kid) (token_for kid) (sdk_String demo_sdk demo_c) 3 50 = None"
  using token_for_authorises Token_Verify_accepts by blast

lemma token_for_nonempty: "token_for kid \<noteq> []"
  by (simp add: token_for_def token_of_def)

lemma demo_push_body: "read_all_limited (1024 + 1) (stream_of demo_d) = (demo_d, None)"
  by (simp add: read_all_limited_def demo_d_def)

lemma push_for_sel:
  "claimed_cid (push_for kid) = sdk_String demo_sdk demo_c" "upload_token (push_for kid) = token_for kid"
  by (simp_all only: push_for_def push_request_sel)

lemma demo_length: "(of_nat (length demo_d) :: int64) = 3"
  by (simp add: demo_d_def)

lemma push_for_admitted:
  assumes "ascii kid"
  shows "push_admitted demo_sdk (push_handler (cfg_for kid)) 50 (push_for kid) demo_c demo_d"
proof -
  have "token_admits (push_handler (cfg_for kid)) (push_for kid) 3 50"
    using token_for_ok [OF assms] token_for_nonempty
    by (simp add: token_admits_def push_handler_def cfg_for_def push_for_sel)
  then show ?thesis
    unfolding push_admitted_def demo_length
    using demo_push_body demo_parse_c
    by (simp add: push_for_def push_handler_def cfg_for_def parseCIDFromPath_def demo_c_def demo_cid_def)
qed

definition demo_keys :: pubkeys where
  "demo_keys = keys_for ''op''"

definition demo_cfg :: ServerConfig where
  "demo_cfg = cfg_for ''op''"

definition demo_push :: server_request where
  "demo_push = push_for ''op''"

lemma demo_cfg_sel [simp]:
  "sc_VerifyOnPush demo_cfg" "sc_UploadTokenPolicy demo_cfg = ''required''"
  "sc_UploadTokenVerifier demo_cfg = Some (Token_Verify demo_sdk demo_keys)"
  by (simp_all add: demo_cfg_def cfg_for_def demo_keys_def)

lemma demo_push_eq: "demo_push = push_request (sdk_String demo_sdk demo_c) (token_for ''op'') demo_d"
  by (simp add: demo_push_def push_for_def)

lemma demo_kid_ascii: "ascii ''op''" "ascii tokenRejected"
  by (simp_all add: ascii_def code_def tokenRejected_def)

lemma demo_push_admitted: "push_admitted demo_sdk (push_handler demo_cfg) 50 demo_push demo_c demo_d"
  unfolding demo_cfg_def demo_push_def by (rule push_for_admitted [OF demo_kid_ascii(1)])

lemma demo_no_collision: "\<not> kid_collides (push_handler demo_cfg) demo_push"
proof (rule no_collision)
  show "h_tokenVerifier (push_handler demo_cfg) = Some (Token_Verify demo_sdk demo_keys)"
    by (simp add: push_handler_def)
  show "map_of demo_keys tokenRejected = None"
    by (simp add: demo_keys_def keys_for_def tokenRejected_def)
  show "token_admits (push_handler demo_cfg) demo_push (of_nat (length demo_d)) 50"
    using demo_push_admitted by (simp add: push_admitted_def)
qed

end
