(* ===== verification/Ks_Internals.thy ===== *)
theory Ks_Internals
  imports Store_Types
begin

text \<open>
  What the key services share: \<open>keyservice/internals.go\<close>, and the state and environment of
  a service. The cryptographic primitives (AES-GCM, secp256k1, the SDK's ECIES wrap), the
  random source and the SDK's two size constants are the record \<open>keyenv\<close>; the primitives
  that draw randomness act on the same world as the service's backend.
\<close>

record 'w keyenv =
  ke_KeySize :: nat
  ke_NonceSize :: nat
  ke_Rand :: "nat \<Rightarrow> 'w \<Rightarrow> (goerr + bytes) \<times> 'w"
  ke_Seal :: "bytes \<Rightarrow> bytes \<Rightarrow> bytes \<Rightarrow> bytes"
  ke_Open :: "bytes \<Rightarrow> bytes \<Rightarrow> bytes \<Rightarrow> bytes option"
  ke_ParsePubKey :: "bytes \<Rightarrow> goerr + bytes"
  ke_EncryptForNode :: "bytes \<Rightarrow> bytes \<Rightarrow> 'w \<Rightarrow> (goerr + bytes) \<times> 'w"

text \<open>A service: its path cache, and the world its backend lives in.\<close>

record 'w ks_state =
  ks_cache :: "string set"
  ks_world :: 'w

definition aes_key_ok :: "bytes \<Rightarrow> bool" where
  "aes_key_ok key = (length key \<in> {16, 24, 32})"

definition gcm_nonce_size :: nat where
  "gcm_nonce_size = 12"

definition nonce_error :: "bytes \<Rightarrow> goerr" where
  "nonce_error nonce =
     Errorf [Lit (''keyservice: nonce length '' @ itoa (int (length nonce)) @ '', want '' @
       itoa (int gcm_nonce_size))]"

definition aesGCMSeal :: "'w keyenv \<Rightarrow> bytes \<Rightarrow> bytes \<Rightarrow> bytes \<Rightarrow> goerr + bytes" where
  "aesGCMSeal E key nonce plaintext =
     (if \<not> aes_key_ok key then Inl (Foreign ''aes.NewCipher'')
      else if length nonce \<noteq> gcm_nonce_size then Inl (nonce_error nonce)
      else Inr (ke_Seal E key nonce plaintext))"

definition aesGCMOpen :: "'w keyenv \<Rightarrow> bytes \<Rightarrow> bytes \<Rightarrow> bytes \<Rightarrow> goerr + bytes" where
  "aesGCMOpen E key nonce ciphertext =
     (if \<not> aes_key_ok key then Inl (Foreign ''aes.NewCipher'')
      else if length nonce \<noteq> gcm_nonce_size then Inl (nonce_error nonce)
      else case ke_Open E key nonce ciphertext of
             None \<Rightarrow> Inl (Foreign ''cipher: message authentication failed'')
           | Some pt \<Rightarrow> Inr pt)"

definition zeroize :: "bytes \<Rightarrow> bytes" where
  "zeroize b = replicate (length b) 0"

definition parseRecipientPubKey :: "'w keyenv \<Rightarrow> bytes \<Rightarrow> goerr + bytes" where
  "parseRecipientPubKey E data =
     (if data = [] then Inl (Errorf [Lit ''empty public key bytes''])
      else case ke_ParsePubKey E data of
             Inl e \<Rightarrow> Inl (Errorf [Lit (''invalid secp256k1 public key ('' @ itoa (int (length data)) @
                        '' bytes): ''), Wrp e])
           | Inr pub \<Rightarrow> Inr pub)"

text \<open>
  What the services rely on of their environment: an AES key size and the GCM nonce size,
  a random source that fills the buffer, and that opening undoes sealing.
\<close>

definition keyenv_ok :: "'w keyenv \<Rightarrow> bool" where
  "keyenv_ok E \<longleftrightarrow>
     ke_KeySize E \<in> {16, 24, 32} \<and> ke_NonceSize E = gcm_nonce_size \<and>
     (\<forall>n w b w'. ke_Rand E n w = (Inr b, w') \<longrightarrow> length b = n) \<and>
     (\<forall>key nonce pt. aes_key_ok key \<longrightarrow> length nonce = gcm_nonce_size \<longrightarrow>
        ke_Open E key nonce (ke_Seal E key nonce pt) = Some pt)"

text \<open>Key material is the key and the nonce in one string.\<close>

definition opens :: "'w keyenv \<Rightarrow> bytes \<Rightarrow> bytes \<Rightarrow> bytes option" where
  "opens E m ct =
     (if length m \<noteq> ke_KeySize E + ke_NonceSize E then None
      else case aesGCMOpen E (take (ke_KeySize E) m) (drop (ke_KeySize E) m) ct of
             Inl e \<Rightarrow> None | Inr pt \<Rightarrow> Some pt)"

lemma opens_seal:
  assumes "keyenv_ok E" "length key = ke_KeySize E" "length nonce = ke_NonceSize E"
    and "aesGCMSeal E key nonce pt = Inr ct"
  shows "opens E (key @ nonce) ct = Some pt"
  using assms
  by (auto simp: keyenv_ok_def opens_def aesGCMSeal_def aesGCMOpen_def split: if_splits)

lemma seal_ok:
  assumes "keyenv_ok E" "length key = ke_KeySize E" "length nonce = ke_NonceSize E"
  shows "aesGCMSeal E key nonce pt = Inr (ke_Seal E key nonce pt)"
  using assms by (auto simp: keyenv_ok_def aesGCMSeal_def aes_key_ok_def)

section \<open>Steps the services share\<close>

text \<open>
  Opening a ciphertext under unwrapped material, as both envelope services do it: \<open>tag\<close> is
  the prefix of the service's messages.
\<close>

definition open_material :: "'w keyenv \<Rightarrow> string \<Rightarrow> bytes \<Rightarrow> bytes \<Rightarrow> goerr + bytes" where
  "open_material E tag m ct =
     (if length m \<noteq> ke_KeySize E + ke_NonceSize E
      then Inl (Errorf [Lit (tag @ '': unwrapped material length '' @ itoa (int (length m)) @ '', want '' @
             itoa (int (ke_KeySize E + ke_NonceSize E)))])
      else case aesGCMOpen E (take (ke_KeySize E) m) (drop (ke_KeySize E) m) ct of
             Inl e \<Rightarrow> Inl (Errorf [Wrp (Sentinel ErrCiphertextMismatch), Lit '': '', Val e])
           | Inr pt \<Rightarrow> Inr pt)"

lemma open_material_Inr: "open_material E tag m ct = Inr pt \<longleftrightarrow> opens E m ct = Some pt"
  by (auto simp: open_material_def opens_def split: sum.splits)

text \<open>The length check and the parse that start every \<open>WrapForRecipient\<close>.\<close>

definition recipient :: "'w keyenv \<Rightarrow> bytes \<Rightarrow> goerr + bytes" where
  "recipient E pub =
     (if pub = [] then Inl (Sentinel ErrInvalidRecipientKey)
      else case parseRecipientPubKey E pub of
             Inl e \<Rightarrow> Inl (Errorf [Wrp (Sentinel ErrInvalidRecipientKey), Lit '': '', Val e])
           | Inr p \<Rightarrow> Inr p)"

lemma recipient_error: "recipient E pub = Inl e \<Longrightarrow> errors_is e ErrInvalidRecipientKey"
  by (auto simp: recipient_def split: if_splits sum.splits)

text \<open>Drawing a data key and a nonce.\<close>

definition draw_material :: "'w keyenv \<Rightarrow> string \<Rightarrow> 'w \<Rightarrow> (goerr + bytes \<times> bytes) \<times> 'w" where
  "draw_material E tag w =
     (case ke_Rand E (ke_KeySize E) w of
        (Inl e, w1) \<Rightarrow> (Inl (Errorf [Lit (tag @ '': rand: ''), Wrp e]), w1)
      | (Inr key, w1) \<Rightarrow>
          (case ke_Rand E (ke_NonceSize E) w1 of
             (Inl e, w2) \<Rightarrow> (Inl (Errorf [Lit (tag @ '': rand: ''), Wrp e]), w2)
           | (Inr nonce, w2) \<Rightarrow> (Inr (key, nonce), w2)))"

lemma draw_material_length:
  assumes "keyenv_ok E" "draw_material E tag w = (Inr (key, nonce), w')"
  shows "length key = ke_KeySize E \<and> length nonce = ke_NonceSize E"
  using assms by (auto simp: draw_material_def keyenv_ok_def split: prod.splits sum.splits)

text \<open>What holds of every world the random source leaves behind holds after the draw.\<close>

lemma draw_material_keeps:
  assumes "draw_material E tag w = (r, w')" "\<And>n w. P (snd (ke_Rand E n w)) = P w"
  shows "P w' = P w"
  using assms(1) assms(2) [of "ke_KeySize E" w] assms(2) [of "ke_NonceSize E" "snd (ke_Rand E (ke_KeySize E) w)"]
  by (auto simp: draw_material_def split: prod.splits sum.splits)

text \<open>A JSON response body: the first value of the stream.\<close>

definition decode_body :: "http_response \<Rightarrow> json option" where
  "decode_body resp = json_decode_prefix (bytes_str (st_data (rs_body resp)))"

text \<open>The text of an error body, capped at 4096 bytes and trimmed; a body that was closed is empty.\<close>

definition ks_error_body :: "http_response \<Rightarrow> string" where
  "ks_error_body resp = trim_space (bytes_str (fst (read_all_limited 4096 (rs_body resp))))"

definition close_body :: "http_response \<Rightarrow> http_response" where
  "close_body resp =
     resp\<lparr>rs_body := \<lparr>st_data = [], st_err = Some (Foreign ''http: read on closed response body'')\<rparr>\<rparr>"

text \<open>\<open>fmtVaultErr\<close> and \<open>fmtGCPErr\<close>: a server error carries the unavailable sentinel.\<close>

definition fmt_http_err :: "string \<Rightarrow> http_response \<Rightarrow> string \<Rightarrow> goerr" where
  "fmt_http_err tag resp op =
     (let text = op @ '' HTTP '' @ itoa (int (rs_status resp)) @ '': '' @ ks_error_body resp in
      if rs_status resp \<ge> 500
      then Errorf [Wrp (Sentinel ErrServiceUnavailable), Lit ('': '' @ text)]
      else Errorf [Lit (tag @ '': '' @ text)])"

lemma fmt_http_err_unavailable:
  "errors_is (fmt_http_err tag resp op) t \<longleftrightarrow> rs_status resp \<ge> 500 \<and> t = ErrServiceUnavailable"
  by (auto simp: fmt_http_err_def Let_def)

text \<open>
  Sending a request: \<open>do\<close> of both HTTP services, which differ in the header that
  authenticates.
\<close>

definition ks_do ::
  "string \<Rightarrow> (string \<times> string) option \<Rightarrow> 'w net \<Rightarrow> string \<Rightarrow> string \<Rightarrow> json option \<Rightarrow> 'w \<Rightarrow>
   (goerr + http_response) \<times> 'w" where
  "ks_do tag auth client m url body w =
     (case new_request m url (map_option (\<lambda>j. str_bytes (json_encode j)) body) of
        Inl e \<Rightarrow> (Inl (Errorf [Lit (tag @ '': new request: ''), Wrp e]), w)
      | Inr req \<Rightarrow>
          (let req1 = (case auth of None \<Rightarrow> req | Some (h, t) \<Rightarrow> set_header h t req);
               req2 = (if body \<noteq> None then set_header ''Content-Type'' ''application/json'' req1 else req1)
           in case net_do client req2 w of
                (Inl e, w1) \<Rightarrow> (Inl (Errorf [Wrp (Sentinel ErrServiceUnavailable), Lit '': '', Val e]), w1)
              | (Inr resp, w1) \<Rightarrow> (Inr resp, w1)))"

end
