(* ===== verification/Key_Custody.thy ===== *)
theory Key_Custody
  imports Ks_Internals
begin

text \<open>
  The contract the three key services share. \<open>ArtifactKeyService\<close> is the interface they
  implement; the locale states what each operation does to the key material the service
  holds (a map from the digest of a CID to a key and nonce), whatever the service's backend
  refuses, and what follows for rotation and for any sequence of calls.
\<close>

record 's ArtifactKeyService =
  as_GenerateAndEncrypt :: "bytes \<Rightarrow> 's \<Rightarrow> (goerr + cid \<times> bytes) \<times> 's"
  as_WrapForRecipient :: "cid \<Rightarrow> bytes \<Rightarrow> 's \<Rightarrow> (goerr + bytes) \<times> 's"
  as_Decrypt :: "cid \<Rightarrow> bytes \<Rightarrow> 's \<Rightarrow> (goerr + bytes) \<times> 's"
  as_Rotate :: "cid \<Rightarrow> bytes \<Rightarrow> 's \<Rightarrow> (cid \<times> bytes \<times> goerr option) \<times> 's"
  as_Delete :: "cid \<Rightarrow> 's \<Rightarrow> goerr option \<times> 's"

text \<open>
  \<open>Rotate\<close>, the same in the three services but for the tag of its last message: decrypt,
  encrypt under a new key, delete the old one. When only the deletion fails, the new CID and
  ciphertext are returned beside the error.
\<close>

definition rotate_with ::
  "string \<Rightarrow> (cid \<Rightarrow> bytes \<Rightarrow> 's \<Rightarrow> (goerr + bytes) \<times> 's) \<Rightarrow>
   (bytes \<Rightarrow> 's \<Rightarrow> (goerr + cid \<times> bytes) \<times> 's) \<Rightarrow> (cid \<Rightarrow> 's \<Rightarrow> goerr option \<times> 's) \<Rightarrow>
   cid \<Rightarrow> bytes \<Rightarrow> 's \<Rightarrow> (cid \<times> bytes \<times> goerr option) \<times> 's" where
  "rotate_with tag dec gen del old oldct s =
     (case dec old oldct s of
        (Inl e, s1) \<Rightarrow> ((zero_cid, [], Some e), s1)
      | (Inr pt, s1) \<Rightarrow>
          (case gen pt s1 of
             (Inl e, s2) \<Rightarrow> ((zero_cid, [], Some e), s2)
           | (Inr (c, ct), s2) \<Rightarrow>
               (case del old s2 of
                  (Some e, s3) \<Rightarrow>
                    ((c, ct, Some (Errorf [Lit (tag @ '': post-rotate delete old: ''), Wrp e])), s3)
                | (None, s3) \<Rightarrow> ((c, ct, None), s3))))"

section \<open>Calls\<close>

datatype ks_call =
    KGenerate bytes
  | KWrap cid bytes
  | KDecrypt cid bytes
  | KRotate cid bytes
  | KDelete cid

definition ks_step :: "'s ArtifactKeyService \<Rightarrow> ks_call \<Rightarrow> 's \<Rightarrow> 's" where
  "ks_step ks a s =
     (case a of
        KGenerate pt \<Rightarrow> snd (as_GenerateAndEncrypt ks pt s)
      | KWrap c pub \<Rightarrow> snd (as_WrapForRecipient ks c pub s)
      | KDecrypt c ct \<Rightarrow> snd (as_Decrypt ks c ct s)
      | KRotate c ct \<Rightarrow> snd (as_Rotate ks c ct s)
      | KDelete c \<Rightarrow> snd (as_Delete ks c s))"

fun ks_steps :: "'s ArtifactKeyService \<Rightarrow> ks_call list \<Rightarrow> 's \<Rightarrow> 's" where
  "ks_steps ks [] s = s"
| "ks_steps ks (a # as) s = ks_steps ks as (ks_step ks a s)"

text \<open>
  The digests of the keys a call may create and those it may remove. \<open>draws pt s\<close> is the
  ciphertext a call to \<open>GenerateAndEncrypt\<close> in state \<open>s\<close> computes, when it gets that far: its
  digest names the key that the call creates, and rolls back when a later step fails.
\<close>

definition drawn ::
  "(bytes \<Rightarrow> 's \<Rightarrow> bytes option) \<Rightarrow> (bytes \<Rightarrow> cid) \<Rightarrow> bytes \<Rightarrow> 's \<Rightarrow> bytes set" where
  "drawn draws cid_of pt s = (\<lambda>ct. Digest (cid_of ct)) ` set_option (draws pt s)"

definition creates ::
  "'s ArtifactKeyService \<Rightarrow> (bytes \<Rightarrow> 's \<Rightarrow> bytes option) \<Rightarrow> (bytes \<Rightarrow> cid) \<Rightarrow> ks_call \<Rightarrow> 's \<Rightarrow> bytes set" where
  "creates ks draws cid_of a s =
     (case a of
        KGenerate pt \<Rightarrow> drawn draws cid_of pt s
      | KRotate c ct \<Rightarrow>
          (case as_Decrypt ks c ct s of (Inl e, s1) \<Rightarrow> {} | (Inr pt, s1) \<Rightarrow> drawn draws cid_of pt s1)
      | _ \<Rightarrow> {})"

definition removes :: "ks_call \<Rightarrow> bytes set" where
  "removes a = (case a of KRotate c ct \<Rightarrow> {Digest c} | KDelete c \<Rightarrow> {Digest c} | _ \<Rightarrow> {})"

fun creates_in ::
  "'s ArtifactKeyService \<Rightarrow> (bytes \<Rightarrow> 's \<Rightarrow> bytes option) \<Rightarrow> (bytes \<Rightarrow> cid) \<Rightarrow> ks_call list \<Rightarrow> 's \<Rightarrow> bytes set" where
  "creates_in ks draws cid_of [] s = {}"
| "creates_in ks draws cid_of (a # as) s =
     creates ks draws cid_of a s \<union> creates_in ks draws cid_of as (ks_step ks a s)"

definition removes_in :: "ks_call list \<Rightarrow> bytes set" where
  "removes_in as = (\<Union>a \<in> set as. removes a)"

text \<open>A call is fresh when the digest it is about to use names no key yet.\<close>

definition fresh_key ::
  "(bytes \<Rightarrow> 's \<Rightarrow> bytes option) \<Rightarrow> ('s \<Rightarrow> bytes \<Rightarrow> bytes option) \<Rightarrow> (bytes \<Rightarrow> cid) \<Rightarrow> bytes \<Rightarrow> 's \<Rightarrow> bool" where
  "fresh_key draws mat cid_of pt s \<longleftrightarrow>
     (\<forall>ct. draws pt s = Some ct \<longrightarrow> mat s (Digest (cid_of ct)) = None)"

text \<open>
  Every call that creates a key meets a condition on its plaintext and state, which is
  freshness for a service that would keep two keys under one name.
\<close>

definition call_ok ::
  "'s ArtifactKeyService \<Rightarrow> (bytes \<Rightarrow> 's \<Rightarrow> bool) \<Rightarrow> ks_call \<Rightarrow> 's \<Rightarrow> bool" where
  "call_ok ks ok a s =
     (case a of
        KGenerate pt \<Rightarrow> ok pt s
      | KRotate c ct \<Rightarrow> (case as_Decrypt ks c ct s of (Inl e, s1) \<Rightarrow> True | (Inr pt, s1) \<Rightarrow> ok pt s1)
      | _ \<Rightarrow> True)"

fun calls_fine ::
  "'s ArtifactKeyService \<Rightarrow> (bytes \<Rightarrow> 's \<Rightarrow> bool) \<Rightarrow> ks_call list \<Rightarrow> 's \<Rightarrow> bool" where
  "calls_fine ks ok [] s = True"
| "calls_fine ks ok (a # as) s = (call_ok ks ok a s \<and> calls_fine ks ok as (ks_step ks a s))"

lemma calls_fine_True [simp]: "calls_fine ks (\<lambda>_ _. True) as s"
  by (induction as arbitrary: s) (auto simp: call_ok_def split: ks_call.splits sum.splits prod.splits)

section \<open>The contract\<close>

locale key_custody =
  fixes ks :: "'s ArtifactKeyService"
    and tag :: string
    and inv :: "'s \<Rightarrow> bool"
    and mat :: "'s \<Rightarrow> bytes \<Rightarrow> bytes option"
    and opn :: "bytes \<Rightarrow> bytes \<Rightarrow> bytes option"
    and cid_of :: "bytes \<Rightarrow> cid"
    and draws :: "bytes \<Rightarrow> 's \<Rightarrow> bytes option"
    and okd :: "bytes \<Rightarrow> 's \<Rightarrow> bool"
  assumes fresh_okd: "inv s \<Longrightarrow> fresh_key draws mat cid_of pt s \<Longrightarrow> okd pt s"
    and rotate: "as_Rotate ks = rotate_with tag (as_Decrypt ks) (as_GenerateAndEncrypt ks) (as_Delete ks)"
    and gen_inv: "inv s \<Longrightarrow> okd pt s \<Longrightarrow> inv (snd (as_GenerateAndEncrypt ks pt s))"
    and dec_inv: "inv s \<Longrightarrow> inv (snd (as_Decrypt ks c ct s))"
    and wrap_inv: "inv s \<Longrightarrow> inv (snd (as_WrapForRecipient ks c pub s))"
    and del_inv: "inv s \<Longrightarrow> inv (snd (as_Delete ks c s))"
    and gen_ok: "inv s \<Longrightarrow> okd pt s \<Longrightarrow> as_GenerateAndEncrypt ks pt s = (Inr (c, ct), s') \<Longrightarrow>
        draws pt s = Some ct \<and> c = cid_of ct \<and>
        (\<exists>m. mat s' = (mat s)(Digest c := Some m) \<and> opn m ct = Some pt)"
    and gen_other: "inv s \<Longrightarrow> okd pt s \<Longrightarrow> x \<notin> drawn draws cid_of pt s \<Longrightarrow>
        mat (snd (as_GenerateAndEncrypt ks pt s)) x = mat s x"
    and dec_mat: "inv s \<Longrightarrow> mat (snd (as_Decrypt ks c ct s)) = mat s"
    and dec_ok: "inv s \<Longrightarrow> as_Decrypt ks c ct s = (Inr pt, s') \<Longrightarrow>
        \<exists>m. mat s (Digest c) = Some m \<and> opn m ct = Some pt"
    and wrap_mat: "inv s \<Longrightarrow> mat (snd (as_WrapForRecipient ks c pub s)) = mat s"
    and wrap_ok: "inv s \<Longrightarrow> as_WrapForRecipient ks c pub s = (Inr env, s') \<Longrightarrow> mat s (Digest c) \<noteq> None"
    and del_ok: "inv s \<Longrightarrow> as_Delete ks c s = (None, s') \<Longrightarrow> mat s' (Digest c) = None"
    and del_any: "inv s \<Longrightarrow> mat (snd (as_Delete ks c s)) (Digest c) \<in> {mat s (Digest c), None}"
    and del_other: "inv s \<Longrightarrow> x \<noteq> Digest c \<Longrightarrow> mat (snd (as_Delete ks c s)) x = mat s x"
begin

abbreviation fresh :: "bytes \<Rightarrow> 's \<Rightarrow> bool" where
  "fresh \<equiv> fresh_key draws mat cid_of"

lemma gen_keeps:
  assumes "inv s" "fresh pt s" "mat s x \<noteq> None"
  shows "mat (snd (as_GenerateAndEncrypt ks pt s)) x = mat s x"
proof (rule gen_other [OF assms(1) fresh_okd [OF assms(1,2)]])
  show "x \<notin> drawn draws cid_of pt s"
    using assms(2,3) unfolding fresh_key_def drawn_def by (cases "draws pt s") auto
qed

text \<open>Without the key there is no plaintext and no envelope.\<close>

lemma erased_fails:
  assumes "inv s" "mat s (Digest c) = None"
  shows "\<exists>e. fst (as_Decrypt ks c ct s) = Inl e" "\<exists>e. fst (as_WrapForRecipient ks c pub s) = Inl e"
proof -
  show "\<exists>e. fst (as_Decrypt ks c ct s) = Inl e"
  proof (cases "fst (as_Decrypt ks c ct s)")
    case (Inr pt)
    then have "as_Decrypt ks c ct s = (Inr pt, snd (as_Decrypt ks c ct s))" by (simp add: prod_eq_iff)
    from dec_ok [OF assms(1) this] assms(2) show ?thesis by simp
  qed blast
  show "\<exists>e. fst (as_WrapForRecipient ks c pub s) = Inl e"
  proof (cases "fst (as_WrapForRecipient ks c pub s)")
    case (Inr env)
    then have "as_WrapForRecipient ks c pub s = (Inr env, snd (as_WrapForRecipient ks c pub s))"
      by (simp add: prod_eq_iff)
    from wrap_ok [OF assms(1) this] assms(2) show ?thesis by simp
  qed blast
qed

section \<open>Rotation\<close>

text \<open>
  A rotation that succeeds leaves the same plaintext under the new CID, no key under the old
  one, and every other key as it was.
\<close>

lemma rotate_ok:
  assumes "inv s" "as_Rotate ks c ct s = ((c', ct', None), s')"
    and "\<And>pt. as_Decrypt ks c ct s = (Inr pt, snd (as_Decrypt ks c ct s)) \<Longrightarrow>
           fresh pt (snd (as_Decrypt ks c ct s))"
  shows "\<exists>pt m m'. mat s (Digest c) = Some m \<and> opn m ct = Some pt \<and>
     mat s' = (mat s)(Digest c' := Some m', Digest c := None) \<and> opn m' ct' = Some pt \<and>
     c' = cid_of ct' \<and> Digest c' \<noteq> Digest c"
proof -
  obtain pt s1 where d: "as_Decrypt ks c ct s = (Inr pt, s1)"
    using assms(2) by (auto simp: rotate rotate_with_def split: prod.splits sum.splits)
  obtain n s2 where g: "as_GenerateAndEncrypt ks pt s1 = (Inr n, s2)"
    using assms(2) d by (auto simp: rotate rotate_with_def split: prod.splits sum.splits)
  have e: "as_Delete ks c s2 = (None, s')" and n: "n = (c', ct')"
    using assms(2) d g by (auto simp: rotate rotate_with_def split: prod.splits option.splits)
  have inv1: "inv s1" and m1: "mat s1 = mat s" using dec_inv [OF assms(1)] dec_mat [OF assms(1)] d by (metis snd_conv)+
  obtain m where m: "mat s (Digest c) = Some m" "opn m ct = Some pt" using dec_ok [OF assms(1) d] by blast
  have ok: "okd pt s1" using fresh_okd [OF inv1] assms(3) d by simp
  note G = gen_ok [OF inv1 ok g [unfolded n]]
  then obtain m' where m': "mat s2 = (mat s1)(Digest c' := Some m')" "opn m' ct' = Some pt" by blast
  have "inv s2" using gen_inv [OF inv1 ok] g by simp
  have "mat s1 (Digest c') = None" using assms(3) G d unfolding fresh_key_def by simp
  with m(1) m1 have ne: "Digest c' \<noteq> Digest c" by auto
  have "mat s' x = ((mat s)(Digest c' := Some m', Digest c := None)) x" for x
    using del_ok [OF \<open>inv s2\<close> e] del_other [OF \<open>inv s2\<close>, of x c] e m'(1) m1 by (cases "x = Digest c") auto
  then have "mat s' = (mat s)(Digest c' := Some m', Digest c := None)" by blast
  with m m' ne G show ?thesis by blast
qed

text \<open>
  A rotation never loses the artifact: however it ends, the old key still opens the old
  ciphertext, or the new key opens the new one, which was returned.
\<close>

lemma rotate_never_loses:
  assumes "inv s" "as_Rotate ks c ct s = ((c', ct', err), s')"
    and "mat s (Digest c) = Some m" "opn m ct = Some pt" "fresh pt (snd (as_Decrypt ks c ct s))"
  shows "mat s' (Digest c) = Some m \<or>
     (\<exists>m'. mat s' (Digest c') = Some m' \<and> opn m' ct' = Some pt)"
proof (cases "as_Decrypt ks c ct s")
  case (Pair r s1)
  have inv1: "inv s1" and m1: "mat s1 = mat s"
    using dec_inv [OF assms(1)] dec_mat [OF assms(1)] Pair by (metis snd_conv)+
  show ?thesis
  proof (cases r)
    case (Inl e)
    then show ?thesis using assms(2,3) Pair m1 by (simp add: rotate rotate_with_def)
  next
    case (Inr pt')
    then have "pt' = pt" using dec_ok [OF assms(1)] Pair assms(3,4) by fastforce
    obtain q s2 where g: "as_GenerateAndEncrypt ks pt s1 = (q, s2)" by fastforce
    show ?thesis
    proof (cases q)
      case (Inl e)
      then have "s' = s2" using assms(2) Pair Inr g \<open>pt' = pt\<close> by (simp add: rotate rotate_with_def)
      then show ?thesis
        using gen_keeps [OF inv1, of pt "Digest c"] assms(3,5) g m1 Pair by simp
    next
      case (Inr n)
      obtain c1 ct1 where n: "n = (c1, ct1)" by fastforce
      have cc: "c' = c1" "ct' = ct1" "s' = snd (as_Delete ks c s2)"
        using assms(2) Pair Inr g \<open>pt' = pt\<close> \<open>r = Inr pt'\<close> n
        by (auto simp: rotate rotate_with_def split: prod.splits option.splits)
      have ok: "okd pt s1" using fresh_okd [OF inv1] assms(5) Pair by simp
      note G = gen_ok [OF inv1 ok g [unfolded Inr n]]
      have "mat s1 (Digest c1) = None" using assms(5) G Pair unfolding fresh_key_def by simp
      with assms(3) m1 have ne: "Digest c1 \<noteq> Digest c" by auto
      have "inv s2" using gen_inv [OF inv1 ok] g by simp
      from del_other [OF this ne] G cc show ?thesis by auto
    qed
  qed
qed

section \<open>Sequences of calls\<close>

lemma rotate_state:
  "snd (as_Rotate ks c ct s) =
     (case as_Decrypt ks c ct s of
        (Inl e, s1) \<Rightarrow> s1
      | (Inr pt, s1) \<Rightarrow>
          (case as_GenerateAndEncrypt ks pt s1 of
             (Inl e, s2) \<Rightarrow> s2
           | (Inr n, s2) \<Rightarrow> snd (as_Delete ks c s2)))"
  by (auto simp: rotate rotate_with_def split: prod.splits sum.splits option.splits)

lemma step_inv: "inv s \<Longrightarrow> call_ok ks okd a s \<Longrightarrow> inv (ks_step ks a s)"
proof (cases a)
  case (KRotate c ct)
  assume "inv s" "call_ok ks okd a s"
  then show ?thesis
    using dec_inv [of s c ct] gen_inv del_inv
    by (auto simp: KRotate ks_step_def rotate_state call_ok_def split: prod.splits sum.splits) (metis snd_conv)+
qed (simp_all add: ks_step_def call_ok_def gen_inv dec_inv wrap_inv del_inv)

lemma steps_inv: "inv s \<Longrightarrow> calls_fine ks okd as s \<Longrightarrow> inv (ks_steps ks as s)"
  by (induction as arbitrary: s) (simp_all add: step_inv)

lemma del_keeps_None: "inv s \<Longrightarrow> mat s x = None \<Longrightarrow> mat (snd (as_Delete ks c s)) x = None"
  using del_any [of s c] del_other [of s x c] by (cases "x = Digest c") auto

lemma rotate_other:
  assumes "inv s" "call_ok ks okd (KRotate c ct) s" "x \<notin> creates ks draws cid_of (KRotate c ct) s"
  shows "x \<noteq> Digest c \<Longrightarrow> mat (snd (as_Rotate ks c ct s)) x = mat s x"
    and "mat s x = None \<Longrightarrow> mat (snd (as_Rotate ks c ct s)) x = None"
proof -
  obtain r s1 where d: "as_Decrypt ks c ct s = (r, s1)" by fastforce
  have s1: "inv s1" "mat s1 = mat s"
    using dec_inv [OF assms(1)] dec_mat [OF assms(1)] d by (metis snd_conv)+
  have *: "(x \<noteq> Digest c \<longrightarrow> mat (snd (as_Rotate ks c ct s)) x = mat s x) \<and>
      (mat s x = None \<longrightarrow> mat (snd (as_Rotate ks c ct s)) x = None)"
  proof (cases r)
    case (Inl e)
    with d s1 show ?thesis by (simp add: rotate_state)
  next
    case (Inr pt)
    obtain q s2 where g: "as_GenerateAndEncrypt ks pt s1 = (q, s2)" by fastforce
    have ok: "okd pt s1" using assms(2) d Inr by (simp add: call_ok_def)
    have s2: "inv s2" using gen_inv [OF s1(1) ok] g by simp
    have "x \<notin> drawn draws cid_of pt s1" using assms(3) d Inr by (simp add: creates_def)
    then have "mat s2 x = mat s x" using gen_other [OF s1(1) ok] g s1(2) by (metis snd_conv)
    with d Inr g s2 del_other [OF s2] del_keeps_None [OF s2] show ?thesis
      by (auto simp: rotate_state split: sum.splits)
  qed
  show "x \<noteq> Digest c \<Longrightarrow> mat (snd (as_Rotate ks c ct s)) x = mat s x"
    and "mat s x = None \<Longrightarrow> mat (snd (as_Rotate ks c ct s)) x = None"
    using * by blast+
qed

lemma step_other:
  assumes "inv s" "call_ok ks okd a s" "x \<notin> creates ks draws cid_of a s"
  shows "x \<notin> removes a \<Longrightarrow> mat (ks_step ks a s) x = mat s x"
    and "mat s x = None \<Longrightarrow> mat (ks_step ks a s) x = None"
  using assms rotate_other del_keeps_None del_other
  by (auto simp: ks_step_def creates_def removes_def call_ok_def gen_other dec_mat wrap_mat split: ks_call.splits)

text \<open>A key no call removes or replaces is kept, and a key that is gone stays gone.\<close>

lemma steps_kept:
  "inv s \<Longrightarrow> calls_fine ks okd as s \<Longrightarrow> x \<notin> creates_in ks draws cid_of as s \<Longrightarrow> x \<notin> removes_in as \<Longrightarrow>
   inv (ks_steps ks as s) \<and> mat (ks_steps ks as s) x = mat s x"
  by (induction as arbitrary: s) (simp_all add: step_inv step_other removes_in_def)

lemma steps_erased:
  "inv s \<Longrightarrow> calls_fine ks okd as s \<Longrightarrow> x \<notin> creates_in ks draws cid_of as s \<Longrightarrow> mat s x = None \<Longrightarrow>
   inv (ks_steps ks as s) \<and> mat (ks_steps ks as s) x = None"
  by (induction as arbitrary: s) (simp_all add: step_inv step_other)

lemma deleted_stays_deleted:
  assumes "inv s" "as_Delete ks c s = (None, s')" "calls_fine ks okd as s'"
    and "Digest c \<notin> creates_in ks draws cid_of as s'"
  shows "(\<exists>e. fst (as_Decrypt ks c ct (ks_steps ks as s')) = Inl e) \<and>
     (\<exists>e. fst (as_WrapForRecipient ks c pub (ks_steps ks as s')) = Inl e)"
proof -
  have "inv s'" using del_inv [OF assms(1), of c] assms(2) by simp
  from steps_erased [OF this assms(3,4) del_ok [OF assms(1,2)]]
  have "inv (ks_steps ks as s')" "mat (ks_steps ks as s') (Digest c) = None" by blast+
  from erased_fails [OF this] show ?thesis by blast
qed

end

text \<open>
  A service whose backend answers: then no operation fails for another reason than the
  caller's, and a ciphertext is decrypted as long as its key is held.
\<close>

locale key_custody_up = key_custody ks tag inv mat opn cid_of draws okd
  for ks :: "'s ArtifactKeyService" and tag inv mat opn cid_of draws okd +
  fixes up :: "'s \<Rightarrow> bool"
  assumes gen_up: "inv s \<Longrightarrow> up s \<Longrightarrow> fresh_key draws mat cid_of pt s \<Longrightarrow> \<exists>r s'. as_GenerateAndEncrypt ks pt s = (Inr r, s') \<and> up s'"
    and dec_up: "inv s \<Longrightarrow> up s \<Longrightarrow> mat s (Digest c) = Some m \<Longrightarrow> opn m ct = Some pt \<Longrightarrow>
        \<exists>s'. as_Decrypt ks c ct s = (Inr pt, s') \<and> up s'"
    and dec_missing: "inv s \<Longrightarrow> up s \<Longrightarrow> mat s (Digest c) = None \<Longrightarrow>
        \<exists>e s'. as_Decrypt ks c ct s = (Inl e, s') \<and> errors_is e ErrKeyNotFound \<and> up s'"
    and del_up: "inv s \<Longrightarrow> up s \<Longrightarrow> \<exists>s'. as_Delete ks c s = (None, s') \<and> up s'"
begin

lemma encrypt_decrypt_delete:
  assumes "inv s" "up s" "fresh pt s"
  shows "\<exists>c ct s1 s2 s3 s4 e. as_GenerateAndEncrypt ks pt s = (Inr (c, ct), s1) \<and>
     as_Decrypt ks c ct s1 = (Inr pt, s2) \<and> as_Delete ks c s2 = (None, s3) \<and>
     as_Decrypt ks c ct s3 = (Inl e, s4) \<and> errors_is e ErrKeyNotFound"
proof -
  obtain c ct s1 where g: "as_GenerateAndEncrypt ks pt s = (Inr (c, ct), s1)" "up s1"
    using gen_up [OF assms] by auto
  note ok = fresh_okd [OF assms(1,3)]
  have i1: "inv s1" using gen_inv [OF assms(1) ok] g by simp
  obtain m where m: "mat s1 (Digest c) = Some m" "opn m ct = Some pt"
    using gen_ok [OF assms(1) ok g(1)] by auto
  obtain s2 where d: "as_Decrypt ks c ct s1 = (Inr pt, s2)" "up s2" using dec_up [OF i1 g(2) m] by blast
  have i2: "inv s2" using dec_inv [OF i1, of c ct] d by simp
  obtain s3 where l: "as_Delete ks c s2 = (None, s3)" "up s3" using del_up [OF i2 d(2)] by blast
  have i3: "inv s3" using del_inv [OF i2, of c] l by simp
  obtain e s4 where "as_Decrypt ks c ct s3 = (Inl e, s4)" "errors_is e ErrKeyNotFound"
    using dec_missing [OF i3 l(2) del_ok [OF i2 l(1)]] by blast
  with g d l show ?thesis by blast
qed

lemma rotate_up:
  assumes "inv s" "up s" "mat s (Digest c) = Some m" "opn m ct = Some pt"
    and "fresh pt (snd (as_Decrypt ks c ct s))"
  shows "\<exists>c' ct' s'. as_Rotate ks c ct s = ((c', ct', None), s') \<and> up s' \<and>
     (\<exists>s''. as_Decrypt ks c' ct' s' = (Inr pt, s'')) \<and> mat s' (Digest c) = None"
proof -
  obtain s1 where d: "as_Decrypt ks c ct s = (Inr pt, s1)" "up s1" using dec_up [OF assms(1-4)] by blast
  have i1: "inv s1" using dec_inv [OF assms(1), of c ct] d by simp
  obtain c' ct' s2 where g: "as_GenerateAndEncrypt ks pt s1 = (Inr (c', ct'), s2)" "up s2"
    using gen_up [OF i1 d(2), of pt] assms(5) d(1) by auto
  have i2: "inv s2" using gen_inv [OF i1 fresh_okd [OF i1], of pt] assms(5) d(1) g by simp
  obtain s3 where l: "as_Delete ks c s2 = (None, s3)" "up s3" using del_up [OF i2 g(2)] by blast
  have i3: "inv s3" using del_inv [OF i2, of c] l by simp
  have r: "as_Rotate ks c ct s = ((c', ct', None), s3)" using d g l by (simp add: rotate rotate_with_def)
  obtain pt' m1 m' where o: "mat s (Digest c) = Some m1" "opn m1 ct = Some pt'" "opn m' ct' = Some pt'"
      "mat s3 = (mat s)(Digest c' := Some m', Digest c := None)" "Digest c' \<noteq> Digest c"
    using rotate_ok [OF assms(1) r] assms(5) d by auto
  then have "mat s3 (Digest c') = Some m'" "opn m' ct' = Some pt" using assms(3,4) by auto
  from dec_up [OF i3 l(2) this] r l(2) o(4) show ?thesis by auto
qed

end

end
