(* ===== verification/Ks_Vault.thy ===== *)
theory Ks_Vault
  imports Key_Custody
begin

text \<open>
  \<open>keyservice/vault.go\<close> and \<open>keyservice/vault_api.go\<close>: envelope encryption with a transit
  key per artifact and the wrapped data key in kv-v2. The Vault server is the HTTP client's
  world; \<open>vault_api\<close> below says what the code relies on of it.
\<close>

record VaultTransitConfig =
  vt_Endpoint :: string
  vt_Token :: string
  vt_TransitMount :: string
  vt_KVMount :: string
  vt_KVNamespace :: string

record 'w VaultTransit =
  v_cfg :: VaultTransitConfig
  v_client :: "'w net"

definition vault_tag :: string where
  "vault_tag = ''keyservice/vault''"

definition or_default :: "string \<Rightarrow> string \<Rightarrow> string" where
  "or_default s d = (if s = [] then d else s)"

definition NewVaultTransit :: "'w net \<Rightarrow> VaultTransitConfig \<Rightarrow> goerr + 'w VaultTransit" where
  "NewVaultTransit client cfg =
     (if vt_Endpoint cfg = [] then Inl (Errorf [Lit ''keyservice/vault: Endpoint is required''])
      else if vt_Token cfg = [] then Inl (Errorf [Lit ''keyservice/vault: Token is required''])
      else Inr \<lparr>v_cfg = cfg\<lparr>vt_TransitMount := or_default (vt_TransitMount cfg) ''transit'',
                          vt_KVMount := or_default (vt_KVMount cfg) ''secret'',
                          vt_KVNamespace := or_default (vt_KVNamespace cfg) ''artifact-keys'',
                          vt_Endpoint := trim_right_byte CHR ''/'' (vt_Endpoint cfg)\<rparr>,
                v_client = client\<rparr>)"

section \<open>The Vault API\<close>

definition hexCID :: "cid \<Rightarrow> string" where
  "hexCID c =
     concat (map (\<lambda>b. [hex_chars ! unat (drop_bit 4 b), hex_chars ! unat (take_bit 4 b)]) (Digest c))"

definition transitKeyName :: "cid \<Rightarrow> string" where
  "transitKeyName c = ''artifact-'' @ hex_encode (Digest c)"

definition kvDataPath :: "'w VaultTransit \<Rightarrow> cid \<Rightarrow> string" where
  "kvDataPath v c =
     ''/v1/'' @ vt_KVMount (v_cfg v) @ ''/data/'' @ vt_KVNamespace (v_cfg v) @ ''/'' @ hexCID c"

definition kvMetadataPath :: "'w VaultTransit \<Rightarrow> cid \<Rightarrow> string" where
  "kvMetadataPath v c =
     ''/v1/'' @ vt_KVMount (v_cfg v) @ ''/metadata/'' @ vt_KVNamespace (v_cfg v) @ ''/'' @ hexCID c"

definition transit_url :: "'w VaultTransit \<Rightarrow> string \<Rightarrow> string \<Rightarrow> string" where
  "transit_url v op name =
     vt_Endpoint (v_cfg v) @ ''/v1/'' @ vt_TransitMount (v_cfg v) @ ''/'' @ op @ ''/'' @ name"

definition Vault_do ::
  "'w VaultTransit \<Rightarrow> string \<Rightarrow> string \<Rightarrow> json option \<Rightarrow> 'w \<Rightarrow> (goerr + http_response) \<times> 'w" where
  "Vault_do v = ks_do vault_tag (Some (''X-Vault-Token'', vt_Token (v_cfg v))) (v_client v)"

definition fmtVaultErr :: "http_response \<Rightarrow> string \<Rightarrow> goerr" where
  "fmtVaultErr = fmt_http_err vault_tag"

definition create_key_body :: json where
  "create_key_body =
     JObj [(''allow_plaintext_backup'', JBool False), (''derived'', JBool False),
           (''exportable'', JBool False), (''type'', JStr ''aes256-gcm96'')]"

definition transitCreateKey :: "'w VaultTransit \<Rightarrow> string \<Rightarrow> 'w \<Rightarrow> goerr option \<times> 'w" where
  "transitCreateKey v name w =
     (case Vault_do v ''POST'' (transit_url v ''keys'' name) (Some create_key_body) w of
        (Inl e, w1) \<Rightarrow> (Some e, w1)
      | (Inr resp, w1) \<Rightarrow>
          (if rs_status resp = 200 \<or> rs_status resp = 204 then (None, w1)
           else (Some (fmtVaultErr resp ''transit/keys create''), w1)))"

text \<open>A string member of the \<open>data\<close> member of a response.\<close>

definition data_field :: "string \<Rightarrow> http_response \<Rightarrow> string option" where
  "data_field name resp =
     (case decode_body resp of
        None \<Rightarrow> None
      | Some j \<Rightarrow>
          (case json_members j of
             None \<Rightarrow> None
           | Some obj \<Rightarrow>
               (case decode_obj ''data'' obj of
                  None \<Rightarrow> None
                | Some d \<Rightarrow> decode_str name d)))"

definition encrypt_body :: "bytes \<Rightarrow> json" where
  "encrypt_body pt = JObj [(''plaintext'', JStr (b64_encode b64_std True pt))]"

definition transitEncrypt :: "'w VaultTransit \<Rightarrow> string \<Rightarrow> bytes \<Rightarrow> 'w \<Rightarrow> (goerr + string) \<times> 'w" where
  "transitEncrypt v name pt w =
     (case Vault_do v ''POST'' (transit_url v ''encrypt'' name) (Some (encrypt_body pt)) w of
        (Inl e, w1) \<Rightarrow> (Inl e, w1)
      | (Inr resp, w1) \<Rightarrow>
          (if rs_status resp \<noteq> 200 then (Inl (fmtVaultErr resp ''transit/encrypt''), w1)
           else case data_field ''ciphertext'' resp of
                  None \<Rightarrow> (Inl (Errorf [Lit ''keyservice/vault: decode encrypt response: '', Wrp (Foreign ''json'')]), w1)
                | Some ct \<Rightarrow>
                    (if ct = [] then (Inl (Errorf [Lit ''keyservice/vault: encrypt returned empty ciphertext'']), w1)
                     else (Inr ct, w1))))"

definition decrypt_body :: "string \<Rightarrow> json" where
  "decrypt_body ct = JObj [(''ciphertext'', JStr ct)]"

definition transitDecrypt :: "'w VaultTransit \<Rightarrow> string \<Rightarrow> string \<Rightarrow> 'w \<Rightarrow> (goerr + bytes) \<times> 'w" where
  "transitDecrypt v name ct w =
     (case Vault_do v ''POST'' (transit_url v ''decrypt'' name) (Some (decrypt_body ct)) w of
        (Inl e, w1) \<Rightarrow> (Inl e, w1)
      | (Inr resp, w1) \<Rightarrow>
          (if rs_status resp = 404 then (Inl (Sentinel ErrKeyNotFound), w1)
           else if rs_status resp \<noteq> 200 then (Inl (fmtVaultErr resp ''transit/decrypt''), w1)
           else case data_field ''plaintext'' resp of
                  None \<Rightarrow> (Inl (Errorf [Lit ''keyservice/vault: decode decrypt response: '', Wrp (Foreign ''json'')]), w1)
                | Some p \<Rightarrow>
                    (case b64_decode b64_std True p of
                       None \<Rightarrow> (Inl (Errorf [Lit ''keyservice/vault: decode plaintext: '', Wrp (Foreign ''base64'')]), w1)
                     | Some pt \<Rightarrow> (Inr pt, w1))))"

definition config_body :: json where
  "config_body = JObj [(''deletion_allowed'', JBool True)]"

text \<open>The existence check and the config answer are closed before their errors are formatted.\<close>

definition transitDeleteKey :: "'w VaultTransit \<Rightarrow> string \<Rightarrow> 'w \<Rightarrow> goerr option \<times> 'w" where
  "transitDeleteKey v name w =
     (case Vault_do v ''GET'' (transit_url v ''keys'' name) None w of
        (Inl e, w1) \<Rightarrow> (Some e, w1)
      | (Inr g, w1) \<Rightarrow>
          (if rs_status g = 404 then (Some (Sentinel ErrVaultNotFound), w1)
           else if rs_status g \<noteq> 200
           then (Some (fmtVaultErr (close_body g) ''transit/keys exists-check''), w1)
           else case Vault_do v ''POST'' (transit_url v ''keys'' name @ ''/config'') (Some config_body) w1 of
             (Inl e, w2) \<Rightarrow> (Some e, w2)
           | (Inr cf, w2) \<Rightarrow>
               (if rs_status cf \<noteq> 200 \<and> rs_status cf \<noteq> 204
                then (Some (fmtVaultErr (close_body cf) ''transit/keys config''), w2)
                else case Vault_do v ''DELETE'' (transit_url v ''keys'' name) None w2 of
                  (Inl e, w3) \<Rightarrow> (Some e, w3)
                | (Inr resp, w3) \<Rightarrow>
                    (if rs_status resp = 200 \<or> rs_status resp = 204 then (None, w3)
                     else if rs_status resp = 404 then (Some (Sentinel ErrVaultNotFound), w3)
                     else (Some (fmtVaultErr resp ''transit/keys delete''), w3)))))"

definition kv_put_body :: "string \<Rightarrow> json" where
  "kv_put_body wrapped = JObj [(''data'', JObj [(''wrapped'', JStr wrapped)])]"

definition kvPutWrapped :: "'w VaultTransit \<Rightarrow> cid \<Rightarrow> string \<Rightarrow> 'w \<Rightarrow> goerr option \<times> 'w" where
  "kvPutWrapped v c wrapped w =
     (case Vault_do v ''POST'' (vt_Endpoint (v_cfg v) @ kvDataPath v c) (Some (kv_put_body wrapped)) w of
        (Inl e, w1) \<Rightarrow> (Some e, w1)
      | (Inr resp, w1) \<Rightarrow>
          (if rs_status resp = 200 \<or> rs_status resp = 201 \<or> rs_status resp = 204 then (None, w1)
           else (Some (fmtVaultErr resp ''kv-v2 put''), w1)))"

text \<open>The wrapped key and the deletion time of a kv-v2 answer.\<close>

definition kv_fields :: "http_response \<Rightarrow> (string \<times> string) option" where
  "kv_fields resp =
     (case decode_body resp of
        None \<Rightarrow> None
      | Some j \<Rightarrow>
          (case json_members j of
             None \<Rightarrow> None
           | Some obj \<Rightarrow>
               (case decode_obj ''data'' obj of
                  None \<Rightarrow> None
                | Some d \<Rightarrow>
                    (case (decode_obj ''data'' d, decode_obj ''metadata'' d) of
                       (Some dd, Some md) \<Rightarrow>
                         (case (decode_str ''wrapped'' dd, decode_str ''deletion_time'' md) of
                            (Some wr, Some dt) \<Rightarrow> Some (wr, dt)
                          | _ \<Rightarrow> None)
                     | _ \<Rightarrow> None))))"

definition kvGetWrapped :: "'w VaultTransit \<Rightarrow> cid \<Rightarrow> 'w \<Rightarrow> (goerr + string) \<times> 'w" where
  "kvGetWrapped v c w =
     (case Vault_do v ''GET'' (vt_Endpoint (v_cfg v) @ kvDataPath v c) None w of
        (Inl e, w1) \<Rightarrow> (Inl e, w1)
      | (Inr resp, w1) \<Rightarrow>
          (if rs_status resp = 404 then (Inl (Sentinel ErrKeyNotFound), w1)
           else if rs_status resp \<noteq> 200 then (Inl (fmtVaultErr resp ''kv-v2 get''), w1)
           else case kv_fields resp of
                  None \<Rightarrow> (Inl (Errorf [Lit ''keyservice/vault: decode kv-v2 get: '', Wrp (Foreign ''json'')]), w1)
                | Some (wr, dt) \<Rightarrow>
                    (if dt \<noteq> [] \<or> wr = [] then (Inl (Sentinel ErrKeyNotFound), w1) else (Inr wr, w1))))"

definition kvDeleteMetadata :: "'w VaultTransit \<Rightarrow> cid \<Rightarrow> 'w \<Rightarrow> goerr option \<times> 'w" where
  "kvDeleteMetadata v c w =
     (case Vault_do v ''DELETE'' (vt_Endpoint (v_cfg v) @ kvMetadataPath v c) None w of
        (Inl e, w1) \<Rightarrow> (Some e, w1)
      | (Inr resp, w1) \<Rightarrow>
          (if rs_status resp = 200 \<or> rs_status resp = 204 then (None, w1)
           else if rs_status resp = 404 then (Some (Sentinel ErrVaultNotFound), w1)
           else (Some (fmtVaultErr resp ''kv-v2 metadata delete''), w1)))"

section \<open>The operations\<close>

text \<open>
  What remains of \<open>GenerateAndEncrypt\<close> once the ciphertext and its CID are known: create the
  transit key, wrap the key material, store the wrapped blob; the last two roll the key back.
\<close>

definition Vault_store :: "'w VaultTransit \<Rightarrow> cid \<Rightarrow> bytes \<Rightarrow> 'w \<Rightarrow> goerr option \<times> 'w" where
  "Vault_store v c material w =
     (case transitCreateKey v (transitKeyName c) w of
        (Some e, w1) \<Rightarrow> (Some e, w1)
      | (None, w1) \<Rightarrow>
          (case transitEncrypt v (transitKeyName c) material w1 of
             (Inl e, w2) \<Rightarrow> (Some e, snd (transitDeleteKey v (transitKeyName c) w2))
           | (Inr wrapped, w2) \<Rightarrow>
               (case kvPutWrapped v c wrapped w2 of
                  (Some e, w3) \<Rightarrow> (Some e, snd (transitDeleteKey v (transitKeyName c) w3))
                | (None, w3) \<Rightarrow> (None, w3))))"

definition Vault_GenerateAndEncrypt ::
  "sdk \<Rightarrow> 'w keyenv \<Rightarrow> 'w VaultTransit \<Rightarrow> bytes \<Rightarrow> 'w ks_state \<Rightarrow> (goerr + cid \<times> bytes) \<times> 'w ks_state" where
  "Vault_GenerateAndEncrypt k E v pt s =
     (case draw_material E vault_tag (ks_world s) of
        (Inl e, w1) \<Rightarrow> (Inl e, s\<lparr>ks_world := w1\<rparr>)
      | (Inr (key, nonce), w1) \<Rightarrow>
          (case aesGCMSeal E key nonce pt of
             Inl e \<Rightarrow> (Inl (Errorf [Lit ''keyservice/vault: AES-GCM seal: '', Wrp e]), s\<lparr>ks_world := w1\<rparr>)
           | Inr ct \<Rightarrow>
               (let c = sdk_Compute k ct in
                case Vault_store v c (key @ nonce) w1 of
                  (Some e, w2) \<Rightarrow> (Inl e, s\<lparr>ks_world := w2\<rparr>)
                | (None, w2) \<Rightarrow>
                    (Inr (c, ct), \<lparr>ks_cache = insert (sdk_String k c) (ks_cache s), ks_world = w2\<rparr>))))"

text \<open>Fetching the wrapped blob and unwrapping it, which \<open>Decrypt\<close> and \<open>WrapForRecipient\<close> share.\<close>

definition Vault_material :: "'w VaultTransit \<Rightarrow> cid \<Rightarrow> 'w \<Rightarrow> (goerr + bytes) \<times> 'w" where
  "Vault_material v c w =
     (case kvGetWrapped v c w of
        (Inl e, w1) \<Rightarrow> (Inl e, w1)
      | (Inr wrapped, w1) \<Rightarrow> transitDecrypt v (transitKeyName c) wrapped w1)"

definition Vault_WrapForRecipient ::
  "'w keyenv \<Rightarrow> 'w VaultTransit \<Rightarrow> cid \<Rightarrow> bytes \<Rightarrow> 'w ks_state \<Rightarrow> (goerr + bytes) \<times> 'w ks_state" where
  "Vault_WrapForRecipient E v c pub s =
     (case recipient E pub of
        Inl e \<Rightarrow> (Inl e, s)
      | Inr p \<Rightarrow>
          (case Vault_material v c (ks_world s) of
             (Inl e, w1) \<Rightarrow> (Inl e, s\<lparr>ks_world := w1\<rparr>)
           | (Inr m, w1) \<Rightarrow>
               (case ke_EncryptForNode E m p w1 of
                  (Inl e, w2) \<Rightarrow> (Inl (Errorf [Lit ''keyservice/vault: ECIES wrap: '', Wrp e]), s\<lparr>ks_world := w2\<rparr>)
                | (Inr env, w2) \<Rightarrow> (Inr env, s\<lparr>ks_world := w2\<rparr>))))"

definition Vault_Decrypt ::
  "'w keyenv \<Rightarrow> 'w VaultTransit \<Rightarrow> cid \<Rightarrow> bytes \<Rightarrow> 'w ks_state \<Rightarrow> (goerr + bytes) \<times> 'w ks_state" where
  "Vault_Decrypt E v c ct s =
     (case Vault_material v c (ks_world s) of
        (Inl e, w1) \<Rightarrow> (Inl e, s\<lparr>ks_world := w1\<rparr>)
      | (Inr m, w1) \<Rightarrow> (open_material E vault_tag m ct, s\<lparr>ks_world := w1\<rparr>))"

text \<open>A not-found answer counts as deleted; the key goes after the wrapped blob.\<close>

definition not_found_ok :: "sentinel \<Rightarrow> goerr option \<Rightarrow> goerr option" where
  "not_found_ok t r = (case r of None \<Rightarrow> None | Some e \<Rightarrow> if errors_is e t then None else Some e)"

definition Vault_Delete ::
  "sdk \<Rightarrow> 'w VaultTransit \<Rightarrow> cid \<Rightarrow> 'w ks_state \<Rightarrow> goerr option \<times> 'w ks_state" where
  "Vault_Delete k v c s =
     (case kvDeleteMetadata v c (ks_world s) of
        (r1, w1) \<Rightarrow>
          (case not_found_ok ErrVaultNotFound r1 of
             Some e \<Rightarrow> (Some e, s\<lparr>ks_world := w1\<rparr>)
           | None \<Rightarrow>
               (case transitDeleteKey v (transitKeyName c) w1 of
                  (r2, w2) \<Rightarrow>
                    (case not_found_ok ErrVaultNotFound r2 of
                       Some e \<Rightarrow> (Some e, s\<lparr>ks_world := w2\<rparr>)
                     | None \<Rightarrow> (None, \<lparr>ks_cache = ks_cache s - {sdk_String k c}, ks_world = w2\<rparr>)))))"

definition Vault_Rotate ::
  "sdk \<Rightarrow> 'w keyenv \<Rightarrow> 'w VaultTransit \<Rightarrow> cid \<Rightarrow> bytes \<Rightarrow> 'w ks_state \<Rightarrow>
   (cid \<times> bytes \<times> goerr option) \<times> 'w ks_state" where
  "Vault_Rotate k E v =
     rotate_with vault_tag (Vault_Decrypt E v) (Vault_GenerateAndEncrypt k E v) (Vault_Delete k v)"

definition Vault_service :: "sdk \<Rightarrow> 'w keyenv \<Rightarrow> 'w VaultTransit \<Rightarrow> 'w ks_state ArtifactKeyService" where
  "Vault_service k E v =
     \<lparr>as_GenerateAndEncrypt = Vault_GenerateAndEncrypt k E v,
      as_WrapForRecipient = Vault_WrapForRecipient E v,
      as_Decrypt = Vault_Decrypt E v,
      as_Rotate = Vault_Rotate k E v,
      as_Delete = Vault_Delete k v\<rparr>"

lemma Vault_service_sel [simp]:
  "as_GenerateAndEncrypt (Vault_service k E v) = Vault_GenerateAndEncrypt k E v"
  "as_WrapForRecipient (Vault_service k E v) = Vault_WrapForRecipient E v"
  "as_Decrypt (Vault_service k E v) = Vault_Decrypt E v"
  "as_Rotate (Vault_service k E v) = Vault_Rotate k E v"
  "as_Delete (Vault_service k E v) = Vault_Delete k v"
  by (simp_all add: Vault_service_def)

lemma hexCID_eq: "hexCID c = hex_encode (Digest c)"
proof -
  have "unat (drop_bit 4 b) = unat b div 16" "unat (take_bit 4 b) = unat b mod 16" for b :: byte
    by (simp_all add: unat_drop_bit_eq unsigned_take_bit_eq drop_bit_eq_div take_bit_eq_mod unat_div unat_mod)
  then show ?thesis by (simp add: hexCID_def hex_encode_def hex_pair_def [abs_def])
qed

lemma transitKeyName_inject [simp]: "transitKeyName c = transitKeyName c' \<longleftrightarrow> Digest c = Digest c'"
  by (simp add: transitKeyName_def)

lemma hexCID_inject [simp]: "hexCID c = hexCID c' \<longleftrightarrow> Digest c = Digest c'"
  by (simp add: hexCID_eq)

section \<open>What the code relies on of Vault\<close>

text \<open>
  A view of the server: its transit keys by name, its kv-v2 secrets by the last segment of
  their path, and which blobs a key opens.
\<close>

record 'w vault_view =
  vv_keys :: "'w \<Rightarrow> string \<Rightarrow> nat option"
  vv_kv :: "'w \<Rightarrow> string \<Rightarrow> string option"
  vv_open :: "nat \<Rightarrow> string \<Rightarrow> bytes option"

definition answered :: "nat set \<Rightarrow> goerr + http_response \<Rightarrow> bool" where
  "answered S r = (case r of Inl e \<Rightarrow> False | Inr resp \<Rightarrow> rs_status resp \<in> S)"

text \<open>
  The documented behaviour of the endpoints, for a server that may refuse a request, and
  may fail it after it has taken effect: a success status means that the effect took place,
  no request touches another key or secret, and an existing key is never replaced. The
  blobs of the transit engine are ASCII, so that they survive JSON as they are.
\<close>

definition vault_same :: "'w vault_view \<Rightarrow> 'w \<Rightarrow> 'w \<Rightarrow> bool" where
  "vault_same V w w' \<longleftrightarrow> vv_keys V w' = vv_keys V w \<and> vv_kv V w' = vv_kv V w"

definition vault_keys_api :: "'w VaultTransit \<Rightarrow> 'w vault_view \<Rightarrow> bool" where
  "vault_keys_api v V \<longleftrightarrow>
     (\<forall>c w r w'. Vault_do v ''POST'' (transit_url v ''keys'' (transitKeyName c)) (Some create_key_body) w = (r, w') \<longrightarrow>
        vv_kv V w' = vv_kv V w \<and>
        (\<forall>x. x \<noteq> transitKeyName c \<or> vv_keys V w x \<noteq> None \<longrightarrow> vv_keys V w' x = vv_keys V w x) \<and>
        (answered {200, 204} r \<longrightarrow> vv_keys V w' (transitKeyName c) \<noteq> None)) \<and>
     (\<forall>c w r w'. Vault_do v ''GET'' (transit_url v ''keys'' (transitKeyName c)) None w = (r, w') \<longrightarrow>
        vault_same V w w' \<and> (answered {404} r \<longrightarrow> vv_keys V w (transitKeyName c) = None)) \<and>
     (\<forall>c w r w'. Vault_do v ''POST'' (transit_url v ''keys'' (transitKeyName c) @ ''/config'') (Some config_body) w = (r, w') \<longrightarrow>
        vault_same V w w') \<and>
     (\<forall>c w r w'. Vault_do v ''DELETE'' (transit_url v ''keys'' (transitKeyName c)) None w = (r, w') \<longrightarrow>
        vv_kv V w' = vv_kv V w \<and>
        (\<forall>x. x \<noteq> transitKeyName c \<longrightarrow> vv_keys V w' x = vv_keys V w x) \<and>
        vv_keys V w' (transitKeyName c) \<in> {vv_keys V w (transitKeyName c), None} \<and>
        (answered {200, 204, 404} r \<longrightarrow> vv_keys V w' (transitKeyName c) = None))"

definition vault_crypt_api :: "'w VaultTransit \<Rightarrow> 'w vault_view \<Rightarrow> bool" where
  "vault_crypt_api v V \<longleftrightarrow>
     (\<forall>c pt w r w'. Vault_do v ''POST'' (transit_url v ''encrypt'' (transitKeyName c)) (Some (encrypt_body pt)) w = (r, w') \<longrightarrow>
        vault_same V w w' \<and>
        (\<forall>resp ct. r = Inr resp \<longrightarrow> rs_status resp = 200 \<longrightarrow> data_field ''ciphertext'' resp = Some ct \<longrightarrow> ct \<noteq> [] \<longrightarrow>
           ascii ct \<and> (\<exists>key. vv_keys V w (transitKeyName c) = Some key \<and> vv_open V key ct = Some pt))) \<and>
     (\<forall>c ct w r w'. Vault_do v ''POST'' (transit_url v ''decrypt'' (transitKeyName c)) (Some (decrypt_body ct)) w = (r, w') \<longrightarrow>
        vault_same V w w' \<and>
        (\<forall>resp p pt. r = Inr resp \<longrightarrow> rs_status resp = 200 \<longrightarrow> data_field ''plaintext'' resp = Some p \<longrightarrow>
           b64_decode b64_std True p = Some pt \<longrightarrow>
           (\<exists>key. vv_keys V w (transitKeyName c) = Some key \<and> vv_open V key ct = Some pt)))"

definition vault_kv_api :: "'w VaultTransit \<Rightarrow> 'w vault_view \<Rightarrow> bool" where
  "vault_kv_api v V \<longleftrightarrow>
     (\<forall>c wr w r w'. Vault_do v ''POST'' (vt_Endpoint (v_cfg v) @ kvDataPath v c) (Some (kv_put_body wr)) w = (r, w') \<longrightarrow>
        vv_keys V w' = vv_keys V w \<and>
        (\<forall>x. x \<noteq> hexCID c \<longrightarrow> vv_kv V w' x = vv_kv V w x) \<and>
        (answered {200, 201, 204} r \<longrightarrow> ascii wr \<longrightarrow> vv_kv V w' (hexCID c) = Some wr)) \<and>
     (\<forall>c w r w'. Vault_do v ''GET'' (vt_Endpoint (v_cfg v) @ kvDataPath v c) None w = (r, w') \<longrightarrow>
        vault_same V w w' \<and>
        (\<forall>resp wr. r = Inr resp \<longrightarrow> rs_status resp = 200 \<longrightarrow> kv_fields resp = Some (wr, []) \<longrightarrow> wr \<noteq> [] \<longrightarrow>
           vv_kv V w (hexCID c) = Some wr)) \<and>
     (\<forall>c w r w'. Vault_do v ''DELETE'' (vt_Endpoint (v_cfg v) @ kvMetadataPath v c) None w = (r, w') \<longrightarrow>
        vv_keys V w' = vv_keys V w \<and>
        (\<forall>x. x \<noteq> hexCID c \<longrightarrow> vv_kv V w' x = vv_kv V w x) \<and>
        vv_kv V w' (hexCID c) \<in> {vv_kv V w (hexCID c), None} \<and>
        (answered {200, 204, 404} r \<longrightarrow> vv_kv V w' (hexCID c) = None))"

text \<open>The random source and the ECIES wrap do not touch the server.\<close>

definition vault_api :: "'w keyenv \<Rightarrow> 'w VaultTransit \<Rightarrow> 'w vault_view \<Rightarrow> bool" where
  "vault_api E v V \<longleftrightarrow> vault_keys_api v V \<and> vault_crypt_api v V \<and> vault_kv_api v V \<and>
     (\<forall>n w. vault_same V w (snd (ke_Rand E n w))) \<and>
     (\<forall>m p w. vault_same V w (snd (ke_EncryptForNode E m p w)))"

lemma vault_same_refl [simp]: "vault_same V w w"
  by (simp add: vault_same_def)

lemma vault_same_trans: "vault_same V w w' \<Longrightarrow> vault_same V w' w'' \<Longrightarrow> vault_same V w w''"
  by (simp add: vault_same_def)

lemmas keys_create = vault_keys_api_def [THEN iffD1, THEN conjunct1, rule_format]
lemmas keys_get = vault_keys_api_def [THEN iffD1, THEN conjunct2, THEN conjunct1, rule_format]
lemmas keys_config = vault_keys_api_def [THEN iffD1, THEN conjunct2, THEN conjunct2, THEN conjunct1, rule_format]
lemmas keys_delete = vault_keys_api_def [THEN iffD1, THEN conjunct2, THEN conjunct2, THEN conjunct2, rule_format]
lemmas crypt_encrypt = vault_crypt_api_def [THEN iffD1, THEN conjunct1, rule_format]
lemmas crypt_decrypt = vault_crypt_api_def [THEN iffD1, THEN conjunct2, rule_format]
lemmas kv_put = vault_kv_api_def [THEN iffD1, THEN conjunct1, rule_format]
lemmas kv_get = vault_kv_api_def [THEN iffD1, THEN conjunct2, THEN conjunct1, rule_format]
lemmas kv_delete = vault_kv_api_def [THEN iffD1, THEN conjunct2, THEN conjunct2, rule_format]

section \<open>The effect of each API call on the view\<close>

text \<open>A request that was not sent or not answered is not a not-found answer.\<close>

lemma do_error:
  assumes "Vault_do v m u b w = (Inl e, w')"
  shows "\<not> errors_is e ErrVaultNotFound" "not_found_ok ErrVaultNotFound (Some e) \<noteq> None"
proof -
  show "\<not> errors_is e ErrVaultNotFound"
    using assms
    by (auto simp: Vault_do_def ks_do_def new_request_def Let_def split: prod.splits sum.splits option.splits)
  then show "not_found_ok ErrVaultNotFound (Some e) \<noteq> None" by (simp add: not_found_ok_def)
qed

lemma transitCreateKey_view:
  assumes "vault_keys_api v V" "transitCreateKey v (transitKeyName c) w = (r, w')"
  shows "vv_kv V w' = vv_kv V w \<and>
    (\<forall>x. x \<noteq> transitKeyName c \<or> vv_keys V w x \<noteq> None \<longrightarrow> vv_keys V w' x = vv_keys V w x) \<and>
    (r = None \<longrightarrow> vv_keys V w' (transitKeyName c) \<noteq> None)"
proof -
  obtain q where d: "Vault_do v ''POST'' (transit_url v ''keys'' (transitKeyName c)) (Some create_key_body) w = (q, w')"
      and r: "r = None \<longrightarrow> answered {200, 204} q"
    using assms(2) by (auto simp: transitCreateKey_def answered_def split: prod.splits sum.splits if_splits)
  from keys_create [OF assms(1) d] r show ?thesis by blast
qed

lemma transitEncrypt_view:
  assumes "vault_crypt_api v V" "transitEncrypt v (transitKeyName c) pt w = (r, w')"
  shows "vault_same V w w' \<and>
    (\<forall>ct. r = Inr ct \<longrightarrow> ascii ct \<and> (\<exists>key. vv_keys V w (transitKeyName c) = Some key \<and> vv_open V key ct = Some pt))"
proof -
  obtain q where d: "Vault_do v ''POST'' (transit_url v ''encrypt'' (transitKeyName c)) (Some (encrypt_body pt)) w = (q, w')"
      and r: "\<And>ct. r = Inr ct \<Longrightarrow> \<exists>resp. q = Inr resp \<and> rs_status resp = 200 \<and>
                data_field ''ciphertext'' resp = Some ct \<and> ct \<noteq> []"
    using assms(2)
    by (auto simp: transitEncrypt_def split: prod.splits sum.splits if_splits option.splits)
  from crypt_encrypt [OF assms(1) d] r show ?thesis by blast
qed

lemma transitDecrypt_view:
  assumes "vault_crypt_api v V" "transitDecrypt v (transitKeyName c) ct w = (r, w')"
  shows "vault_same V w w' \<and>
    (\<forall>pt. r = Inr pt \<longrightarrow> (\<exists>key. vv_keys V w (transitKeyName c) = Some key \<and> vv_open V key ct = Some pt))"
proof -
  obtain q where d: "Vault_do v ''POST'' (transit_url v ''decrypt'' (transitKeyName c)) (Some (decrypt_body ct)) w = (q, w')"
      and r: "\<And>pt. r = Inr pt \<Longrightarrow> \<exists>resp p. q = Inr resp \<and> rs_status resp = 200 \<and>
                data_field ''plaintext'' resp = Some p \<and> b64_decode b64_std True p = Some pt"
    using assms(2)
    by (auto simp: transitDecrypt_def split: prod.splits sum.splits if_splits option.splits)
  from crypt_decrypt [OF assms(1) d] r show ?thesis by blast
qed

lemma transitDeleteKey_view:
  assumes "vault_keys_api v V" "transitDeleteKey v (transitKeyName c) w = (r, w')"
  shows "vv_kv V w' = vv_kv V w \<and> (\<forall>x. x \<noteq> transitKeyName c \<longrightarrow> vv_keys V w' x = vv_keys V w x) \<and>
    vv_keys V w' (transitKeyName c) \<in> {vv_keys V w (transitKeyName c), None} \<and>
    (not_found_ok ErrVaultNotFound r = None \<longrightarrow> vv_keys V w' (transitKeyName c) = None)"
proof -
  let ?u = "transit_url v ''keys'' (transitKeyName c)"
  have err: "not_found_ok ErrVaultNotFound (Some (fmtVaultErr x y)) \<noteq> None" for x y
    by (simp add: not_found_ok_def fmtVaultErr_def fmt_http_err_unavailable)
  obtain g w1 where g: "Vault_do v ''GET'' ?u None w = (g, w1)" by fastforce
  have s1: "vault_same V w w1" "answered {404} g \<longrightarrow> vv_keys V w (transitKeyName c) = None"
    using keys_get [OF assms(1) g] by blast+
  show ?thesis
  proof (cases "answered {200} g")
    case False
    then have "w' = w1 \<and> (not_found_ok ErrVaultNotFound r = None \<longrightarrow> answered {404} g)"
      using assms(2) g err do_error
      by (auto simp: transitDeleteKey_def answered_def split: sum.splits if_splits)
    with s1 show ?thesis by (auto simp: vault_same_def)
  next
    case True
    then obtain gr where gr: "g = Inr gr" "rs_status gr = 200" by (auto simp: answered_def split: sum.splits)
    obtain cf w2 where cf: "Vault_do v ''POST'' (?u @ ''/config'') (Some config_body) w1 = (cf, w2)" by fastforce
    have s2: "vault_same V w w2" using vault_same_trans [OF s1(1) keys_config [OF assms(1) cf]] .
    show ?thesis
    proof (cases "answered {200, 204} cf")
      case False
      then have "w' = w2 \<and> not_found_ok ErrVaultNotFound r \<noteq> None"
        using assms(2) g gr cf err do_error
        by (auto simp: transitDeleteKey_def answered_def split: sum.splits if_splits)
      with s2 show ?thesis by (auto simp: vault_same_def)
    next
      case True
      obtain d w3 where d: "Vault_do v ''DELETE'' ?u None w2 = (d, w3)" by fastforce
      have "w' = w3 \<and> (not_found_ok ErrVaultNotFound r = None \<longrightarrow> answered {200, 204, 404} d)"
        using assms(2) g gr cf True d err do_error
        by (auto simp: transitDeleteKey_def answered_def split: sum.splits if_splits)
      with keys_delete [OF assms(1) d] s2 show ?thesis by (auto simp: vault_same_def)
    qed
  qed
qed

lemma kvPutWrapped_view:
  assumes "vault_kv_api v V" "kvPutWrapped v c wr w = (r, w')"
  shows "vv_keys V w' = vv_keys V w \<and> (\<forall>x. x \<noteq> hexCID c \<longrightarrow> vv_kv V w' x = vv_kv V w x) \<and>
    (r = None \<longrightarrow> ascii wr \<longrightarrow> vv_kv V w' (hexCID c) = Some wr)"
proof -
  obtain q where d: "Vault_do v ''POST'' (vt_Endpoint (v_cfg v) @ kvDataPath v c) (Some (kv_put_body wr)) w = (q, w')"
      and r: "r = None \<longrightarrow> answered {200, 201, 204} q"
    using assms(2) by (auto simp: kvPutWrapped_def answered_def split: prod.splits sum.splits if_splits)
  from kv_put [OF assms(1) d] r show ?thesis by blast
qed

lemma kvGetWrapped_view:
  assumes "vault_kv_api v V" "kvGetWrapped v c w = (r, w')"
  shows "vault_same V w w' \<and> (\<forall>wr. r = Inr wr \<longrightarrow> vv_kv V w (hexCID c) = Some wr)"
proof -
  obtain q where d: "Vault_do v ''GET'' (vt_Endpoint (v_cfg v) @ kvDataPath v c) None w = (q, w')"
      and r: "\<And>wr. r = Inr wr \<Longrightarrow> \<exists>resp. q = Inr resp \<and> rs_status resp = 200 \<and>
                kv_fields resp = Some (wr, []) \<and> wr \<noteq> []"
    using assms(2) by (auto simp: kvGetWrapped_def split: prod.splits sum.splits if_splits option.splits)
  from kv_get [OF assms(1) d] r show ?thesis by blast
qed

lemma kvDeleteMetadata_view:
  assumes "vault_kv_api v V" "kvDeleteMetadata v c w = (r, w')"
  shows "vv_keys V w' = vv_keys V w \<and> (\<forall>x. x \<noteq> hexCID c \<longrightarrow> vv_kv V w' x = vv_kv V w x) \<and>
    vv_kv V w' (hexCID c) \<in> {vv_kv V w (hexCID c), None} \<and>
    (not_found_ok ErrVaultNotFound r = None \<longrightarrow> vv_kv V w' (hexCID c) = None)"
proof -
  obtain q where d: "Vault_do v ''DELETE'' (vt_Endpoint (v_cfg v) @ kvMetadataPath v c) None w = (q, w')"
      and r: "not_found_ok ErrVaultNotFound r = None \<longrightarrow> answered {200, 204, 404} q"
    using assms(2)
    by (auto simp: kvDeleteMetadata_def answered_def not_found_ok_def fmtVaultErr_def fmt_http_err_unavailable
        split: prod.splits sum.splits if_splits dest: do_error(1))
  from kv_delete [OF assms(1) d] r show ?thesis by blast
qed

end
