(* ===== verification/Vault_Custody.thy ===== *)
theory Vault_Custody
  imports Ks_Vault
begin

text \<open>
  The Vault key service meets the contract of \<open>Key_Custody\<close>: the key material it holds for
  a digest is what the transit key of that name opens in the kv-v2 secret of that name.
\<close>

definition vault_mat :: "'w vault_view \<Rightarrow> 'w \<Rightarrow> bytes \<Rightarrow> bytes option" where
  "vault_mat V w d =
     (case (vv_keys V w (''artifact-'' @ hex_encode d), vv_kv V w (hex_encode d)) of
        (Some key, Some wr) \<Rightarrow> vv_open V key wr
      | _ \<Rightarrow> None)"

definition vault_inv :: "'w keyenv \<Rightarrow> 'w VaultTransit \<Rightarrow> 'w vault_view \<Rightarrow> 'w ks_state \<Rightarrow> bool" where
  "vault_inv E v V s \<longleftrightarrow> keyenv_ok E \<and> vault_api E v V"

definition Vault_draws :: "'w keyenv \<Rightarrow> bytes \<Rightarrow> 'w ks_state \<Rightarrow> bytes option" where
  "Vault_draws E pt s =
     (case draw_material E vault_tag (ks_world s) of
        (Inl e, w1) \<Rightarrow> None
      | (Inr (key, nonce), w1) \<Rightarrow>
          (case aesGCMSeal E key nonce pt of Inl e \<Rightarrow> None | Inr ct \<Rightarrow> Some ct))"

lemma vault_mat_digest:
  "vault_mat V w (Digest c) =
     (case (vv_keys V w (transitKeyName c), vv_kv V w (hexCID c)) of
        (Some key, Some wr) \<Rightarrow> vv_open V key wr
      | _ \<Rightarrow> None)"
  by (simp add: vault_mat_def transitKeyName_def hexCID_eq)

text \<open>Nothing but the key and the secret of a digest decides its material.\<close>

lemma vault_mat_other:
  assumes "\<And>x. x \<noteq> transitKeyName c \<Longrightarrow> vv_keys V w' x = vv_keys V w x"
    and "\<And>x. x \<noteq> hexCID c \<Longrightarrow> vv_kv V w' x = vv_kv V w x" "d \<noteq> Digest c"
  shows "vault_mat V w' d = vault_mat V w d"
  using assms(1) [of "''artifact-'' @ hex_encode d"] assms(2) [of "hex_encode d"] assms(3)
  by (simp add: vault_mat_def transitKeyName_def hexCID_eq)

lemma vault_mat_same: "vault_same V w w' \<Longrightarrow> vault_mat V w' = vault_mat V w"
  by (simp add: vault_same_def vault_mat_def fun_eq_iff)

lemma vault_apiD:
  assumes "vault_api E v V"
  shows "vault_keys_api v V" "vault_crypt_api v V" "vault_kv_api v V"
    "vault_same V w (snd (ke_Rand E n w))" "vault_same V w (snd (ke_EncryptForNode E m p w))"
  using assms by (simp_all add: vault_api_def)

section \<open>Reading and writing the material\<close>

lemma Vault_material_view:
  assumes "vault_api E v V" "Vault_material v c w = (r, w')"
  shows "vault_same V w w' \<and> (\<forall>m. r = Inr m \<longrightarrow> vault_mat V w (Digest c) = Some m)"
proof (cases "kvGetWrapped v c w")
  case (Pair q w1)
  note g = kvGetWrapped_view [OF vault_apiD(3) [OF assms(1)] Pair]
  show ?thesis
  proof (cases q)
    case (Inl e)
    with assms(2) Pair g show ?thesis by (auto simp: Vault_material_def)
  next
    case (Inr wr)
    then have d: "transitDecrypt v (transitKeyName c) wr w1 = (r, w')"
      using assms(2) Pair by (simp add: Vault_material_def)
    note D = transitDecrypt_view [OF vault_apiD(2) [OF assms(1)] d]
    from g Inr have wr: "vv_kv V w (hexCID c) = Some wr" "vv_keys V w1 = vv_keys V w"
      by (simp_all add: vault_same_def)
    have "vault_mat V w (Digest c) = Some m" if "r = Inr m" for m
      using D that wr by (auto simp: vault_mat_digest)
    with g D show ?thesis by (auto intro: vault_same_trans)
  qed
qed

text \<open>Storing touches one digest, and what a store that succeeds leaves there can be read.\<close>

lemma Vault_store_view:
  assumes "vault_api E v V" "Vault_store v c m w = (r, w')"
  shows "(\<forall>d. d \<noteq> Digest c \<longrightarrow> vault_mat V w' d = vault_mat V w d) \<and>
    (r = None \<longrightarrow> vault_mat V w' (Digest c) = Some m)"
proof -
  note K = vault_apiD(1) [OF assms(1)] and C = vault_apiD(2) [OF assms(1)] and S = vault_apiD(3) [OF assms(1)]
  let ?n = "transitKeyName c"
  obtain r1 w1 where c: "transitCreateKey v ?n w = (r1, w1)" by fastforce
  note V1 = transitCreateKey_view [OF K c]
  show ?thesis
  proof (cases r1)
    case (Some e)
    then show ?thesis
      using assms(2) c V1 vault_mat_other [of c V w1 w] by (auto simp: Vault_store_def)
  next
    case None
    obtain r2 w2 where e: "transitEncrypt v ?n m w1 = (r2, w2)" by fastforce
    note V2 = transitEncrypt_view [OF C e]
    show ?thesis
    proof (cases r2)
      case (Inl err)
      obtain r3 w3 where d: "transitDeleteKey v ?n w2 = (r3, w3)" by fastforce
      from Inl None c e d assms(2) have "w' = w3" "r \<noteq> None" by (auto simp: Vault_store_def)
      with transitDeleteKey_view [OF K d] V1 V2 vault_mat_other [of c V w3 w] show ?thesis
        by (auto simp: vault_same_def)
    next
      case (Inr wr)
      obtain r3 w3 where p: "kvPutWrapped v c wr w2 = (r3, w3)" by fastforce
      note V3 = kvPutWrapped_view [OF S p]
      from V2 Inr obtain key where key: "vv_keys V w1 ?n = Some key" "vv_open V key wr = Some m" "ascii wr" by blast
      show ?thesis
      proof (cases r3)
        case None
        with Inr \<open>r1 = None\<close> c e p assms(2) have "w' = w3" by (simp add: Vault_store_def)
        moreover have "vault_mat V w3 (Digest c) = Some m"
          using V2 V3 None key by (auto simp: vault_mat_digest vault_same_def)
        ultimately show ?thesis
          using V1 V2 V3 vault_mat_other [of c V w3 w] by (auto simp: vault_same_def)
      next
        case (Some err)
        obtain r4 w4 where d: "transitDeleteKey v ?n w3 = (r4, w4)" by fastforce
        from Some Inr \<open>r1 = None\<close> c e p d assms(2) have "w' = w4" "r \<noteq> None" by (auto simp: Vault_store_def)
        with transitDeleteKey_view [OF K d] V1 V2 V3 vault_mat_other [of c V w4 w] show ?thesis
          by (auto simp: vault_same_def)
      qed
    qed
  qed
qed

lemma Vault_Delete_view:
  assumes "vault_api E v V" "Vault_Delete k v c s = (r, s')"
  shows "(\<forall>d. d \<noteq> Digest c \<longrightarrow> vault_mat V (ks_world s') d = vault_mat V (ks_world s) d) \<and>
    vault_mat V (ks_world s') (Digest c) \<in> {vault_mat V (ks_world s) (Digest c), None} \<and>
    (r = None \<longrightarrow> vv_keys V (ks_world s') (transitKeyName c) = None \<and> vv_kv V (ks_world s') (hexCID c) = None)"
proof -
  obtain r1 w1 where a: "kvDeleteMetadata v c (ks_world s) = (r1, w1)" by fastforce
  note V1 = kvDeleteMetadata_view [OF vault_apiD(3) [OF assms(1)] a]
  have m1: "vault_mat V w1 (Digest c) \<in> {vault_mat V (ks_world s) (Digest c), None}"
    using V1 by (auto simp: vault_mat_digest split: option.splits)
  show ?thesis
  proof (cases "not_found_ok ErrVaultNotFound r1")
    case (Some e)
    then have "ks_world s' = w1" "r = Some e" using a assms(2) by (simp_all add: Vault_Delete_def) auto
    with V1 m1 vault_mat_other [of c V w1 "ks_world s"] show ?thesis by auto
  next
    case None
    obtain r2 w2 where b: "transitDeleteKey v (transitKeyName c) w1 = (r2, w2)" by fastforce
    note V2 = transitDeleteKey_view [OF vault_apiD(1) [OF assms(1)] b]
    have w: "ks_world s' = w2" "r = not_found_ok ErrVaultNotFound r2"
      using None a b assms(2) by (auto simp: Vault_Delete_def split: option.splits)
    have "vault_mat V w2 (Digest c) = None"
      using V1 V2 None by (auto simp: vault_mat_digest split: option.splits)
    with V1 V2 w None vault_mat_other [of c V w2 "ks_world s"] show ?thesis by auto
  qed
qed

lemma vault_draw_same:
  "vault_api E v V \<Longrightarrow> draw_material E tag w = (r, w') \<Longrightarrow> vault_mat V w' = vault_mat V w"
  by (rule draw_material_keeps) (auto intro: vault_mat_same vault_apiD(4))

lemma Vault_Generate_view:
  assumes "vault_inv E v V s" "Vault_GenerateAndEncrypt k E v pt s = (r, s')"
  shows "(\<forall>d. d \<notin> drawn (Vault_draws E) (sdk_Compute k) pt s \<longrightarrow>
      vault_mat V (ks_world s') d = vault_mat V (ks_world s) d) \<and>
    (\<forall>c ct. r = Inr (c, ct) \<longrightarrow> Vault_draws E pt s = Some ct \<and> c = sdk_Compute k ct \<and>
      (\<exists>m. vault_mat V (ks_world s') (Digest c) = Some m \<and> opens E m ct = Some pt))"
proof -
  from assms(1) have E: "keyenv_ok E" and A: "vault_api E v V" by (simp_all add: vault_inv_def)
  obtain q w1 where d: "draw_material E vault_tag (ks_world s) = (q, w1)" by fastforce
  note m1 = vault_draw_same [OF A d]
  show ?thesis
  proof (cases q)
    case (Inl e)
    with assms(2) d m1 show ?thesis by (auto simp: Vault_GenerateAndEncrypt_def)
  next
    case (Inr kn)
    then obtain key nonce where kn: "q = Inr (key, nonce)" by (cases kn) auto
    note len = draw_material_length [OF E d [unfolded kn]]
    let ?ct = "ke_Seal E key nonce pt"
    let ?c = "sdk_Compute k ?ct"
    have seal: "aesGCMSeal E key nonce pt = Inr ?ct" using seal_ok [OF E] len by blast
    have dr: "Vault_draws E pt s = Some ?ct" using d kn seal by (simp add: Vault_draws_def)
    obtain e w2 where st: "Vault_store v ?c (key @ nonce) w1 = (e, w2)" by fastforce
    note S = Vault_store_view [OF A st]
    have res: "ks_world s' = w2" "r = (case e of None \<Rightarrow> Inr (?c, ?ct) | Some x \<Rightarrow> Inl x)"
      using assms(2) d kn seal st by (auto simp: Vault_GenerateAndEncrypt_def Let_def split: option.splits)
    have "opens E (key @ nonce) ?ct = Some pt" using opens_seal [OF E _ _ seal] len by blast
    with S res dr m1 show ?thesis by (auto simp: drawn_def split: option.splits)
  qed
qed

section \<open>The contract\<close>

interpretation vault: key_custody "Vault_service k E v" vault_tag "vault_inv E v V"
  "\<lambda>s. vault_mat V (ks_world s)" "opens E" "sdk_Compute k" "Vault_draws E" "\<lambda>_ _. True"
proof (unfold_locales, goal_cases)
  case 2
  show ?case by (simp add: Vault_Rotate_def)
next
  case (7 s pt c ct s')
  then have g: "Vault_GenerateAndEncrypt k E v pt s = (Inr (c, ct), s')" by simp
  note G = Vault_Generate_view [OF 7(1) g]
  then obtain m where m: "vault_mat V (ks_world s') (Digest c) = Some m" "opens E m ct = Some pt"
      and c: "Vault_draws E pt s = Some ct" "c = sdk_Compute k ct" by blast
  have "vault_mat V (ks_world s') x = ((vault_mat V (ks_world s))(Digest c := Some m)) x" for x
    using G m c by (auto simp: drawn_def)
  with m c show ?case by blast
next
  case (8 s x pt)
  then show ?case using Vault_Generate_view [OF 8(1) prod.collapse [symmetric]] by simp
next
  case (9 s c ct)
  obtain r w1 where d: "Vault_material v c (ks_world s) = (r, w1)" by fastforce
  have "ks_world (snd (Vault_Decrypt E v c ct s)) = w1" using d by (simp add: Vault_Decrypt_def split: sum.splits)
  with 9 Vault_material_view [OF _ d, of E V] show ?case by (simp add: vault_inv_def vault_mat_same)
next
  case (10 s c ct pt s')
  then obtain m w1 where d: "Vault_material v c (ks_world s) = (Inr m, w1)" "open_material E vault_tag m ct = Inr pt"
    by (auto simp: Vault_Decrypt_def split: prod.splits sum.splits)
  with 10 Vault_material_view [OF _ d(1)] show ?case by (auto simp: vault_inv_def open_material_Inr)
next
  case (11 s c pub)
  obtain r w1 where d: "Vault_material v c (ks_world s) = (r, w1)" by fastforce
  from 11 have A: "vault_api E v V" by (simp add: vault_inv_def)
  have "vault_mat V w1 = vault_mat V (ks_world s)" using Vault_material_view [OF A d] by (simp add: vault_mat_same)
  moreover have "vault_mat V (snd (ke_EncryptForNode E m p w1)) = vault_mat V w1" for m p
    by (rule vault_mat_same [OF vault_apiD(5) [OF A]])
  ultimately show ?case
    using d by (auto simp: Vault_WrapForRecipient_def split: sum.splits prod.splits) (metis snd_conv)+
next
  case (12 s c pub env s')
  then obtain m w1 where d: "Vault_material v c (ks_world s) = (Inr m, w1)"
    by (auto simp: Vault_WrapForRecipient_def split: prod.splits sum.splits)
  with 12 Vault_material_view [OF _ d(1)] show ?case by (auto simp: vault_inv_def)
next
  case (13 s c s')
  then have "Vault_Delete k v c s = (None, s')" by simp
  from Vault_Delete_view [OF _ this] 13 show ?case by (auto simp: vault_inv_def vault_mat_digest)
next
  case (14 s c)
  then show ?case using Vault_Delete_view [of E v V k c s "fst (Vault_Delete k v c s)" "snd (Vault_Delete k v c s)"]
    by (auto simp: vault_inv_def)
next
  case (15 s x c)
  then show ?case using Vault_Delete_view [of E v V k c s "fst (Vault_Delete k v c s)" "snd (Vault_Delete k v c s)"]
    by (auto simp: vault_inv_def)
qed (simp_all add: vault_inv_def)

section \<open>Rollback\<close>

text \<open>
  A \<open>GenerateAndEncrypt\<close> that fails after it created its transit key leaves no such key
  behind, as long as the server accepts the rollback's deletion.
\<close>

lemma Vault_store_rolls_back:
  assumes "vault_api E v V" "Vault_store v c m w = (Some e, w')"
    and "fst (transitCreateKey v (transitKeyName c) w) = None"
    and "\<And>w. not_found_ok ErrVaultNotFound (fst (transitDeleteKey v (transitKeyName c) w)) = None"
  shows "vv_keys V w' (transitKeyName c) = None"
proof -
  obtain w1 where "transitCreateKey v (transitKeyName c) w = (None, w1)"
    using assms(3) by (metis prod.collapse)
  then have "\<exists>w2. w' = snd (transitDeleteKey v (transitKeyName c) w2)"
    using assms(2) by (auto simp: Vault_store_def split: prod.splits option.splits sum.splits)
  then obtain w2 where "w' = snd (transitDeleteKey v (transitKeyName c) w2)" by blast
  then have "transitDeleteKey v (transitKeyName c) w2 = (fst (transitDeleteKey v (transitKeyName c) w2), w')"
    by simp
  from transitDeleteKey_view [OF vault_apiD(1) [OF assms(1)] this] assms(4) [of w2] show ?thesis by simp
qed

section \<open>A Vault that answers\<close>

definition vault_reliable :: "'w keyenv \<Rightarrow> 'w VaultTransit \<Rightarrow> 'w vault_view \<Rightarrow> bool" where
  "vault_reliable E v V \<longleftrightarrow>
     (\<forall>n w. \<exists>b w'. ke_Rand E n w = (Inr b, w')) \<and>
     (\<forall>c w. answered {200, 204} (fst (Vault_do v ''POST'' (transit_url v ''keys'' (transitKeyName c)) (Some create_key_body) w))) \<and>
     (\<forall>c pt w. vv_keys V w (transitKeyName c) \<noteq> None \<longrightarrow>
        (\<exists>resp ct. fst (Vault_do v ''POST'' (transit_url v ''encrypt'' (transitKeyName c)) (Some (encrypt_body pt)) w) = Inr resp \<and>
           rs_status resp = 200 \<and> data_field ''ciphertext'' resp = Some ct \<and> ct \<noteq> [])) \<and>
     (\<forall>c ct w key pt. vv_keys V w (transitKeyName c) = Some key \<longrightarrow> vv_open V key ct = Some pt \<longrightarrow>
        (\<exists>resp. fst (Vault_do v ''POST'' (transit_url v ''decrypt'' (transitKeyName c)) (Some (decrypt_body ct)) w) = Inr resp \<and>
           rs_status resp = 200 \<and> data_field ''plaintext'' resp = Some (b64_encode b64_std True pt))) \<and>
     (\<forall>c w. answered {if vv_keys V w (transitKeyName c) = None then 404 else 200}
        (fst (Vault_do v ''GET'' (transit_url v ''keys'' (transitKeyName c)) None w))) \<and>
     (\<forall>c w. answered {200, 204} (fst (Vault_do v ''POST'' (transit_url v ''keys'' (transitKeyName c) @ ''/config'') (Some config_body) w))) \<and>
     (\<forall>c w. answered {200, 204, 404} (fst (Vault_do v ''DELETE'' (transit_url v ''keys'' (transitKeyName c)) None w))) \<and>
     (\<forall>c wr w key pt. vv_open V key wr = Some pt \<longrightarrow>
        answered {200, 201, 204} (fst (Vault_do v ''POST'' (vt_Endpoint (v_cfg v) @ kvDataPath v c) (Some (kv_put_body wr)) w))) \<and>
     (\<forall>c w. case vv_kv V w (hexCID c) of
        None \<Rightarrow> answered {404} (fst (Vault_do v ''GET'' (vt_Endpoint (v_cfg v) @ kvDataPath v c) None w))
      | Some wr \<Rightarrow> (\<exists>resp. fst (Vault_do v ''GET'' (vt_Endpoint (v_cfg v) @ kvDataPath v c) None w) = Inr resp \<and>
           rs_status resp = 200 \<and> kv_fields resp = Some (wr, []))) \<and>
     (\<forall>c w. answered {200, 204, 404} (fst (Vault_do v ''DELETE'' (vt_Endpoint (v_cfg v) @ kvMetadataPath v c) None w)))"

lemmas rel_rand = vault_reliable_def [THEN iffD1, THEN conjunct1, rule_format]
lemmas rel_create = vault_reliable_def [THEN iffD1, THEN conjunct2, THEN conjunct1, rule_format]
lemmas rel_encrypt = vault_reliable_def [THEN iffD1, THEN conjunct2, THEN conjunct2, THEN conjunct1, rule_format]
lemmas rel_decrypt = vault_reliable_def [THEN iffD1, THEN conjunct2, THEN conjunct2, THEN conjunct2, THEN conjunct1, rule_format]
lemmas rel_get = vault_reliable_def [THEN iffD1, THEN conjunct2, THEN conjunct2, THEN conjunct2, THEN conjunct2, THEN conjunct1, rule_format]
lemmas rel_config = vault_reliable_def [THEN iffD1, THEN conjunct2, THEN conjunct2, THEN conjunct2, THEN conjunct2, THEN conjunct2, THEN conjunct1, rule_format]
lemmas rel_delete = vault_reliable_def [THEN iffD1, THEN conjunct2, THEN conjunct2, THEN conjunct2, THEN conjunct2, THEN conjunct2, THEN conjunct2, THEN conjunct1, rule_format]
lemmas rel_put = vault_reliable_def [THEN iffD1, THEN conjunct2, THEN conjunct2, THEN conjunct2, THEN conjunct2, THEN conjunct2, THEN conjunct2, THEN conjunct2, THEN conjunct1, rule_format]
lemmas rel_kvget = vault_reliable_def [THEN iffD1, THEN conjunct2, THEN conjunct2, THEN conjunct2, THEN conjunct2, THEN conjunct2, THEN conjunct2, THEN conjunct2, THEN conjunct2, THEN conjunct1, rule_format]
lemmas rel_kvdel = vault_reliable_def [THEN iffD1, THEN conjunct2, THEN conjunct2, THEN conjunct2, THEN conjunct2, THEN conjunct2, THEN conjunct2, THEN conjunct2, THEN conjunct2, THEN conjunct2, rule_format]

text \<open>Every stored blob is one that the key of the same name opens.\<close>

definition vault_consistent :: "'w vault_view \<Rightarrow> 'w \<Rightarrow> bool" where
  "vault_consistent V w \<longleftrightarrow>
     (\<forall>c wr. vv_kv V w (hexCID c) = Some wr \<longrightarrow>
        wr \<noteq> [] \<and> vault_mat V w (Digest c) \<noteq> None)"

definition vault_up :: "'w keyenv \<Rightarrow> 'w VaultTransit \<Rightarrow> 'w vault_view \<Rightarrow> 'w ks_state \<Rightarrow> bool" where
  "vault_up E v V s \<longleftrightarrow> vault_reliable E v V \<and> vault_consistent V (ks_world s)"

lemma vault_consistent_same: "vault_same V w w' \<Longrightarrow> vault_consistent V w \<Longrightarrow> vault_consistent V w'"
  using vault_mat_same [of V w w'] by (auto simp: vault_consistent_def vault_same_def)

lemma vault_reliableD:
  assumes "vault_reliable E v V"
  shows "\<exists>b w'. ke_Rand E n w = (Inr b, w')"
    and "fst (transitCreateKey v (transitKeyName c) w) = None"
    and "vv_keys V w (transitKeyName c) \<noteq> None \<Longrightarrow> \<exists>ct. ct \<noteq> [] \<and> fst (transitEncrypt v (transitKeyName c) m w) = Inr ct"
    and "vv_keys V w (transitKeyName c) = Some key \<Longrightarrow> vv_open V key wr = Some m \<Longrightarrow>
         fst (transitDecrypt v (transitKeyName c) wr w) = Inr m"
    and "vv_open V key wr = Some pt \<Longrightarrow> fst (kvPutWrapped v c wr w) = None"
    and "vv_kv V w (hexCID c) = None \<Longrightarrow> fst (kvGetWrapped v c w) = Inl (Sentinel ErrKeyNotFound)"
    and "vv_kv V w (hexCID c) = Some wr \<Longrightarrow> wr \<noteq> [] \<Longrightarrow> fst (kvGetWrapped v c w) = Inr wr"
    and "not_found_ok ErrVaultNotFound (fst (kvDeleteMetadata v c w)) = None"
proof -
  show "\<exists>b w'. ke_Rand E n w = (Inr b, w')" by (rule rel_rand [OF assms])
  show "fst (transitCreateKey v (transitKeyName c) w) = None"
    using rel_create [OF assms, of c w] by (auto simp: transitCreateKey_def answered_def split: prod.splits sum.splits)
  show "fst (kvPutWrapped v c wr w) = None" if "vv_open V key wr = Some pt"
    using rel_put [OF assms that, of c w] by (auto simp: kvPutWrapped_def answered_def split: prod.splits sum.splits)
  show "not_found_ok ErrVaultNotFound (fst (kvDeleteMetadata v c w)) = None"
    using rel_kvdel [OF assms, of c w]
    by (auto simp: kvDeleteMetadata_def answered_def not_found_ok_def split: prod.splits sum.splits)
  show "vv_kv V w (hexCID c) = None \<Longrightarrow> fst (kvGetWrapped v c w) = Inl (Sentinel ErrKeyNotFound)"
    using rel_kvget [OF assms, of c w] by (auto simp: kvGetWrapped_def answered_def split: prod.splits sum.splits)
  show "vv_kv V w (hexCID c) = Some wr \<Longrightarrow> wr \<noteq> [] \<Longrightarrow> fst (kvGetWrapped v c w) = Inr wr"
    using rel_kvget [OF assms, of c w] by (auto simp: kvGetWrapped_def split: prod.splits)
  show "\<exists>ct. ct \<noteq> [] \<and> fst (transitEncrypt v (transitKeyName c) m w) = Inr ct" if "vv_keys V w (transitKeyName c) \<noteq> None"
    using rel_encrypt [OF assms that, of m] by (auto simp: transitEncrypt_def split: prod.splits)
  show "fst (transitDecrypt v (transitKeyName c) wr w) = Inr m"
    if "vv_keys V w (transitKeyName c) = Some key" "vv_open V key wr = Some m"
    using rel_decrypt [OF assms that] by (auto simp: transitDecrypt_def b64_decode_encode [OF b64_std_ok] split: prod.splits)
qed

lemma transitDeleteKey_up:
  assumes "vault_reliable E v V"
  shows "not_found_ok ErrVaultNotFound (fst (transitDeleteKey v (transitKeyName c) w)) = None"
proof -
  let ?u = "transit_url v ''keys'' (transitKeyName c)"
  obtain q w1 where 1: "Vault_do v ''GET'' ?u None w = (q, w1)" by fastforce
  obtain q2 w2 where 2: "Vault_do v ''POST'' (?u @ ''/config'') (Some config_body) w1 = (q2, w2)" by fastforce
  obtain q3 w3 where 3: "Vault_do v ''DELETE'' ?u None w2 = (q3, w3)" by fastforce
  show ?thesis
    using rel_get [OF assms, of w c] rel_config [OF assms, of c w1] rel_delete [OF assms, of c w2] 1 2 3
    by (auto simp: transitDeleteKey_def answered_def not_found_ok_def split: sum.splits if_splits)
qed

lemma Vault_material_up:
  assumes "vault_api E v V" "vault_reliable E v V" "vault_consistent V w"
  shows "fst (Vault_material v c w) =
    (case vault_mat V w (Digest c) of None \<Rightarrow> Inl (Sentinel ErrKeyNotFound) | Some m \<Rightarrow> Inr m)"
proof (cases "vv_kv V w (hexCID c)")
  case None
  then show ?thesis
    using vault_reliableD(6) [OF assms(2) None]
    by (cases "kvGetWrapped v c w") (auto simp: Vault_material_def vault_mat_digest split: option.splits)
next
  case (Some wr)
  then have ne: "wr \<noteq> []" and "vault_mat V w (Digest c) \<noteq> None" using assms(3) by (auto simp: vault_consistent_def)
  then obtain key m where k: "vv_keys V w (transitKeyName c) = Some key" "vv_open V key wr = Some m"
    using Some by (auto simp: vault_mat_digest split: option.splits)
  obtain w1 where g: "kvGetWrapped v c w = (Inr wr, w1)"
    using vault_reliableD(7) [OF assms(2) Some ne] by (metis prod.collapse)
  then have "vv_keys V w1 = vv_keys V w"
    using kvGetWrapped_view [OF vault_apiD(3) [OF assms(1)] g] by (simp add: vault_same_def)
  then have "fst (transitDecrypt v (transitKeyName c) wr w1) = Inr m"
    using vault_reliableD(4) [OF assms(2)] k by simp
  with g k Some show ?thesis by (simp add: Vault_material_def vault_mat_digest)
qed

lemma Vault_store_up:
  assumes "vault_api E v V" "vault_reliable E v V" "vault_consistent V w"
  shows "\<exists>w'. Vault_store v c m w = (None, w') \<and> vault_consistent V w'"
proof -
  let ?n = "transitKeyName c"
  obtain w1 where c: "transitCreateKey v ?n w = (None, w1)"
    using vault_reliableD(2) [OF assms(2)] by (metis prod.collapse)
  note V1 = transitCreateKey_view [OF vault_apiD(1) [OF assms(1)] c]
  obtain wr w2 where e: "transitEncrypt v ?n m w1 = (Inr wr, w2)" "wr \<noteq> []"
    using vault_reliableD(3) [OF assms(2)] V1 by (metis prod.collapse)
  obtain key where key: "vv_open V key wr = Some m" "ascii wr"
    using transitEncrypt_view [OF vault_apiD(2) [OF assms(1)] e(1)] by blast
  obtain w3 where p: "kvPutWrapped v c wr w2 = (None, w3)"
    using vault_reliableD(5) [OF assms(2) key(1), of c w2] by (metis prod.collapse)
  have st: "Vault_store v c m w = (None, w3)" using c e p by (simp add: Vault_store_def)
  note S = Vault_store_view [OF assms(1) st]
  have kv: "vv_kv V w3 (hexCID c) = Some wr" "\<And>x. x \<noteq> hexCID c \<Longrightarrow> vv_kv V w3 x = vv_kv V w x"
    using kvPutWrapped_view [OF vault_apiD(3) [OF assms(1)] p] V1 key(2)
      transitEncrypt_view [OF vault_apiD(2) [OF assms(1)] e(1)] by (auto simp: vault_same_def)
  have "vault_consistent V w3"
    unfolding vault_consistent_def
  proof (intro allI impI)
    fix x wx assume wx: "vv_kv V w3 (hexCID x) = Some wx"
    show "wx \<noteq> [] \<and> vault_mat V w3 (Digest x) \<noteq> None"
    proof (cases "Digest x = Digest c")
      case True
      then have "hexCID x = hexCID c" by simp
      with S wx kv(1) e(2) True show ?thesis by auto
    next
      case False
      with S wx kv(2) [of "hexCID x"] assms(3) show ?thesis by (simp add: vault_consistent_def)
    qed
  qed
  with st show ?thesis by blast
qed

lemma Vault_Delete_up:
  assumes "vault_api E v V" "vault_reliable E v V" "vault_consistent V (ks_world s)"
  shows "\<exists>s'. Vault_Delete k v c s = (None, s') \<and> vault_consistent V (ks_world s')"
proof -
  obtain r1 w1 where a: "kvDeleteMetadata v c (ks_world s) = (r1, w1)" by fastforce
  obtain r2 w2 where b: "transitDeleteKey v (transitKeyName c) w1 = (r2, w2)" by fastforce
  have r: "not_found_ok ErrVaultNotFound r1 = None" "not_found_ok ErrVaultNotFound r2 = None"
    using vault_reliableD(8) [OF assms(2), of c "ks_world s"] transitDeleteKey_up [OF assms(2), of c w1] a b by simp_all
  let ?s = "\<lparr>ks_cache = ks_cache s - {sdk_String k c}, ks_world = w2\<rparr>"
  have d: "Vault_Delete k v c s = (None, ?s)" using a b r by (simp add: Vault_Delete_def)
  note D = Vault_Delete_view [OF assms(1) d]
  have kv: "vv_kv V w2 x = vv_kv V (ks_world s) x" if "x \<noteq> hexCID c" for x
    using kvDeleteMetadata_view [OF vault_apiD(3) [OF assms(1)] a]
      transitDeleteKey_view [OF vault_apiD(1) [OF assms(1)] b] that by simp
  have "vault_consistent V w2"
    unfolding vault_consistent_def
  proof (intro allI impI)
    fix x wx assume wx: "vv_kv V w2 (hexCID x) = Some wx"
    moreover have "vv_kv V w2 (hexCID c) = None" using D by simp
    ultimately have "hexCID x \<noteq> hexCID c" by (metis option.distinct(1))
    then have "Digest x \<noteq> Digest c" by simp
    with D kv [of "hexCID x"] wx have "vv_kv V (ks_world s) (hexCID x) = Some wx"
        "vault_mat V w2 (Digest x) = vault_mat V (ks_world s) (Digest x)" by simp_all
    with assms(3) show "wx \<noteq> [] \<and> vault_mat V w2 (Digest x) \<noteq> None"
      unfolding vault_consistent_def by metis
  qed
  with d show ?thesis by auto
qed

lemma vault_draw_up:
  assumes "vault_api E v V" "vault_reliable E v V" "vault_consistent V w"
  shows "\<exists>key nonce w'. draw_material E tag w = (Inr (key, nonce), w') \<and> vault_consistent V w'"
proof -
  obtain key w1 where 1: "ke_Rand E (ke_KeySize E) w = (Inr key, w1)" using vault_reliableD(1) [OF assms(2)] by blast
  obtain nonce w2 where 2: "ke_Rand E (ke_NonceSize E) w1 = (Inr nonce, w2)" using vault_reliableD(1) [OF assms(2)] by blast
  have "vault_same V w w2"
    using vault_apiD(4) [OF assms(1), of w "ke_KeySize E"] vault_apiD(4) [OF assms(1), of w1 "ke_NonceSize E"] 1 2
    by (simp add: vault_same_trans)
  with 1 2 assms(3) vault_consistent_same show ?thesis by (auto simp: draw_material_def)
qed

lemma Vault_material_world:
  assumes "vault_api E v V" "vault_consistent V w"
  shows "vault_consistent V (snd (Vault_material v c w))"
proof (rule vault_consistent_same [OF _ assms(2)])
  show "vault_same V w (snd (Vault_material v c w))"
    using Vault_material_view [OF assms(1), of c w "fst (Vault_material v c w)"] by simp
qed

interpretation vault_up: key_custody_up "Vault_service k E v" vault_tag "vault_inv E v V"
  "\<lambda>s. vault_mat V (ks_world s)" "opens E" "sdk_Compute k" "Vault_draws E" "\<lambda>_ _. True" "vault_up E v V"
proof (unfold_locales, goal_cases)
  case (1 s pt)
  then have H: "keyenv_ok E" "vault_api E v V" "vault_reliable E v V" "vault_consistent V (ks_world s)"
    by (simp_all add: vault_inv_def vault_up_def)
  obtain key nonce w1 where d: "draw_material E vault_tag (ks_world s) = (Inr (key, nonce), w1)" "vault_consistent V w1"
    using vault_draw_up [OF H(2-4)] by blast
  have seal: "aesGCMSeal E key nonce pt = Inr (ke_Seal E key nonce pt)"
    using seal_ok [OF H(1)] draw_material_length [OF H(1) d(1)] by blast
  obtain w2 where "Vault_store v (sdk_Compute k (ke_Seal E key nonce pt)) (key @ nonce) w1 = (None, w2)"
      "vault_consistent V w2"
    using Vault_store_up [OF H(2,3) d(2)] by blast
  with d seal H(3) show ?case by (simp add: Vault_GenerateAndEncrypt_def vault_up_def Let_def)
next
  case (2 s c m ct pt)
  then have H: "vault_api E v V" "vault_reliable E v V" "vault_consistent V (ks_world s)"
    by (simp_all add: vault_inv_def vault_up_def)
  from 2 Vault_material_up [OF H, of c] obtain w1 where d: "Vault_material v c (ks_world s) = (Inr m, w1)"
    by (metis (no_types, lifting) option.simps(5) prod.collapse)
  from d 2 Vault_material_world [OF H(1,3), of c] H(2) show ?case
    by (auto simp: Vault_Decrypt_def open_material_Inr vault_up_def)
next
  case (3 s c ct)
  then have H: "vault_api E v V" "vault_reliable E v V" "vault_consistent V (ks_world s)"
    by (simp_all add: vault_inv_def vault_up_def)
  from 3 Vault_material_up [OF H, of c] obtain w1 where
    d: "Vault_material v c (ks_world s) = (Inl (Sentinel ErrKeyNotFound), w1)"
    by (metis (no_types, lifting) option.simps(4) prod.collapse)
  from d Vault_material_world [OF H(1,3), of c] H(2) show ?case
    by (auto simp: Vault_Decrypt_def vault_up_def)
next
  case (4 s c)
  then have H: "vault_api E v V" "vault_reliable E v V" "vault_consistent V (ks_world s)"
    by (simp_all add: vault_inv_def vault_up_def)
  from Vault_Delete_up [OF H, of k c] H(2) show ?case by (auto simp: vault_up_def)
qed

end
