(* ===== verification/Ks_Gcpkms.thy ===== *)
theory Ks_Gcpkms
  imports Key_Custody
begin

text \<open>
  \<open>keyservice/gcpkms.go\<close>, \<open>gcpkms_api.go\<close> and \<open>gcpkms_setup.go\<close>: envelope encryption
  under one Cloud KMS key, with the wrapped data keys as Firestore documents. Cloud KMS and
  Firestore are the HTTP client's world; \<open>gcp_api\<close> says what the code relies on of them.
\<close>

record GCPKMSConfig =
  gk_KEKResourceName :: string
  gk_FirestoreProjectID :: string
  gk_FirestoreDatabase :: string
  gk_FirestoreCollection :: string
  gk_KMSEndpoint :: string
  gk_FirestoreEndpoint :: string

record 'w GCPKMS =
  gk_cfg :: GCPKMSConfig
  gk_client :: "'w net"

definition gcp_tag :: string where
  "gcp_tag = ''keyservice/gcpkms''"

text \<open>
  \<open>client\<close> is the configured HTTP client, if any; \<open>adc\<close> what the default credentials give.
\<close>

definition gcp_defaults :: "GCPKMSConfig \<Rightarrow> GCPKMSConfig" where
  "gcp_defaults cfg =
     (let dflt = (\<lambda>s d. if s = [] then d else s) in
      cfg\<lparr>gk_FirestoreCollection := dflt (gk_FirestoreCollection cfg) ''ortholog-artifact-keys'',
          gk_FirestoreDatabase := dflt (gk_FirestoreDatabase cfg) ''(default)'',
          gk_KMSEndpoint := trim_right_byte CHR ''/'' (dflt (gk_KMSEndpoint cfg) ''https://cloudkms.googleapis.com''),
          gk_FirestoreEndpoint :=
            trim_right_byte CHR ''/'' (dflt (gk_FirestoreEndpoint cfg) ''https://firestore.googleapis.com'')\<rparr>)"

definition NewGCPKMS :: "'w net option \<Rightarrow> goerr + 'w net \<Rightarrow> GCPKMSConfig \<Rightarrow> goerr + 'w GCPKMS" where
  "NewGCPKMS client adc cfg =
     (if gk_KEKResourceName cfg = [] then Inl (Errorf [Lit ''keyservice/gcpkms: KEKResourceName is required''])
      else if \<not> has_prefix (gk_KEKResourceName cfg) ''projects/''
      then Inl (Errorf [Lit ''keyservice/gcpkms: KEKResourceName must be in projects/.../cryptoKeys/<name> form''])
      else if gk_FirestoreProjectID cfg = []
      then Inl (Errorf [Lit ''keyservice/gcpkms: FirestoreProjectID is required''])
      else case client of
             Some n \<Rightarrow> Inr \<lparr>gk_cfg = gcp_defaults cfg, gk_client = n\<rparr>
           | None \<Rightarrow>
               (case adc of
                  Inl e \<Rightarrow> Inl (Errorf [Lit ''keyservice/gcpkms: ADC token source: '', Wrp e])
                | Inr n \<Rightarrow> Inr \<lparr>gk_cfg = gcp_defaults cfg, gk_client = n\<rparr>))"

definition firestoreParentPath :: "'w GCPKMS \<Rightarrow> string" where
  "firestoreParentPath g =
     ''projects/'' @ gk_FirestoreProjectID (gk_cfg g) @ ''/databases/'' @ gk_FirestoreDatabase (gk_cfg g) @
     ''/documents/'' @ gk_FirestoreCollection (gk_cfg g)"

definition firestoreDocPath :: "'w GCPKMS \<Rightarrow> cid \<Rightarrow> string" where
  "firestoreDocPath g c =
     ''projects/'' @ gk_FirestoreProjectID (gk_cfg g) @ ''/databases/'' @ gk_FirestoreDatabase (gk_cfg g) @
     ''/documents/'' @ gk_FirestoreCollection (gk_cfg g) @ ''/'' @ hex_encode (Digest c)"

definition docID :: "cid \<Rightarrow> string" where
  "docID c = hex_encode (Digest c)"

section \<open>The Cloud KMS and Firestore calls\<close>

definition GCP_do ::
  "'w GCPKMS \<Rightarrow> string \<Rightarrow> string \<Rightarrow> json option \<Rightarrow> 'w \<Rightarrow> (goerr + http_response) \<times> 'w" where
  "GCP_do g = ks_do gcp_tag None (gk_client g)"

definition fmtGCPErr :: "http_response \<Rightarrow> string \<Rightarrow> goerr" where
  "fmtGCPErr = fmt_http_err gcp_tag"

text \<open>A string member of a response, and the member \<open>fields.wrapped.bytesValue\<close>.\<close>

definition body_field :: "string \<Rightarrow> http_response \<Rightarrow> string option" where
  "body_field name resp =
     (case decode_body resp of
        None \<Rightarrow> None
      | Some j \<Rightarrow> (case json_members j of None \<Rightarrow> None | Some obj \<Rightarrow> decode_str name obj))"

definition wrapped_field :: "json \<Rightarrow> string option" where
  "wrapped_field j =
     (case json_members j of
        None \<Rightarrow> None
      | Some obj \<Rightarrow>
          (case decode_obj ''fields'' obj of
             None \<Rightarrow> None
           | Some f \<Rightarrow>
               (case decode_obj ''wrapped'' f of None \<Rightarrow> None | Some wr \<Rightarrow> decode_str ''bytesValue'' wr)))"

definition kms_url :: "'w GCPKMS \<Rightarrow> string \<Rightarrow> string" where
  "kms_url g verb = gk_KMSEndpoint (gk_cfg g) @ ''/v1/'' @ gk_KEKResourceName (gk_cfg g) @ '':'' @ verb"

definition kms_body :: "string \<Rightarrow> bytes \<Rightarrow> json" where
  "kms_body name b = JObj [(name, JStr (b64_encode b64_std True b))]"

definition kmsEncrypt :: "'w GCPKMS \<Rightarrow> bytes \<Rightarrow> 'w \<Rightarrow> (goerr + bytes) \<times> 'w" where
  "kmsEncrypt g pt w =
     (case GCP_do g ''POST'' (kms_url g ''encrypt'') (Some (kms_body ''plaintext'' pt)) w of
        (Inl e, w1) \<Rightarrow> (Inl e, w1)
      | (Inr resp, w1) \<Rightarrow>
          (if rs_status resp \<noteq> 200 then (Inl (fmtGCPErr resp ''kms encrypt''), w1)
           else case body_field ''ciphertext'' resp of
                  None \<Rightarrow> (Inl (Errorf [Lit ''keyservice/gcpkms: decode encrypt response: '', Wrp (Foreign ''json'')]), w1)
                | Some x \<Rightarrow>
                    (if x = [] then (Inl (Errorf [Lit ''keyservice/gcpkms: encrypt returned empty ciphertext'']), w1)
                     else case b64_decode b64_std True x of
                            None \<Rightarrow> (Inl (Errorf [Lit ''keyservice/gcpkms: decode encrypt ciphertext base64: '',
                                             Wrp (Foreign ''base64'')]), w1)
                          | Some ct \<Rightarrow> (Inr ct, w1))))"

definition kmsDecrypt :: "'w GCPKMS \<Rightarrow> bytes \<Rightarrow> 'w \<Rightarrow> (goerr + bytes) \<times> 'w" where
  "kmsDecrypt g ct w =
     (case GCP_do g ''POST'' (kms_url g ''decrypt'') (Some (kms_body ''ciphertext'' ct)) w of
        (Inl e, w1) \<Rightarrow> (Inl e, w1)
      | (Inr resp, w1) \<Rightarrow>
          (if rs_status resp \<noteq> 200 then (Inl (fmtGCPErr resp ''kms decrypt''), w1)
           else case body_field ''plaintext'' resp of
                  None \<Rightarrow> (Inl (Errorf [Lit ''keyservice/gcpkms: decode decrypt response: '', Wrp (Foreign ''json'')]), w1)
                | Some x \<Rightarrow>
                    (case b64_decode b64_std True x of
                       None \<Rightarrow> (Inl (Errorf [Lit ''keyservice/gcpkms: decode decrypt plaintext base64: '',
                                        Wrp (Foreign ''base64'')]), w1)
                     | Some pt \<Rightarrow> (Inr pt, w1))))"

definition create_doc_url :: "'w GCPKMS \<Rightarrow> string \<Rightarrow> string" where
  "create_doc_url g doc =
     gk_FirestoreEndpoint (gk_cfg g) @ ''/v1/'' @ firestoreParentPath g @ ''?documentId='' @ doc"

definition doc_url :: "'w GCPKMS \<Rightarrow> string \<Rightarrow> string" where
  "doc_url g doc = gk_FirestoreEndpoint (gk_cfg g) @ ''/v1/'' @ firestoreParentPath g @ ''/'' @ doc"

definition doc_body :: "bytes \<Rightarrow> json" where
  "doc_body wrapped =
     JObj [(''fields'', JObj [(''wrapped'', JObj [(''bytesValue'', JStr (b64_encode b64_std True wrapped))])])]"

definition firestoreCreateWrapped :: "'w GCPKMS \<Rightarrow> string \<Rightarrow> bytes \<Rightarrow> 'w \<Rightarrow> goerr option \<times> 'w" where
  "firestoreCreateWrapped g doc wrapped w =
     (case GCP_do g ''POST'' (create_doc_url g doc) (Some (doc_body wrapped)) w of
        (Inl e, w1) \<Rightarrow> (Some e, w1)
      | (Inr resp, w1) \<Rightarrow>
          (if rs_status resp = 200 \<or> rs_status resp = 201 then (None, w1)
           else if rs_status resp = 409 then (Some (fmtGCPErr resp ''firestore createDocument (duplicate)''), w1)
           else (Some (fmtGCPErr resp ''firestore createDocument''), w1)))"

definition firestoreGetWrapped :: "'w GCPKMS \<Rightarrow> string \<Rightarrow> 'w \<Rightarrow> (goerr + bytes) \<times> 'w" where
  "firestoreGetWrapped g doc w =
     (case GCP_do g ''GET'' (doc_url g doc) None w of
        (Inl e, w1) \<Rightarrow> (Inl e, w1)
      | (Inr resp, w1) \<Rightarrow>
          (if rs_status resp = 404 then (Inl (Sentinel ErrKeyNotFound), w1)
           else if rs_status resp \<noteq> 200 then (Inl (fmtGCPErr resp ''firestore getDocument''), w1)
           else case Option.bind (decode_body resp) wrapped_field of
                  None \<Rightarrow> (Inl (Errorf [Lit ''keyservice/gcpkms: decode firestore get: '', Wrp (Foreign ''json'')]), w1)
                | Some x \<Rightarrow>
                    (if x = [] then (Inl (Sentinel ErrKeyNotFound), w1)
                     else case b64_decode b64_std True x of
                            None \<Rightarrow> (Inl (Errorf [Lit ''keyservice/gcpkms: decode wrapped bytes: '',
                                             Wrp (Foreign ''base64'')]), w1)
                          | Some wr \<Rightarrow> (Inr wr, w1))))"

definition firestoreDeleteWrapped :: "'w GCPKMS \<Rightarrow> string \<Rightarrow> 'w \<Rightarrow> goerr option \<times> 'w" where
  "firestoreDeleteWrapped g doc w =
     (case GCP_do g ''DELETE'' (doc_url g doc) None w of
        (Inl e, w1) \<Rightarrow> (Some e, w1)
      | (Inr resp, w1) \<Rightarrow>
          (if rs_status resp = 200 \<or> rs_status resp = 204 then (None, w1)
           else if rs_status resp = 404 then (Some (Sentinel ErrGCPNotFound), w1)
           else (Some (fmtGCPErr resp ''firestore deleteDocument''), w1)))"

section \<open>The operations\<close>

definition GCP_GenerateAndEncrypt ::
  "sdk \<Rightarrow> 'w keyenv \<Rightarrow> 'w GCPKMS \<Rightarrow> bytes \<Rightarrow> 'w ks_state \<Rightarrow> (goerr + cid \<times> bytes) \<times> 'w ks_state" where
  "GCP_GenerateAndEncrypt k E g pt s =
     (case draw_material E gcp_tag (ks_world s) of
        (Inl e, w1) \<Rightarrow> (Inl e, s\<lparr>ks_world := w1\<rparr>)
      | (Inr (key, nonce), w1) \<Rightarrow>
          (case aesGCMSeal E key nonce pt of
             Inl e \<Rightarrow> (Inl (Errorf [Lit ''keyservice/gcpkms: AES-GCM seal: '', Wrp e]), s\<lparr>ks_world := w1\<rparr>)
           | Inr ct \<Rightarrow>
               (let c = sdk_Compute k ct in
                case kmsEncrypt g (key @ nonce) w1 of
                  (Inl e, w2) \<Rightarrow> (Inl e, s\<lparr>ks_world := w2\<rparr>)
                | (Inr wrapped, w2) \<Rightarrow>
                    (case firestoreCreateWrapped g (docID c) wrapped w2 of
                       (Some e, w3) \<Rightarrow> (Inl e, s\<lparr>ks_world := w3\<rparr>)
                     | (None, w3) \<Rightarrow>
                         (Inr (c, ct), \<lparr>ks_cache = insert (sdk_String k c) (ks_cache s), ks_world = w3\<rparr>)))))"

definition GCP_material :: "'w GCPKMS \<Rightarrow> cid \<Rightarrow> 'w \<Rightarrow> (goerr + bytes) \<times> 'w" where
  "GCP_material g c w =
     (case firestoreGetWrapped g (docID c) w of
        (Inl e, w1) \<Rightarrow> (Inl e, w1)
      | (Inr wrapped, w1) \<Rightarrow> kmsDecrypt g wrapped w1)"

definition GCP_WrapForRecipient ::
  "'w keyenv \<Rightarrow> 'w GCPKMS \<Rightarrow> cid \<Rightarrow> bytes \<Rightarrow> 'w ks_state \<Rightarrow> (goerr + bytes) \<times> 'w ks_state" where
  "GCP_WrapForRecipient E g c pub s =
     (case recipient E pub of
        Inl e \<Rightarrow> (Inl e, s)
      | Inr p \<Rightarrow>
          (case GCP_material g c (ks_world s) of
             (Inl e, w1) \<Rightarrow> (Inl e, s\<lparr>ks_world := w1\<rparr>)
           | (Inr m, w1) \<Rightarrow>
               (case ke_EncryptForNode E m p w1 of
                  (Inl e, w2) \<Rightarrow> (Inl (Errorf [Lit ''keyservice/gcpkms: ECIES wrap: '', Wrp e]), s\<lparr>ks_world := w2\<rparr>)
                | (Inr env, w2) \<Rightarrow> (Inr env, s\<lparr>ks_world := w2\<rparr>))))"

definition GCP_Decrypt ::
  "'w keyenv \<Rightarrow> 'w GCPKMS \<Rightarrow> cid \<Rightarrow> bytes \<Rightarrow> 'w ks_state \<Rightarrow> (goerr + bytes) \<times> 'w ks_state" where
  "GCP_Decrypt E g c ct s =
     (case GCP_material g c (ks_world s) of
        (Inl e, w1) \<Rightarrow> (Inl e, s\<lparr>ks_world := w1\<rparr>)
      | (Inr m, w1) \<Rightarrow> (open_material E gcp_tag m ct, s\<lparr>ks_world := w1\<rparr>))"

definition GCP_Delete ::
  "sdk \<Rightarrow> 'w GCPKMS \<Rightarrow> cid \<Rightarrow> 'w ks_state \<Rightarrow> goerr option \<times> 'w ks_state" where
  "GCP_Delete k g c s =
     (case firestoreDeleteWrapped g (docID c) (ks_world s) of
        (r, w1) \<Rightarrow>
          (case r of
             Some e \<Rightarrow>
               if \<not> errors_is e ErrGCPNotFound then (Some e, s\<lparr>ks_world := w1\<rparr>)
               else (None, \<lparr>ks_cache = ks_cache s - {sdk_String k c}, ks_world = w1\<rparr>)
           | None \<Rightarrow> (None, \<lparr>ks_cache = ks_cache s - {sdk_String k c}, ks_world = w1\<rparr>)))"

definition GCP_Rotate ::
  "sdk \<Rightarrow> 'w keyenv \<Rightarrow> 'w GCPKMS \<Rightarrow> cid \<Rightarrow> bytes \<Rightarrow> 'w ks_state \<Rightarrow>
   (cid \<times> bytes \<times> goerr option) \<times> 'w ks_state" where
  "GCP_Rotate k E g =
     rotate_with gcp_tag (GCP_Decrypt E g) (GCP_GenerateAndEncrypt k E g) (GCP_Delete k g)"

definition GCP_service :: "sdk \<Rightarrow> 'w keyenv \<Rightarrow> 'w GCPKMS \<Rightarrow> 'w ks_state ArtifactKeyService" where
  "GCP_service k E g =
     \<lparr>as_GenerateAndEncrypt = GCP_GenerateAndEncrypt k E g,
      as_WrapForRecipient = GCP_WrapForRecipient E g,
      as_Decrypt = GCP_Decrypt E g,
      as_Rotate = GCP_Rotate k E g,
      as_Delete = GCP_Delete k g\<rparr>"

lemma GCP_service_sel [simp]:
  "as_GenerateAndEncrypt (GCP_service k E g) = GCP_GenerateAndEncrypt k E g"
  "as_WrapForRecipient (GCP_service k E g) = GCP_WrapForRecipient E g"
  "as_Decrypt (GCP_service k E g) = GCP_Decrypt E g"
  "as_Rotate (GCP_service k E g) = GCP_Rotate k E g"
  "as_Delete (GCP_service k E g) = GCP_Delete k g"
  by (simp_all add: GCP_service_def)

lemma docID_inject [simp]: "docID c = docID c' \<longleftrightarrow> Digest c = Digest c'"
  by (simp add: docID_def)

end
