(* ===== verification/Gcp_Custody.thy ===== *)
theory Gcp_Custody
  imports Ks_Gcpkms
begin

text \<open>
  The GCP key service meets the contract of \<open>Key_Custody\<close>: the key material it holds for a
  digest is what Cloud KMS opens in the Firestore document of that name.
\<close>

section \<open>What the code relies on of Cloud KMS and Firestore\<close>

record 'w gcp_view =
  gv_doc :: "'w \<Rightarrow> string \<Rightarrow> bytes option"
  gv_open :: "'w \<Rightarrow> bytes \<Rightarrow> bytes option"

definition gcp_same :: "'w gcp_view \<Rightarrow> 'w \<Rightarrow> 'w \<Rightarrow> bool" where
  "gcp_same V w w' \<longleftrightarrow> gv_doc V w' = gv_doc V w \<and> gv_open V w' = gv_open V w"

definition status_in :: "nat set \<Rightarrow> goerr + http_response \<Rightarrow> bool" where
  "status_in S r = (case r of Inl e \<Rightarrow> False | Inr resp \<Rightarrow> rs_status resp \<in> S)"

text \<open>
  Servers that may refuse a request, and may fail it after it took effect: a success status
  means that the effect took place, no request touches another document, and
  \<open>CreateDocument\<close> never replaces one.
\<close>

definition kms_api :: "'w GCPKMS \<Rightarrow> 'w gcp_view \<Rightarrow> bool" where
  "kms_api g V \<longleftrightarrow>
     (\<forall>pt w r w'. GCP_do g ''POST'' (kms_url g ''encrypt'') (Some (kms_body ''plaintext'' pt)) w = (r, w') \<longrightarrow>
        gcp_same V w w' \<and>
        (\<forall>resp x ct. r = Inr resp \<longrightarrow> rs_status resp = 200 \<longrightarrow> body_field ''ciphertext'' resp = Some x \<longrightarrow>
           b64_decode b64_std True x = Some ct \<longrightarrow> gv_open V w ct = Some pt)) \<and>
     (\<forall>ct w r w'. GCP_do g ''POST'' (kms_url g ''decrypt'') (Some (kms_body ''ciphertext'' ct)) w = (r, w') \<longrightarrow>
        gcp_same V w w' \<and>
        (\<forall>resp x pt. r = Inr resp \<longrightarrow> rs_status resp = 200 \<longrightarrow> body_field ''plaintext'' resp = Some x \<longrightarrow>
           b64_decode b64_std True x = Some pt \<longrightarrow> gv_open V w ct = Some pt))"

definition firestore_api :: "'w GCPKMS \<Rightarrow> 'w gcp_view \<Rightarrow> bool" where
  "firestore_api g V \<longleftrightarrow>
     (\<forall>c wr w r w'. GCP_do g ''POST'' (create_doc_url g (docID c)) (Some (doc_body wr)) w = (r, w') \<longrightarrow>
        gv_open V w' = gv_open V w \<and>
        (\<forall>x. x \<noteq> docID c \<or> gv_doc V w x \<noteq> None \<longrightarrow> gv_doc V w' x = gv_doc V w x) \<and>
        (status_in {200, 201} r \<longrightarrow> gv_doc V w (docID c) = None \<and> gv_doc V w' (docID c) = Some wr)) \<and>
     (\<forall>c w r w'. GCP_do g ''GET'' (doc_url g (docID c)) None w = (r, w') \<longrightarrow>
        gcp_same V w w' \<and>
        (\<forall>resp x wr. r = Inr resp \<longrightarrow> rs_status resp = 200 \<longrightarrow> Option.bind (decode_body resp) wrapped_field = Some x \<longrightarrow>
           x \<noteq> [] \<longrightarrow> b64_decode b64_std True x = Some wr \<longrightarrow> gv_doc V w (docID c) = Some wr)) \<and>
     (\<forall>c w r w'. GCP_do g ''DELETE'' (doc_url g (docID c)) None w = (r, w') \<longrightarrow>
        gv_open V w' = gv_open V w \<and>
        (\<forall>x. x \<noteq> docID c \<longrightarrow> gv_doc V w' x = gv_doc V w x) \<and>
        gv_doc V w' (docID c) \<in> {gv_doc V w (docID c), None} \<and>
        (status_in {200, 204, 404} r \<longrightarrow> gv_doc V w' (docID c) = None))"

definition gcp_api :: "'w keyenv \<Rightarrow> 'w GCPKMS \<Rightarrow> 'w gcp_view \<Rightarrow> bool" where
  "gcp_api E g V \<longleftrightarrow> kms_api g V \<and> firestore_api g V \<and>
     (\<forall>n w. gcp_same V w (snd (ke_Rand E n w))) \<and>
     (\<forall>m p w. gcp_same V w (snd (ke_EncryptForNode E m p w)))"

lemmas kms_encrypt_law = kms_api_def [THEN iffD1, THEN conjunct1, rule_format]
lemmas kms_decrypt_law = kms_api_def [THEN iffD1, THEN conjunct2, rule_format]
lemmas doc_create_law = firestore_api_def [THEN iffD1, THEN conjunct1, rule_format]
lemmas doc_get_law = firestore_api_def [THEN iffD1, THEN conjunct2, THEN conjunct1, rule_format]
lemmas doc_delete_law = firestore_api_def [THEN iffD1, THEN conjunct2, THEN conjunct2, rule_format]

lemma gcp_same_trans: "gcp_same V w w' \<Longrightarrow> gcp_same V w' w'' \<Longrightarrow> gcp_same V w w''"
  by (simp add: gcp_same_def)

lemma gcp_apiD:
  assumes "gcp_api E g V"
  shows "kms_api g V" "firestore_api g V"
    "gcp_same V w (snd (ke_Rand E n w))" "gcp_same V w (snd (ke_EncryptForNode E m p w))"
  using assms by (simp_all add: gcp_api_def)

section \<open>The effect of each call on the view\<close>

lemma kmsEncrypt_view:
  assumes "kms_api g V" "kmsEncrypt g pt w = (r, w')"
  shows "gcp_same V w w' \<and> (\<forall>ct. r = Inr ct \<longrightarrow> gv_open V w ct = Some pt)"
proof -
  obtain q where d: "GCP_do g ''POST'' (kms_url g ''encrypt'') (Some (kms_body ''plaintext'' pt)) w = (q, w')"
      and r: "\<And>ct. r = Inr ct \<Longrightarrow> \<exists>resp x. q = Inr resp \<and> rs_status resp = 200 \<and>
                body_field ''ciphertext'' resp = Some x \<and> b64_decode b64_std True x = Some ct"
    using assms(2) by (auto simp: kmsEncrypt_def split: prod.splits sum.splits if_splits option.splits)
  from kms_encrypt_law [OF assms(1) d] r show ?thesis by blast
qed

lemma kmsDecrypt_view:
  assumes "kms_api g V" "kmsDecrypt g ct w = (r, w')"
  shows "gcp_same V w w' \<and> (\<forall>pt. r = Inr pt \<longrightarrow> gv_open V w ct = Some pt)"
proof -
  obtain q where d: "GCP_do g ''POST'' (kms_url g ''decrypt'') (Some (kms_body ''ciphertext'' ct)) w = (q, w')"
      and r: "\<And>pt. r = Inr pt \<Longrightarrow> \<exists>resp x. q = Inr resp \<and> rs_status resp = 200 \<and>
                body_field ''plaintext'' resp = Some x \<and> b64_decode b64_std True x = Some pt"
    using assms(2) by (auto simp: kmsDecrypt_def split: prod.splits sum.splits if_splits option.splits)
  from kms_decrypt_law [OF assms(1) d] r show ?thesis by blast
qed

lemma firestoreCreate_view:
  assumes "firestore_api g V" "firestoreCreateWrapped g (docID c) wr w = (r, w')"
  shows "gv_open V w' = gv_open V w \<and>
    (\<forall>x. x \<noteq> docID c \<or> gv_doc V w x \<noteq> None \<longrightarrow> gv_doc V w' x = gv_doc V w x) \<and>
    (r = None \<longrightarrow> gv_doc V w (docID c) = None \<and> gv_doc V w' (docID c) = Some wr)"
proof -
  obtain q where d: "GCP_do g ''POST'' (create_doc_url g (docID c)) (Some (doc_body wr)) w = (q, w')"
      and r: "r = None \<longrightarrow> status_in {200, 201} q"
    using assms(2) by (auto simp: firestoreCreateWrapped_def status_in_def split: prod.splits sum.splits if_splits)
  from doc_create_law [OF assms(1) d] r show ?thesis by blast
qed

lemma firestoreGet_view:
  assumes "firestore_api g V" "firestoreGetWrapped g (docID c) w = (r, w')"
  shows "gcp_same V w w' \<and> (\<forall>wr. r = Inr wr \<longrightarrow> gv_doc V w (docID c) = Some wr)"
proof -
  obtain q where d: "GCP_do g ''GET'' (doc_url g (docID c)) None w = (q, w')"
      and r: "\<And>wr. r = Inr wr \<Longrightarrow> \<exists>resp x. q = Inr resp \<and> rs_status resp = 200 \<and>
                Option.bind (decode_body resp) wrapped_field = Some x \<and> x \<noteq> [] \<and> b64_decode b64_std True x = Some wr"
    using assms(2) by (auto simp: firestoreGetWrapped_def split: prod.splits sum.splits if_splits option.splits)
  from doc_get_law [OF assms(1) d] r show ?thesis by blast
qed

lemma GCP_do_error: "GCP_do g m u b w = (Inl e, w') \<Longrightarrow> \<not> errors_is e ErrGCPNotFound"
  by (auto simp: GCP_do_def ks_do_def new_request_def Let_def split: prod.splits sum.splits option.splits)

lemma firestoreDelete_view:
  assumes "firestore_api g V" "firestoreDeleteWrapped g (docID c) w = (r, w')"
  shows "gv_open V w' = gv_open V w \<and> (\<forall>x. x \<noteq> docID c \<longrightarrow> gv_doc V w' x = gv_doc V w x) \<and>
    gv_doc V w' (docID c) \<in> {gv_doc V w (docID c), None} \<and>
    ((\<forall>e. r = Some e \<longrightarrow> errors_is e ErrGCPNotFound) \<longrightarrow> gv_doc V w' (docID c) = None)"
proof -
  obtain q where d: "GCP_do g ''DELETE'' (doc_url g (docID c)) None w = (q, w')"
      and r: "(\<forall>e. r = Some e \<longrightarrow> errors_is e ErrGCPNotFound) \<longrightarrow> status_in {200, 204, 404} q"
    using assms(2)
    by (auto simp: firestoreDeleteWrapped_def status_in_def fmtGCPErr_def fmt_http_err_unavailable
        split: prod.splits sum.splits if_splits dest: GCP_do_error)
  from doc_delete_law [OF assms(1) d] r show ?thesis by blast
qed

section \<open>The material\<close>

definition gcp_mat :: "'w gcp_view \<Rightarrow> 'w \<Rightarrow> bytes \<Rightarrow> bytes option" where
  "gcp_mat V w d = Option.bind (gv_doc V w (hex_encode d)) (gv_open V w)"

definition gcp_inv :: "'w keyenv \<Rightarrow> 'w GCPKMS \<Rightarrow> 'w gcp_view \<Rightarrow> 'w ks_state \<Rightarrow> bool" where
  "gcp_inv E g V s \<longleftrightarrow> keyenv_ok E \<and> gcp_api E g V"

definition GCP_draws :: "'w keyenv \<Rightarrow> bytes \<Rightarrow> 'w ks_state \<Rightarrow> bytes option" where
  "GCP_draws E pt s =
     (case draw_material E gcp_tag (ks_world s) of
        (Inl e, w1) \<Rightarrow> None
      | (Inr (key, nonce), w1) \<Rightarrow>
          (case aesGCMSeal E key nonce pt of Inl e \<Rightarrow> None | Inr ct \<Rightarrow> Some ct))"

lemma gcp_mat_digest: "gcp_mat V w (Digest c) = Option.bind (gv_doc V w (docID c)) (gv_open V w)"
  by (simp add: gcp_mat_def docID_def)

lemma gcp_mat_other:
  assumes "gv_open V w' = gv_open V w" "\<And>x. x \<noteq> docID c \<Longrightarrow> gv_doc V w' x = gv_doc V w x" "d \<noteq> Digest c"
  shows "gcp_mat V w' d = gcp_mat V w d"
  using assms(1) assms(2) [of "hex_encode d"] assms(3) by (simp add: gcp_mat_def docID_def)

lemma gcp_mat_same: "gcp_same V w w' \<Longrightarrow> gcp_mat V w' = gcp_mat V w"
  by (rule ext) (simp add: gcp_same_def gcp_mat_def)

lemma GCP_material_view:
  assumes "gcp_api E g V" "GCP_material g c w = (r, w')"
  shows "gcp_same V w w' \<and> (\<forall>m. r = Inr m \<longrightarrow> gcp_mat V w (Digest c) = Some m)"
proof (cases "firestoreGetWrapped g (docID c) w")
  case (Pair q w1)
  note G = firestoreGet_view [OF gcp_apiD(2) [OF assms(1)] Pair]
  show ?thesis
  proof (cases q)
    case (Inl e)
    with assms(2) Pair G show ?thesis by (auto simp: GCP_material_def)
  next
    case (Inr wr)
    then have d: "kmsDecrypt g wr w1 = (r, w')" using assms(2) Pair by (simp add: GCP_material_def)
    note D = kmsDecrypt_view [OF gcp_apiD(1) [OF assms(1)] d]
    have "gcp_mat V w (Digest c) = Some m" if "r = Inr m" for m
      using G D that Inr by (auto simp: gcp_mat_digest gcp_same_def)
    with G D show ?thesis by (auto intro: gcp_same_trans)
  qed
qed

lemma GCP_Delete_view:
  assumes "gcp_api E g V" "GCP_Delete k g c s = (r, s')"
  shows "(\<forall>d. d \<noteq> Digest c \<longrightarrow> gcp_mat V (ks_world s') d = gcp_mat V (ks_world s) d) \<and>
    gcp_mat V (ks_world s') (Digest c) \<in> {gcp_mat V (ks_world s) (Digest c), None} \<and>
    (r = None \<longrightarrow> gv_doc V (ks_world s') (docID c) = None)"
proof -
  obtain q w1 where a: "firestoreDeleteWrapped g (docID c) (ks_world s) = (q, w1)" by fastforce
  note D = firestoreDelete_view [OF gcp_apiD(2) [OF assms(1)] a]
  have s': "ks_world s' = w1" and r: "r = None \<longrightarrow> (\<forall>e. q = Some e \<longrightarrow> errors_is e ErrGCPNotFound)"
    using a assms(2) by (auto simp: GCP_Delete_def split: option.splits if_splits)
  have "gcp_mat V w1 d = gcp_mat V (ks_world s) d" if "d \<noteq> Digest c" for d
    by (rule gcp_mat_other [OF _ _ that]) (use D in auto)
  moreover have "gcp_mat V w1 (Digest c) \<in> {gcp_mat V (ks_world s) (Digest c), None}"
    using D by (auto simp: gcp_mat_digest)
  ultimately show ?thesis using D s' r by auto
qed

lemma gcp_draw_same:
  "gcp_api E g V \<Longrightarrow> draw_material E tag w = (r, w') \<Longrightarrow> gcp_mat V w' = gcp_mat V w"
  by (rule draw_material_keeps) (auto intro: gcp_mat_same gcp_apiD(3))

lemma GCP_Generate_view:
  assumes "gcp_inv E g V s" "GCP_GenerateAndEncrypt k E g pt s = (r, s')"
  shows "(\<forall>d. d \<notin> drawn (GCP_draws E) (sdk_Compute k) pt s \<longrightarrow>
      gcp_mat V (ks_world s') d = gcp_mat V (ks_world s) d) \<and>
    (\<forall>c ct. r = Inr (c, ct) \<longrightarrow> GCP_draws E pt s = Some ct \<and> c = sdk_Compute k ct \<and>
      (\<exists>m. gcp_mat V (ks_world s') (Digest c) = Some m \<and> opens E m ct = Some pt))"
proof -
  from assms(1) have E: "keyenv_ok E" and A: "gcp_api E g V" by (simp_all add: gcp_inv_def)
  obtain q w1 where d: "draw_material E gcp_tag (ks_world s) = (q, w1)" by fastforce
  note m1 = gcp_draw_same [OF A d]
  show ?thesis
  proof (cases q)
    case (Inl e)
    with assms(2) d m1 show ?thesis by (auto simp: GCP_GenerateAndEncrypt_def)
  next
    case (Inr kn)
    then obtain key nonce where kn: "q = Inr (key, nonce)" by (cases kn) auto
    note len = draw_material_length [OF E d [unfolded kn]]
    let ?ct = "ke_Seal E key nonce pt"
    let ?c = "sdk_Compute k ?ct"
    have seal: "aesGCMSeal E key nonce pt = Inr ?ct" using seal_ok [OF E] len by blast
    have dr: "GCP_draws E pt s = Some ?ct" using d kn seal by (simp add: GCP_draws_def)
    obtain e w2 where en: "kmsEncrypt g (key @ nonce) w1 = (e, w2)" by fastforce
    note K = kmsEncrypt_view [OF gcp_apiD(1) [OF A] en]
    have m2: "gcp_mat V w2 = gcp_mat V (ks_world s)" using K gcp_mat_same m1 by metis
    show ?thesis
    proof (cases e)
      case (Inl x)
      with assms(2) d kn seal en m2 show ?thesis by (auto simp: GCP_GenerateAndEncrypt_def Let_def)
    next
      case (Inr wr)
      obtain f w3 where cr: "firestoreCreateWrapped g (docID ?c) wr w2 = (f, w3)" by fastforce
      note F = firestoreCreate_view [OF gcp_apiD(2) [OF A] cr]
      have res: "ks_world s' = w3" "r = (case f of None \<Rightarrow> Inr (?c, ?ct) | Some x \<Rightarrow> Inl x)"
        using assms(2) d kn seal en Inr cr by (auto simp: GCP_GenerateAndEncrypt_def Let_def split: option.splits)
      have other: "gcp_mat V w3 x = gcp_mat V (ks_world s) x" if "x \<noteq> Digest ?c" for x
        using gcp_mat_other [of V w3 w2 ?c x] F that m2 by auto
      have "gcp_mat V w3 (Digest ?c) = Some (key @ nonce)" if "f = None"
        using F K Inr that by (simp add: gcp_mat_digest gcp_same_def)
      with other res dr opens_seal [OF E _ _ seal] len show ?thesis
        by (auto simp: drawn_def split: option.splits)
    qed
  qed
qed

interpretation gcp: key_custody "GCP_service k E g" gcp_tag "gcp_inv E g V"
  "\<lambda>s. gcp_mat V (ks_world s)" "opens E" "sdk_Compute k" "GCP_draws E" "\<lambda>_ _. True"
proof (unfold_locales, goal_cases)
  case 2
  show ?case by (simp add: GCP_Rotate_def)
next
  case (7 s pt c ct s')
  then have g: "GCP_GenerateAndEncrypt k E g pt s = (Inr (c, ct), s')" by simp
  note G = GCP_Generate_view [OF 7(1) g]
  then obtain m where m: "gcp_mat V (ks_world s') (Digest c) = Some m" "opens E m ct = Some pt"
      and c: "GCP_draws E pt s = Some ct" "c = sdk_Compute k ct" by blast
  have "gcp_mat V (ks_world s') x = ((gcp_mat V (ks_world s))(Digest c := Some m)) x" for x
    using G m c by (auto simp: drawn_def)
  with m c show ?case by blast
next
  case (8 s x pt)
  then show ?case using GCP_Generate_view [OF 8(1) prod.collapse [symmetric]] by simp
next
  case (9 s c ct)
  obtain r w1 where d: "GCP_material g c (ks_world s) = (r, w1)" by fastforce
  have "ks_world (snd (GCP_Decrypt E g c ct s)) = w1" using d by (simp add: GCP_Decrypt_def split: sum.splits)
  with 9 GCP_material_view [OF _ d, of E V] show ?case by (simp add: gcp_inv_def gcp_mat_same)
next
  case (10 s c ct pt s')
  then obtain m w1 where d: "GCP_material g c (ks_world s) = (Inr m, w1)" "open_material E gcp_tag m ct = Inr pt"
    by (auto simp: GCP_Decrypt_def split: prod.splits sum.splits)
  with 10 GCP_material_view [OF _ d(1)] show ?case by (auto simp: gcp_inv_def open_material_Inr)
next
  case (11 s c pub)
  obtain r w1 where d: "GCP_material g c (ks_world s) = (r, w1)" by fastforce
  from 11 have A: "gcp_api E g V" by (simp add: gcp_inv_def)
  have "gcp_mat V w1 = gcp_mat V (ks_world s)" using GCP_material_view [OF A d] by (simp add: gcp_mat_same)
  moreover have "gcp_mat V (snd (ke_EncryptForNode E m p w1)) = gcp_mat V w1" for m p
    by (rule gcp_mat_same [OF gcp_apiD(4) [OF A]])
  ultimately show ?case
    using d by (auto simp: GCP_WrapForRecipient_def split: sum.splits prod.splits) (metis snd_conv)+
next
  case (12 s c pub env s')
  then obtain m w1 where d: "GCP_material g c (ks_world s) = (Inr m, w1)"
    by (auto simp: GCP_WrapForRecipient_def split: prod.splits sum.splits)
  with 12 GCP_material_view [OF _ d(1)] show ?case by (auto simp: gcp_inv_def)
next
  case (13 s c s')
  then have "GCP_Delete k g c s = (None, s')" by simp
  from GCP_Delete_view [OF _ this] 13 show ?case by (auto simp: gcp_inv_def gcp_mat_digest)
next
  case (14 s c)
  then show ?case using GCP_Delete_view [of E g V k c s "fst (GCP_Delete k g c s)" "snd (GCP_Delete k g c s)"]
    by (auto simp: gcp_inv_def)
next
  case (15 s x c)
  then show ?case using GCP_Delete_view [of E g V k c s "fst (GCP_Delete k g c s)" "snd (GCP_Delete k g c s)"]
    by (auto simp: gcp_inv_def)
qed (simp_all add: gcp_inv_def)

section \<open>Servers that answer\<close>

definition gcp_reliable :: "'w keyenv \<Rightarrow> 'w GCPKMS \<Rightarrow> 'w gcp_view \<Rightarrow> bool" where
  "gcp_reliable E g V \<longleftrightarrow>
     (\<forall>n w. \<exists>b w'. ke_Rand E n w = (Inr b, w')) \<and>
     (\<forall>pt w. \<exists>resp x ct. fst (GCP_do g ''POST'' (kms_url g ''encrypt'') (Some (kms_body ''plaintext'' pt)) w) = Inr resp \<and>
        rs_status resp = 200 \<and> body_field ''ciphertext'' resp = Some x \<and> x \<noteq> [] \<and>
        b64_decode b64_std True x = Some ct \<and> ct \<noteq> []) \<and>
     (\<forall>ct w pt. gv_open V w ct = Some pt \<longrightarrow>
        (\<exists>resp. fst (GCP_do g ''POST'' (kms_url g ''decrypt'') (Some (kms_body ''ciphertext'' ct)) w) = Inr resp \<and>
           rs_status resp = 200 \<and> body_field ''plaintext'' resp = Some (b64_encode b64_std True pt))) \<and>
     (\<forall>c wr w. docID c \<noteq> [] \<longrightarrow> gv_doc V w (docID c) = None \<longrightarrow>
        status_in {200, 201} (fst (GCP_do g ''POST'' (create_doc_url g (docID c)) (Some (doc_body wr)) w))) \<and>
     (\<forall>c w. case gv_doc V w (docID c) of
        None \<Rightarrow> status_in {404} (fst (GCP_do g ''GET'' (doc_url g (docID c)) None w))
      | Some wr \<Rightarrow> (\<exists>resp. fst (GCP_do g ''GET'' (doc_url g (docID c)) None w) = Inr resp \<and> rs_status resp = 200 \<and>
           Option.bind (decode_body resp) wrapped_field = Some (b64_encode b64_std True wr))) \<and>
     (\<forall>c w. status_in {200, 204, 404} (fst (GCP_do g ''DELETE'' (doc_url g (docID c)) None w)))"

lemmas grel_rand = gcp_reliable_def [THEN iffD1, THEN conjunct1, rule_format]
lemmas grel_encrypt = gcp_reliable_def [THEN iffD1, THEN conjunct2, THEN conjunct1, rule_format]
lemmas grel_decrypt = gcp_reliable_def [THEN iffD1, THEN conjunct2, THEN conjunct2, THEN conjunct1, rule_format]
lemmas grel_create =
  gcp_reliable_def [THEN iffD1, THEN conjunct2, THEN conjunct2, THEN conjunct2, THEN conjunct1, rule_format]
lemmas grel_get =
  gcp_reliable_def [THEN iffD1, THEN conjunct2, THEN conjunct2, THEN conjunct2, THEN conjunct2, THEN conjunct1,
    rule_format]
lemmas grel_delete =
  gcp_reliable_def [THEN iffD1, THEN conjunct2, THEN conjunct2, THEN conjunct2, THEN conjunct2, THEN conjunct2,
    rule_format]

definition gcp_consistent :: "'w gcp_view \<Rightarrow> 'w \<Rightarrow> bool" where
  "gcp_consistent V w \<longleftrightarrow>
     (\<forall>c wr. gv_doc V w (docID c) = Some wr \<longrightarrow> wr \<noteq> [] \<and> gv_open V w wr \<noteq> None)"

text \<open>Digests are not empty: Firestore takes no empty document name.\<close>

definition gcp_up :: "sdk \<Rightarrow> 'w keyenv \<Rightarrow> 'w GCPKMS \<Rightarrow> 'w gcp_view \<Rightarrow> 'w ks_state \<Rightarrow> bool" where
  "gcp_up k E g V s \<longleftrightarrow>
     gcp_reliable E g V \<and> gcp_consistent V (ks_world s) \<and> (\<forall>b. Digest (sdk_Compute k b) \<noteq> [])"

lemma gcp_consistent_same: "gcp_same V w w' \<Longrightarrow> gcp_consistent V w \<Longrightarrow> gcp_consistent V w'"
  by (simp add: gcp_consistent_def gcp_same_def)

lemma docID_empty: "docID c = [] \<longleftrightarrow> Digest c = []"
  using length_hex_encode [of "Digest c"] by (auto simp: docID_def simp del: length_hex_encode)

lemma GCP_material_up:
  assumes "gcp_api E g V" "gcp_reliable E g V" "gcp_consistent V w"
  shows "fst (GCP_material g c w) =
    (case gcp_mat V w (Digest c) of None \<Rightarrow> Inl (Sentinel ErrKeyNotFound) | Some m \<Rightarrow> Inr m)"
proof (cases "gv_doc V w (docID c)")
  case None
  then show ?thesis
    using grel_get [OF assms(2), of c w]
    by (auto simp: GCP_material_def firestoreGetWrapped_def status_in_def gcp_mat_digest split: prod.splits sum.splits)
next
  case (Some wr)
  then have ne: "wr \<noteq> []" and "gv_open V w wr \<noteq> None" using assms(3) by (auto simp: gcp_consistent_def)
  then obtain m where m: "gv_open V w wr = Some m" by blast
  have "fst (firestoreGetWrapped g (docID c) w) = Inr wr"
    using grel_get [OF assms(2), of c w] Some ne
    by (auto simp: firestoreGetWrapped_def b64_decode_encode [OF b64_std_ok] split: prod.splits)
  then obtain w1 where g: "firestoreGetWrapped g (docID c) w = (Inr wr, w1)" by (metis prod.collapse)
  then have "gv_open V w1 wr = Some m"
    using firestoreGet_view [OF gcp_apiD(2) [OF assms(1)] g] m by (simp add: gcp_same_def)
  from grel_decrypt [OF assms(2) this] have "fst (kmsDecrypt g wr w1) = Inr m"
    by (auto simp: kmsDecrypt_def b64_decode_encode [OF b64_std_ok] split: prod.splits)
  with g m Some show ?thesis by (simp add: GCP_material_def gcp_mat_digest)
qed

lemma gcp_draw_up:
  assumes "gcp_api E g V" "gcp_reliable E g V"
  shows "\<exists>key nonce w'. draw_material E tag w = (Inr (key, nonce), w') \<and> gcp_same V w w'"
proof -
  obtain key w1 where 1: "ke_Rand E (ke_KeySize E) w = (Inr key, w1)" using grel_rand [OF assms(2)] by blast
  obtain nonce w2 where 2: "ke_Rand E (ke_NonceSize E) w1 = (Inr nonce, w2)" using grel_rand [OF assms(2)] by blast
  have "gcp_same V w w2"
    using gcp_apiD(3) [OF assms(1), of w "ke_KeySize E"] gcp_apiD(3) [OF assms(1), of w1 "ke_NonceSize E"] 1 2
    by (simp add: gcp_same_trans)
  with 1 2 show ?thesis by (auto simp: draw_material_def)
qed

lemma GCP_wrap_up:
  assumes "gcp_api E g V" "gcp_reliable E g V" "gcp_consistent V w" "gv_doc V w (docID c) = None"
    and "docID c \<noteq> []"
  shows "\<exists>wr w1 w2. kmsEncrypt g m w = (Inr wr, w1) \<and> firestoreCreateWrapped g (docID c) wr w1 = (None, w2) \<and>
    gcp_consistent V w2"
proof -
  obtain resp x ct where e: "fst (GCP_do g ''POST'' (kms_url g ''encrypt'') (Some (kms_body ''plaintext'' m)) w) = Inr resp"
      "rs_status resp = 200" "body_field ''ciphertext'' resp = Some x" "x \<noteq> []"
      "b64_decode b64_std True x = Some ct" "ct \<noteq> []"
    using grel_encrypt [OF assms(2), of m w] by blast
  then have "fst (kmsEncrypt g m w) = Inr ct" by (auto simp: kmsEncrypt_def split: prod.splits)
  then obtain w1 where k: "kmsEncrypt g m w = (Inr ct, w1)" by (metis prod.collapse)
  note K = kmsEncrypt_view [OF gcp_apiD(1) [OF assms(1)] k]
  have "gv_doc V w1 (docID c) = None" using K assms(4) by (simp add: gcp_same_def)
  from grel_create [OF assms(2,5) this, of ct] have "fst (firestoreCreateWrapped g (docID c) ct w1) = None"
    by (auto simp: firestoreCreateWrapped_def status_in_def split: prod.splits sum.splits)
  then obtain w2 where f: "firestoreCreateWrapped g (docID c) ct w1 = (None, w2)" by (metis prod.collapse)
  note F = firestoreCreate_view [OF gcp_apiD(2) [OF assms(1)] f]
  have "gcp_consistent V w2"
    unfolding gcp_consistent_def
  proof (intro allI impI)
    fix x wx assume wx: "gv_doc V w2 (docID x) = Some wx"
    have op: "gv_open V w2 = gv_open V w" using F K by (simp add: gcp_same_def)
    show "wx \<noteq> [] \<and> gv_open V w2 wx \<noteq> None"
    proof (cases "docID x = docID c")
      case True
      with wx F have "wx = ct" by simp
      with e(6) K op show ?thesis by simp
    next
      case False
      with wx F K have "gv_doc V w (docID x) = Some wx" by (simp add: gcp_same_def)
      with assms(3) op show ?thesis unfolding gcp_consistent_def by metis
    qed
  qed
  with k f show ?thesis by blast
qed

lemma GCP_Delete_up:
  assumes "gcp_api E g V" "gcp_reliable E g V" "gcp_consistent V (ks_world s)"
  shows "\<exists>s'. GCP_Delete k g c s = (None, s') \<and> gcp_consistent V (ks_world s')"
proof -
  obtain q w1 where a: "firestoreDeleteWrapped g (docID c) (ks_world s) = (q, w1)" by fastforce
  note D = firestoreDelete_view [OF gcp_apiD(2) [OF assms(1)] a]
  have "\<forall>e. q = Some e \<longrightarrow> errors_is e ErrGCPNotFound"
    using grel_delete [OF assms(2), of c "ks_world s"] a
    by (auto simp: firestoreDeleteWrapped_def status_in_def split: prod.splits sum.splits if_splits)
  then have "GCP_Delete k g c s = (None, \<lparr>ks_cache = ks_cache s - {sdk_String k c}, ks_world = w1\<rparr>)"
    using a by (auto simp: GCP_Delete_def split: option.splits)
  moreover have "gcp_consistent V w1"
    unfolding gcp_consistent_def
  proof (intro allI impI)
    fix x wx assume "gv_doc V w1 (docID x) = Some wx"
    moreover from this have "gv_doc V (ks_world s) (docID x) = Some wx" using D by (metis empty_iff insert_iff option.distinct(1))
    ultimately show "wx \<noteq> [] \<and> gv_open V w1 wx \<noteq> None"
      using assms(3) D unfolding gcp_consistent_def by metis
  qed
  ultimately show ?thesis by simp
qed

lemma GCP_material_world:
  assumes "gcp_api E g V" "gcp_consistent V w"
  shows "gcp_consistent V (snd (GCP_material g c w))"
proof (rule gcp_consistent_same [OF _ assms(2)])
  show "gcp_same V w (snd (GCP_material g c w))"
    using GCP_material_view [OF assms(1), of c w "fst (GCP_material g c w)"] by simp
qed

interpretation gcp_up: key_custody_up "GCP_service k E g" gcp_tag "gcp_inv E g V"
  "\<lambda>s. gcp_mat V (ks_world s)" "opens E" "sdk_Compute k" "GCP_draws E" "\<lambda>_ _. True" "gcp_up k E g V"
proof (unfold_locales, goal_cases)
  case (1 s pt)
  then have H: "keyenv_ok E" "gcp_api E g V" "gcp_reliable E g V" "gcp_consistent V (ks_world s)"
    and ne: "\<And>b. Digest (sdk_Compute k b) \<noteq> []"
    by (simp_all add: gcp_inv_def gcp_up_def)
  obtain key nonce w1 where d: "draw_material E gcp_tag (ks_world s) = (Inr (key, nonce), w1)"
      "gcp_same V (ks_world s) w1"
    using gcp_draw_up [OF H(2,3)] by blast
  have seal: "aesGCMSeal E key nonce pt = Inr (ke_Seal E key nonce pt)"
    using seal_ok [OF H(1)] draw_material_length [OF H(1) d(1)] by blast
  let ?c = "sdk_Compute k (ke_Seal E key nonce pt)"
  have "GCP_draws E pt s = Some (ke_Seal E key nonce pt)" using d seal by (simp add: GCP_draws_def)
  with 1(3) have "gcp_mat V (ks_world s) (Digest ?c) = None" by (simp add: fresh_key_def)
  with H(4) have "gv_doc V (ks_world s) (docID ?c) = None"
    unfolding gcp_mat_digest gcp_consistent_def bind_eq_None_conv by (metis option.exhaust_sel)
  with d(2) have "gv_doc V w1 (docID ?c) = None" by (simp add: gcp_same_def)
  then obtain wr w2 w3 where "kmsEncrypt g (key @ nonce) w1 = (Inr wr, w2)"
      "firestoreCreateWrapped g (docID ?c) wr w2 = (None, w3)" "gcp_consistent V w3"
    using GCP_wrap_up [OF H(2,3) gcp_consistent_same [OF d(2) H(4)], of ?c "key @ nonce"] docID_empty ne by blast
  with d seal H(3) ne show ?case by (simp add: GCP_GenerateAndEncrypt_def gcp_up_def Let_def)
next
  case (2 s c m ct pt)
  then have H: "gcp_api E g V" "gcp_reliable E g V" "gcp_consistent V (ks_world s)"
    by (simp_all add: gcp_inv_def gcp_up_def)
  from 2 GCP_material_up [OF H, of c] obtain w1 where d: "GCP_material g c (ks_world s) = (Inr m, w1)"
    by (metis (no_types, lifting) option.simps(5) prod.collapse)
  from d 2 GCP_material_world [OF H(1,3), of c] H(2) show ?case
    by (auto simp: GCP_Decrypt_def open_material_Inr gcp_up_def)
next
  case (3 s c ct)
  then have H: "gcp_api E g V" "gcp_reliable E g V" "gcp_consistent V (ks_world s)"
    by (simp_all add: gcp_inv_def gcp_up_def)
  from 3 GCP_material_up [OF H, of c] obtain w1 where
    d: "GCP_material g c (ks_world s) = (Inl (Sentinel ErrKeyNotFound), w1)"
    by (metis (no_types, lifting) option.simps(4) prod.collapse)
  from d GCP_material_world [OF H(1,3), of c] 3(2) show ?case
    by (auto simp: GCP_Decrypt_def gcp_up_def)
next
  case (4 s c)
  then have H: "gcp_api E g V" "gcp_reliable E g V" "gcp_consistent V (ks_world s)"
    by (simp_all add: gcp_inv_def gcp_up_def)
  from GCP_Delete_up [OF H, of k c] 4(2) show ?case by (auto simp: gcp_up_def)
qed

end
