(* ===== verification/Ks_Pkcs11.thy ===== *)
theory Ks_Pkcs11
  imports Key_Custody
begin

text \<open>
  \<open>keyservice/pkcs11.go\<close>, \<open>pkcs11_api.go\<close> and \<open>pkcs11_setup.go\<close>: an AES key per artifact
  inside an HSM, named by its label, with the GCM nonce in its \<open>CKA_ID\<close>. The binding
  \<open>miekg/pkcs11\<close> and the module behind it are the record \<open>p11ctx\<close> of the calls the code
  makes; errors it drops have no counterpart.
\<close>

datatype p11_attr =
    CKA_CLASS nat
  | CKA_KEY_TYPE nat
  | CKA_VALUE_LEN nat
  | CKA_TOKEN bool
  | CKA_PRIVATE bool
  | CKA_SENSITIVE bool
  | CKA_EXTRACTABLE bool
  | CKA_ENCRYPT bool
  | CKA_DECRYPT bool
  | CKA_LABEL string
  | CKA_ID bytes
  | CKA_VALUE bytes

datatype p11_type = T_VALUE | T_ID

text \<open>The constants of the PKCS\#11 standard that the code names.\<close>

definition CKO_SECRET_KEY :: nat where "CKO_SECRET_KEY = 4"
definition CKK_AES :: nat where "CKK_AES = 0x1F"
definition CKR_KEY_HANDLE_INVALID :: nat where "CKR_KEY_HANDLE_INVALID = 0x60"
definition CKR_OBJECT_HANDLE_INVALID :: nat where "CKR_OBJECT_HANDLE_INVALID = 0x82"
definition CKR_USER_ALREADY_LOGGED_IN :: nat where "CKR_USER_ALREADY_LOGGED_IN = 0x100"

record 'w p11ctx =
  px_Initialize :: "'w \<Rightarrow> goerr option \<times> 'w"
  px_Finalize :: "'w \<Rightarrow> 'w"
  px_Destroy :: "'w \<Rightarrow> 'w"
  px_GetSlotList :: "'w \<Rightarrow> (goerr + nat list) \<times> 'w"
  px_GetTokenInfo :: "nat \<Rightarrow> 'w \<Rightarrow> (goerr + string) \<times> 'w"
  px_OpenSession :: "nat \<Rightarrow> 'w \<Rightarrow> (goerr + nat) \<times> 'w"
  px_Login :: "nat \<Rightarrow> string \<Rightarrow> 'w \<Rightarrow> goerr option \<times> 'w"
  px_Logout :: "nat \<Rightarrow> 'w \<Rightarrow> 'w"
  px_CloseSession :: "nat \<Rightarrow> 'w \<Rightarrow> 'w"
  px_FindObjectsInit :: "nat \<Rightarrow> p11_attr list \<Rightarrow> 'w \<Rightarrow> goerr option \<times> 'w"
  px_FindObjects :: "nat \<Rightarrow> nat \<Rightarrow> 'w \<Rightarrow> (goerr + nat list) \<times> 'w"
  px_FindObjectsFinal :: "nat \<Rightarrow> 'w \<Rightarrow> 'w"
  px_GenerateKey :: "nat \<Rightarrow> p11_attr list \<Rightarrow> 'w \<Rightarrow> (goerr + nat) \<times> 'w"
  px_GetAttributeValue :: "nat \<Rightarrow> nat \<Rightarrow> p11_type list \<Rightarrow> 'w \<Rightarrow> (goerr + p11_attr list) \<times> 'w"
  px_SetAttributeValue :: "nat \<Rightarrow> nat \<Rightarrow> p11_attr list \<Rightarrow> 'w \<Rightarrow> goerr option \<times> 'w"
  px_EncryptInit :: "nat \<Rightarrow> bytes \<Rightarrow> nat \<Rightarrow> 'w \<Rightarrow> goerr option \<times> 'w"
  px_Encrypt :: "nat \<Rightarrow> bytes \<Rightarrow> 'w \<Rightarrow> (goerr + bytes) \<times> 'w"
  px_DecryptInit :: "nat \<Rightarrow> bytes \<Rightarrow> nat \<Rightarrow> 'w \<Rightarrow> goerr option \<times> 'w"
  px_Decrypt :: "nat \<Rightarrow> bytes \<Rightarrow> 'w \<Rightarrow> (goerr + bytes) \<times> 'w"
  px_DestroyObject :: "nat \<Rightarrow> nat \<Rightarrow> 'w \<Rightarrow> goerr option \<times> 'w"

record PKCS11Config =
  pc_ModulePath :: string
  pc_TokenLabel :: string
  pc_Pin :: string
  pc_KeyLabelPrefix :: string

record 'w PKCS11 =
  p_cfg :: PKCS11Config
  p_ctx :: "'w p11ctx"
  p_slotID :: nat

text \<open>The context is nil once the service is closed.\<close>

record 'w p11_state =
  ps_open :: bool
  ps_world :: 'w

definition p11_tag :: string where
  "p11_tag = ''keyservice/pkcs11''"

section \<open>Finding the token\<close>

definition trimNul :: "string \<Rightarrow> string" where
  "trimNul s = rev (dropWhile (\<lambda>c. c = CHR 0x00 \<or> c = CHR 0x20) (rev s))"

fun scan_slots :: "'w p11ctx \<Rightarrow> string \<Rightarrow> nat list \<Rightarrow> 'w \<Rightarrow> nat option \<times> 'w" where
  "scan_slots x label [] w = (None, w)"
| "scan_slots x label (sid # sids) w =
     (case px_GetTokenInfo x sid w of
        (Inl e, w1) \<Rightarrow> scan_slots x label sids w1
      | (Inr l, w1) \<Rightarrow> if trimNul l = label then (Some sid, w1) else scan_slots x label sids w1)"

definition findSlotByTokenLabel ::
  "(nat \<Rightarrow> bool) \<Rightarrow> 'w p11ctx \<Rightarrow> string \<Rightarrow> 'w \<Rightarrow> (goerr + nat) \<times> 'w" where
  "findSlotByTokenLabel isp x label w =
     (case px_GetSlotList x w of
        (Inl e, w1) \<Rightarrow> (Inl (Errorf [Lit ''keyservice/pkcs11: GetSlotList: '', Wrp e]), w1)
      | (Inr slots, w1) \<Rightarrow>
          (case scan_slots x label slots w1 of
             (Some sid, w2) \<Rightarrow> (Inr sid, w2)
           | (None, w2) \<Rightarrow>
               (Inl (Errorf [Lit (''keyservice/pkcs11: no slot with token label '' @ go_quote isp label @
                       '' (have '' @ itoa (int (length slots)) @ '' slot(s))'')]), w2)))"

text \<open>\<open>load\<close> is the dynamic loader behind \<open>pkcs11.New\<close>; a module that does not load is nil.\<close>

definition NewPKCS11 ::
  "(nat \<Rightarrow> bool) \<Rightarrow> (string \<Rightarrow> 'w p11ctx option) \<Rightarrow> PKCS11Config \<Rightarrow> 'w \<Rightarrow> (goerr + 'w PKCS11) \<times> 'w" where
  "NewPKCS11 isp load cfg w =
     (if pc_ModulePath cfg = [] then (Inl (Errorf [Lit ''keyservice/pkcs11: ModulePath is required'']), w)
      else if pc_TokenLabel cfg = [] then (Inl (Errorf [Lit ''keyservice/pkcs11: TokenLabel is required'']), w)
      else if pc_Pin cfg = [] then (Inl (Errorf [Lit ''keyservice/pkcs11: Pin is required'']), w)
      else
        (let cfg' = (if pc_KeyLabelPrefix cfg = [] then cfg\<lparr>pc_KeyLabelPrefix := ''artifact-''\<rparr> else cfg) in
         case load (pc_ModulePath cfg') of
           None \<Rightarrow> (Inl (Errorf [Lit (''keyservice/pkcs11: failed to load module '' @
                       go_quote isp (pc_ModulePath cfg'))]), w)
         | Some x \<Rightarrow>
             (case px_Initialize x w of
                (Some e, w1) \<Rightarrow> (Inl (Errorf [Lit ''keyservice/pkcs11: Initialize: '', Wrp e]), px_Destroy x w1)
              | (None, w1) \<Rightarrow>
                  (case findSlotByTokenLabel isp x (pc_TokenLabel cfg') w1 of
                     (Inl e, w2) \<Rightarrow> (Inl e, px_Destroy x (px_Finalize x w2))
                   | (Inr sid, w2) \<Rightarrow> (Inr \<lparr>p_cfg = cfg', p_ctx = x, p_slotID = sid\<rparr>, w2)))))"

definition P11_Close_service :: "'w PKCS11 \<Rightarrow> 'w p11_state \<Rightarrow> 'w p11_state" where
  "P11_Close_service p s =
     (if \<not> ps_open s then s
      else \<lparr>ps_open = False, ps_world = px_Destroy (p_ctx p) (px_Finalize (p_ctx p) (ps_world s))\<rparr>)"

definition closed_error :: goerr where
  "closed_error = Errorf [Lit ''keyservice/pkcs11: service is closed'']"

definition checkOpen :: "'w p11_state \<Rightarrow> goerr option" where
  "checkOpen s = (if \<not> ps_open s then Some closed_error else None)"

definition keyLabel :: "'w PKCS11 \<Rightarrow> cid \<Rightarrow> string" where
  "keyLabel p c = pc_KeyLabelPrefix (p_cfg p) @ hex_encode (Digest c)"

section \<open>Sessions and objects\<close>

definition openSession :: "'w PKCS11 \<Rightarrow> 'w \<Rightarrow> (goerr + nat) \<times> 'w" where
  "openSession p w =
     (let x = p_ctx p in
      case px_OpenSession x (p_slotID p) w of
        (Inl e, w1) \<Rightarrow> (Inl (Errorf [Lit ''keyservice/pkcs11: OpenSession: '', Wrp e]), w1)
      | (Inr sh, w1) \<Rightarrow>
          (case px_Login x sh (pc_Pin (p_cfg p)) w1 of
             (None, w2) \<Rightarrow> (Inr sh, w2)
           | (Some e, w2) \<Rightarrow>
               (let w3 = px_CloseSession x sh w2 in
                if errors_as_pkcs11 e = Some CKR_USER_ALREADY_LOGGED_IN
                then (case px_OpenSession x (p_slotID p) w3 of
                        (Inl oe, w4) \<Rightarrow> (Inl (Errorf [Lit ''keyservice/pkcs11: re-OpenSession: '', Wrp oe]), w4)
                      | (Inr sh', w4) \<Rightarrow> (Inr sh', w4))
                else (Inl (Errorf [Lit ''keyservice/pkcs11: Login: '', Wrp e]), w3))))"

definition P11_Close :: "'w PKCS11 \<Rightarrow> nat \<Rightarrow> 'w \<Rightarrow> 'w" where
  "P11_Close p sh w = px_CloseSession (p_ctx p) sh (px_Logout (p_ctx p) sh w)"

text \<open>A session opened, used and closed by \<open>defer\<close>.\<close>

definition with_session :: "'w PKCS11 \<Rightarrow> (nat \<Rightarrow> 'w \<Rightarrow> (goerr + 'a) \<times> 'w) \<Rightarrow> 'w \<Rightarrow> (goerr + 'a) \<times> 'w" where
  "with_session p f w =
     (case openSession p w of
        (Inl e, w1) \<Rightarrow> (Inl e, w1)
      | (Inr sh, w1) \<Rightarrow> (case f sh w1 of (r, w2) \<Rightarrow> (r, P11_Close p sh w2)))"

definition find_template :: "string \<Rightarrow> p11_attr list" where
  "find_template label = [CKA_CLASS CKO_SECRET_KEY, CKA_KEY_TYPE CKK_AES, CKA_LABEL label]"

definition findKeyByLabel ::
  "(nat \<Rightarrow> bool) \<Rightarrow> 'w PKCS11 \<Rightarrow> nat \<Rightarrow> string \<Rightarrow> 'w \<Rightarrow> (goerr + nat) \<times> 'w" where
  "findKeyByLabel isp p sh label w =
     (case px_FindObjectsInit (p_ctx p) sh (find_template label) w of
        (Some e, w1) \<Rightarrow>
          (Inl (Errorf [Lit (''keyservice/pkcs11: FindObjectsInit('' @ go_quote isp label @ ''): ''), Wrp e]), w1)
      | (None, w1) \<Rightarrow>
          (case px_FindObjects (p_ctx p) sh 1 w1 of
             (r, w2) \<Rightarrow>
               (let w3 = px_FindObjectsFinal (p_ctx p) sh w2 in
                case r of
                  Inl e \<Rightarrow> (Inl (Errorf [Lit (''keyservice/pkcs11: FindObjects('' @ go_quote isp label @ ''): ''), Wrp e]), w3)
                | Inr objs \<Rightarrow>
                    (case objs of [] \<Rightarrow> (Inl (Sentinel ErrPKCS11NotFound), w3) | oh # _ \<Rightarrow> (Inr oh, w3)))))"

definition key_template :: "string \<Rightarrow> bytes \<Rightarrow> p11_attr list" where
  "key_template label nonce =
     [CKA_CLASS CKO_SECRET_KEY, CKA_KEY_TYPE CKK_AES, CKA_VALUE_LEN 32, CKA_TOKEN True, CKA_PRIVATE True,
      CKA_SENSITIVE False, CKA_EXTRACTABLE True, CKA_ENCRYPT True, CKA_DECRYPT True, CKA_LABEL label, CKA_ID nonce]"

definition generateAESKey ::
  "(nat \<Rightarrow> bool) \<Rightarrow> 'w PKCS11 \<Rightarrow> nat \<Rightarrow> string \<Rightarrow> bytes \<Rightarrow> 'w \<Rightarrow> (goerr + nat) \<times> 'w" where
  "generateAESKey isp p sh label nonce w =
     (case px_GenerateKey (p_ctx p) sh (key_template label nonce) w of
        (Inl e, w1) \<Rightarrow> (Inl (Errorf [Lit (''keyservice/pkcs11: GenerateKey('' @ go_quote isp label @ ''): ''), Wrp e]), w1)
      | (Inr oh, w1) \<Rightarrow> (Inr oh, w1))"

text \<open>The last value of each kind wins.\<close>

fun pick_material :: "p11_attr list \<Rightarrow> bytes \<times> bytes \<Rightarrow> bytes \<times> bytes" where
  "pick_material [] kn = kn"
| "pick_material (a # as) kn =
     pick_material as (case a of CKA_VALUE v \<Rightarrow> (v, snd kn) | CKA_ID i \<Rightarrow> (fst kn, i) | _ \<Rightarrow> kn)"

definition readKeyMaterial :: "'w PKCS11 \<Rightarrow> nat \<Rightarrow> nat \<Rightarrow> 'w \<Rightarrow> (goerr + bytes \<times> bytes) \<times> 'w" where
  "readKeyMaterial p sh oh w =
     (case px_GetAttributeValue (p_ctx p) sh oh [T_VALUE, T_ID] w of
        (Inl e, w1) \<Rightarrow> (Inl (Errorf [Lit ''keyservice/pkcs11: GetAttributeValue: '', Wrp e]), w1)
      | (Inr got, w1) \<Rightarrow>
          (case pick_material got ([], []) of
             (key, nonce) \<Rightarrow>
               if key = [] \<or> nonce = []
               then (Inl (Errorf [Lit ''keyservice/pkcs11: key object missing CKA_VALUE or CKA_ID'']), w1)
               else (Inr (key, nonce), w1)))"

definition gcmEncrypt :: "'w PKCS11 \<Rightarrow> nat \<Rightarrow> nat \<Rightarrow> bytes \<Rightarrow> bytes \<Rightarrow> 'w \<Rightarrow> (goerr + bytes) \<times> 'w" where
  "gcmEncrypt p sh oh nonce pt w =
     (case px_EncryptInit (p_ctx p) sh nonce oh w of
        (Some e, w1) \<Rightarrow> (Inl (Errorf [Lit ''keyservice/pkcs11: EncryptInit: '', Wrp e]), w1)
      | (None, w1) \<Rightarrow>
          (case px_Encrypt (p_ctx p) sh pt w1 of
             (Inl e, w2) \<Rightarrow> (Inl (Errorf [Lit ''keyservice/pkcs11: Encrypt: '', Wrp e]), w2)
           | (Inr ct, w2) \<Rightarrow> (Inr ct, w2)))"

definition gcmDecrypt :: "'w PKCS11 \<Rightarrow> nat \<Rightarrow> nat \<Rightarrow> bytes \<Rightarrow> bytes \<Rightarrow> 'w \<Rightarrow> (goerr + bytes) \<times> 'w" where
  "gcmDecrypt p sh oh nonce ct w =
     (case px_DecryptInit (p_ctx p) sh nonce oh w of
        (Some e, w1) \<Rightarrow> (Inl (Errorf [Lit ''keyservice/pkcs11: DecryptInit: '', Wrp e]), w1)
      | (None, w1) \<Rightarrow>
          (case px_Decrypt (p_ctx p) sh ct w1 of
             (Inl e, w2) \<Rightarrow> (Inl (Errorf [Lit ''keyservice/pkcs11: Decrypt: '', Wrp e]), w2)
           | (Inr pt, w2) \<Rightarrow> (Inr pt, w2)))"

definition destroyKey :: "'w PKCS11 \<Rightarrow> nat \<Rightarrow> nat \<Rightarrow> 'w \<Rightarrow> goerr option \<times> 'w" where
  "destroyKey p sh oh w =
     (case px_DestroyObject (p_ctx p) sh oh w of
        (None, w1) \<Rightarrow> (None, w1)
      | (Some e, w1) \<Rightarrow>
          (if errors_as_pkcs11 e \<in> {Some CKR_OBJECT_HANDLE_INVALID, Some CKR_KEY_HANDLE_INVALID}
           then (Some (Sentinel ErrPKCS11NotFound), w1)
           else (Some (Errorf [Lit ''keyservice/pkcs11: DestroyObject: '', Wrp e]), w1)))"

section \<open>The operations\<close>

text \<open>
  The body of \<open>GenerateAndEncrypt\<close> inside its session: a key under a transient label, the
  ciphertext, then the final label; a failure after the key exists destroys it.
\<close>

definition tmpLabel :: "'w PKCS11 \<Rightarrow> bytes \<Rightarrow> string" where
  "tmpLabel p nonce = pc_KeyLabelPrefix (p_cfg p) @ ''tmp-'' @ hex_encode nonce"

definition P11_generate ::
  "sdk \<Rightarrow> 'w PKCS11 \<Rightarrow> bytes \<Rightarrow> bytes \<Rightarrow> nat \<Rightarrow> 'w \<Rightarrow> (goerr + cid \<times> bytes) \<times> 'w" where
  "P11_generate k p nonce pt sh w =
     (case generateAESKey (sdk_IsPrint k) p sh (tmpLabel p nonce) nonce w of
        (Inl e, w1) \<Rightarrow> (Inl e, w1)
      | (Inr oh, w1) \<Rightarrow>
          (case gcmEncrypt p sh oh nonce pt w1 of
             (Inl e, w2) \<Rightarrow> (Inl e, snd (destroyKey p sh oh w2))
           | (Inr ct, w2) \<Rightarrow>
               (let c = sdk_Compute k ct in
                case px_SetAttributeValue (p_ctx p) sh oh [CKA_LABEL (keyLabel p c)] w2 of
                  (Some e, w3) \<Rightarrow>
                    (Inl (Errorf [Lit ''keyservice/pkcs11: SetAttributeValue(label): '', Wrp e]), snd (destroyKey p sh oh w3))
                | (None, w3) \<Rightarrow> (Inr (c, ct), w3))))"

definition P11_GenerateAndEncrypt ::
  "sdk \<Rightarrow> 'w keyenv \<Rightarrow> 'w PKCS11 \<Rightarrow> bytes \<Rightarrow> 'w p11_state \<Rightarrow> (goerr + cid \<times> bytes) \<times> 'w p11_state" where
  "P11_GenerateAndEncrypt k E p pt s =
     (case checkOpen s of
        Some e \<Rightarrow> (Inl e, s)
      | None \<Rightarrow>
          (case ke_Rand E (ke_NonceSize E) (ps_world s) of
             (Inl e, w1) \<Rightarrow> (Inl (Errorf [Lit ''keyservice/pkcs11: rand: '', Wrp e]), s\<lparr>ps_world := w1\<rparr>)
           | (Inr nonce, w1) \<Rightarrow>
               (case with_session p (P11_generate k p nonce pt) w1 of
                  (r, w2) \<Rightarrow> (r, s\<lparr>ps_world := w2\<rparr>))))"

text \<open>\<open>findKeyByLabel\<close> with a missing object reported as a missing key.\<close>

definition find_or_missing ::
  "(nat \<Rightarrow> bool) \<Rightarrow> 'w PKCS11 \<Rightarrow> nat \<Rightarrow> cid \<Rightarrow> 'w \<Rightarrow> (goerr + nat) \<times> 'w" where
  "find_or_missing isp p sh c w =
     (case findKeyByLabel isp p sh (keyLabel p c) w of
        (Inl e, w1) \<Rightarrow> (Inl (if errors_is e ErrPKCS11NotFound then Sentinel ErrKeyNotFound else e), w1)
      | (Inr oh, w1) \<Rightarrow> (Inr oh, w1))"

definition P11_wrap ::
  "sdk \<Rightarrow> 'w keyenv \<Rightarrow> 'w PKCS11 \<Rightarrow> cid \<Rightarrow> bytes \<Rightarrow> nat \<Rightarrow> 'w \<Rightarrow> (goerr + bytes) \<times> 'w" where
  "P11_wrap k E p c pub sh w =
     (case find_or_missing (sdk_IsPrint k) p sh c w of
        (Inl e, w1) \<Rightarrow> (Inl e, w1)
      | (Inr oh, w1) \<Rightarrow>
          (case readKeyMaterial p sh oh w1 of
             (Inl e, w2) \<Rightarrow> (Inl e, w2)
           | (Inr (key, nonce), w2) \<Rightarrow>
               (case ke_EncryptForNode E (key @ nonce) pub w2 of
                  (Inl e, w3) \<Rightarrow> (Inl (Errorf [Lit ''keyservice/pkcs11: ECIES wrap: '', Wrp e]), w3)
                | (Inr env, w3) \<Rightarrow> (Inr env, w3))))"

definition P11_WrapForRecipient ::
  "sdk \<Rightarrow> 'w keyenv \<Rightarrow> 'w PKCS11 \<Rightarrow> cid \<Rightarrow> bytes \<Rightarrow> 'w p11_state \<Rightarrow> (goerr + bytes) \<times> 'w p11_state" where
  "P11_WrapForRecipient k E p c recipientPub s =
     (case recipient E recipientPub of
        Inl e \<Rightarrow> (Inl e, s)
      | Inr pub \<Rightarrow>
          (case checkOpen s of
             Some e \<Rightarrow> (Inl e, s)
           | None \<Rightarrow>
               (case with_session p (P11_wrap k E p c pub) (ps_world s) of
                  (r, w1) \<Rightarrow> (r, s\<lparr>ps_world := w1\<rparr>))))"

definition P11_decrypt :: "sdk \<Rightarrow> 'w keyenv \<Rightarrow> 'w PKCS11 \<Rightarrow> cid \<Rightarrow> bytes \<Rightarrow> nat \<Rightarrow> 'w \<Rightarrow> (goerr + bytes) \<times> 'w" where
  "P11_decrypt k E p c ct sh w =
     (case find_or_missing (sdk_IsPrint k) p sh c w of
        (Inl e, w1) \<Rightarrow> (Inl e, w1)
      | (Inr oh, w1) \<Rightarrow>
          (case px_GetAttributeValue (p_ctx p) sh oh [T_ID] w1 of
             (Inl e, w2) \<Rightarrow> (Inl (Errorf [Lit ''keyservice/pkcs11: read CKA_ID: '', Wrp e]), w2)
           | (Inr attrs, w2) \<Rightarrow>
               (let nonce = snd (pick_material attrs ([], [])) in
                if length nonce \<noteq> ke_NonceSize E
                then (Inl (Errorf [Lit (''keyservice/pkcs11: stored nonce length '' @ itoa (int (length nonce)) @
                        '', want '' @ itoa (int (ke_NonceSize E)))]), w2)
                else case gcmDecrypt p sh oh nonce ct w2 of
                       (Inl e, w3) \<Rightarrow> (Inl (Errorf [Wrp (Sentinel ErrCiphertextMismatch), Lit '': '', Val e]), w3)
                     | (Inr pt, w3) \<Rightarrow> (Inr pt, w3))))"

definition P11_Decrypt ::
  "sdk \<Rightarrow> 'w keyenv \<Rightarrow> 'w PKCS11 \<Rightarrow> cid \<Rightarrow> bytes \<Rightarrow> 'w p11_state \<Rightarrow> (goerr + bytes) \<times> 'w p11_state" where
  "P11_Decrypt k E p c ct s =
     (case checkOpen s of
        Some e \<Rightarrow> (Inl e, s)
      | None \<Rightarrow>
          (case with_session p (P11_decrypt k E p c ct) (ps_world s) of
             (r, w1) \<Rightarrow> (r, s\<lparr>ps_world := w1\<rparr>)))"

definition P11_delete :: "sdk \<Rightarrow> 'w PKCS11 \<Rightarrow> cid \<Rightarrow> nat \<Rightarrow> 'w \<Rightarrow> (goerr + unit) \<times> 'w" where
  "P11_delete k p c sh w =
     (case findKeyByLabel (sdk_IsPrint k) p sh (keyLabel p c) w of
        (Inl e, w1) \<Rightarrow> (if errors_is e ErrPKCS11NotFound then (Inr (), w1) else (Inl e, w1))
      | (Inr oh, w1) \<Rightarrow>
          (case destroyKey p sh oh w1 of
             (None, w2) \<Rightarrow> (Inr (), w2)
           | (Some e, w2) \<Rightarrow> (if errors_is e ErrPKCS11NotFound then (Inr (), w2) else (Inl e, w2))))"

definition P11_Delete :: "sdk \<Rightarrow> 'w PKCS11 \<Rightarrow> cid \<Rightarrow> 'w p11_state \<Rightarrow> goerr option \<times> 'w p11_state" where
  "P11_Delete k p c s =
     (case checkOpen s of
        Some e \<Rightarrow> (Some e, s)
      | None \<Rightarrow>
          (case with_session p (P11_delete k p c) (ps_world s) of
             (Inl e, w1) \<Rightarrow> (Some e, s\<lparr>ps_world := w1\<rparr>)
           | (Inr u, w1) \<Rightarrow> (None, s\<lparr>ps_world := w1\<rparr>)))"

definition P11_Rotate ::
  "sdk \<Rightarrow> 'w keyenv \<Rightarrow> 'w PKCS11 \<Rightarrow> cid \<Rightarrow> bytes \<Rightarrow> 'w p11_state \<Rightarrow>
   (cid \<times> bytes \<times> goerr option) \<times> 'w p11_state" where
  "P11_Rotate k E p =
     rotate_with p11_tag (P11_Decrypt k E p) (P11_GenerateAndEncrypt k E p) (P11_Delete k p)"

definition P11_service :: "sdk \<Rightarrow> 'w keyenv \<Rightarrow> 'w PKCS11 \<Rightarrow> 'w p11_state ArtifactKeyService" where
  "P11_service k E p =
     \<lparr>as_GenerateAndEncrypt = P11_GenerateAndEncrypt k E p,
      as_WrapForRecipient = P11_WrapForRecipient k E p,
      as_Decrypt = P11_Decrypt k E p,
      as_Rotate = P11_Rotate k E p,
      as_Delete = P11_Delete k p\<rparr>"

lemma P11_service_sel [simp]:
  "as_GenerateAndEncrypt (P11_service k E p) = P11_GenerateAndEncrypt k E p"
  "as_WrapForRecipient (P11_service k E p) = P11_WrapForRecipient k E p"
  "as_Decrypt (P11_service k E p) = P11_Decrypt k E p"
  "as_Rotate (P11_service k E p) = P11_Rotate k E p"
  "as_Delete (P11_service k E p) = P11_Delete k p"
  by (simp_all add: P11_service_def)

lemma keyLabel_inject [simp]: "keyLabel p c = keyLabel p c' \<longleftrightarrow> Digest c = Digest c'"
  by (simp add: keyLabel_def)

text \<open>A transient label is never the label of an artifact.\<close>

lemma tmpLabel_not_keyLabel: "tmpLabel p nonce \<noteq> keyLabel p c"
proof
  assume "tmpLabel p nonce = keyLabel p c"
  then have "''tmp-'' @ hex_encode nonce = hex_encode (Digest c)" by (simp add: tmpLabel_def keyLabel_def)
  then have "CHR ''t'' \<in> set (hex_encode (Digest c))" by (metis append_Cons list.set_intros(1))
  with set_hex_encode [of "Digest c"] show False by (auto simp: hex_chars_def)
qed

section \<open>Token labels\<close>

text \<open>Padding with blanks or zero bytes does not change which token a label names.\<close>

lemma trimNul_padded:
  assumes "set pad \<subseteq> {CHR 0x00, CHR 0x20}" "s = [] \<or> last s \<notin> {CHR 0x00, CHR 0x20}"
  shows "trimNul (s @ pad) = s"
proof -
  have "dropWhile (\<lambda>c. c = CHR 0x00 \<or> c = CHR 0x20) (rev pad @ rev s) = rev s"
    using assms by (cases s rule: rev_cases) (auto simp: dropWhile_append)
  then show ?thesis by (simp add: trimNul_def)
qed

lemma scan_slots_first:
  assumes "\<And>sid w. snd (px_GetTokenInfo x sid w) = w"
  shows "fst (scan_slots x label sids w) =
    find (\<lambda>sid. case fst (px_GetTokenInfo x sid w) of Inl e \<Rightarrow> False | Inr l \<Rightarrow> trimNul l = label) sids"
proof (induction sids)
  case (Cons sid sids)
  obtain r where "px_GetTokenInfo x sid w = (r, w)" using assms [of sid w] by (metis prod.collapse)
  with Cons show ?case by (cases r) auto
qed simp

end
