(* ===== verification/P11_Custody.thy ===== *)
theory P11_Custody
  imports Ks_Pkcs11
begin

text \<open>
  The PKCS\#11 key service meets the contract of \<open>Key_Custody\<close>, as long as no call draws a
  digest that already names a key: the HSM would keep two objects under one label.
\<close>

section \<open>What the code relies on of the HSM\<close>

record p11_obj =
  ob_label :: string
  ob_id :: bytes
  ob_value :: bytes

fun attr_of :: "p11_obj \<Rightarrow> p11_type \<Rightarrow> p11_attr" where
  "attr_of ob T_VALUE = CKA_VALUE (ob_value ob)"
| "attr_of ob T_ID = CKA_ID (ob_id ob)"

text \<open>The AES key objects on the token, by handle.\<close>

type_synonym 'w hsm_view = "'w \<Rightarrow> nat \<Rightarrow> p11_obj option"

text \<open>The calls that leave the key objects alone.\<close>

definition hsm_quiet :: "'w keyenv \<Rightarrow> 'w p11ctx \<Rightarrow> 'w hsm_view \<Rightarrow> bool" where
  "hsm_quiet E x V \<longleftrightarrow>
     (\<forall>n w. V (snd (ke_Rand E n w)) = V w) \<and> (\<forall>m q w. V (snd (ke_EncryptForNode E m q w)) = V w) \<and>
     (\<forall>n w. V (snd (px_OpenSession x n w)) = V w) \<and> (\<forall>sh q w. V (snd (px_Login x sh q w)) = V w) \<and>
     (\<forall>sh w. V (px_Logout x sh w) = V w) \<and> (\<forall>sh w. V (px_CloseSession x sh w) = V w) \<and>
     (\<forall>sh t w. V (snd (px_FindObjectsInit x sh t w)) = V w) \<and>
     (\<forall>sh n w. V (snd (px_FindObjects x sh n w)) = V w) \<and> (\<forall>sh w. V (px_FindObjectsFinal x sh w) = V w) \<and>
     (\<forall>sh oh t w. V (snd (px_GetAttributeValue x sh oh t w)) = V w) \<and>
     (\<forall>sh n oh w. V (snd (px_EncryptInit x sh n oh w)) = V w) \<and> (\<forall>sh b w. V (snd (px_Encrypt x sh b w)) = V w) \<and>
     (\<forall>sh n oh w. V (snd (px_DecryptInit x sh n oh w)) = V w) \<and> (\<forall>sh b w. V (snd (px_Decrypt x sh b w)) = V w)"

text \<open>
  A search finds an object with the label when there is one; attributes are those of the
  object; a generated key is new, has the template's label and identifier and 32 bytes; a
  label is set on the object alone; a destroyed object is gone. A call that fails may have
  taken effect.
\<close>

definition hsm_objects :: "'w p11ctx \<Rightarrow> 'w hsm_view \<Rightarrow> bool" where
  "hsm_objects x V \<longleftrightarrow>
     (\<forall>sh label w w1 hs w2. px_FindObjectsInit x sh (find_template label) w = (None, w1) \<longrightarrow>
        px_FindObjects x sh 1 w1 = (Inr hs, w2) \<longrightarrow>
        (case hs of [] \<Rightarrow> \<forall>h ob. V w h = Some ob \<longrightarrow> ob_label ob \<noteq> label
         | h # _ \<Rightarrow> \<exists>ob. V w h = Some ob \<and> ob_label ob = label)) \<and>
     (\<forall>sh oh ts w as w1. px_GetAttributeValue x sh oh ts w = (Inr as, w1) \<longrightarrow>
        (\<exists>ob. V w oh = Some ob \<and> as = map (attr_of ob) ts)) \<and>
     (\<forall>sh label nonce w oh w1. px_GenerateKey x sh (key_template label nonce) w = (Inr oh, w1) \<longrightarrow>
        V w oh = None \<and>
        (\<exists>v. length v = 32 \<and> V w1 = (V w)(oh := Some \<lparr>ob_label = label, ob_id = nonce, ob_value = v\<rparr>))) \<and>
     (\<forall>sh label nonce w e w1 h. px_GenerateKey x sh (key_template label nonce) w = (Inl e, w1) \<longrightarrow>
        V w1 h = V w h \<or> V w h = None \<and> (\<exists>ob. V w1 h = Some ob \<and> ob_label ob = label)) \<and>
     (\<forall>sh oh label w r w1. px_SetAttributeValue x sh oh [CKA_LABEL label] w = (r, w1) \<longrightarrow>
        (V w1 = V w \<and> r \<noteq> None) \<or>
        (\<exists>ob. V w oh = Some ob \<and> V w1 = (V w)(oh := Some (ob\<lparr>ob_label := label\<rparr>)))) \<and>
     (\<forall>sh oh w r w1. px_DestroyObject x sh oh w = (r, w1) \<longrightarrow>
        V w1 = (V w)(oh := None) \<or>
        V w1 = V w \<and> r \<noteq> None \<and>
        (\<forall>e. r = Some e \<longrightarrow>
           errors_as_pkcs11 e \<notin> {Some CKR_OBJECT_HANDLE_INVALID, Some CKR_KEY_HANDLE_INVALID}))"

definition hsm_crypt :: "'w keyenv \<Rightarrow> 'w p11ctx \<Rightarrow> 'w hsm_view \<Rightarrow> bool" where
  "hsm_crypt E x V \<longleftrightarrow>
     (\<forall>sh nonce oh w w1 pt ct w2. px_EncryptInit x sh nonce oh w = (None, w1) \<longrightarrow>
        px_Encrypt x sh pt w1 = (Inr ct, w2) \<longrightarrow>
        (\<exists>ob. V w oh = Some ob \<and> aesGCMSeal E (ob_value ob) nonce pt = Inr ct)) \<and>
     (\<forall>sh nonce oh w w1 pt ct w2. px_DecryptInit x sh nonce oh w = (None, w1) \<longrightarrow>
        px_Decrypt x sh ct w1 = (Inr pt, w2) \<longrightarrow>
        (\<exists>ob. V w oh = Some ob \<and> aesGCMOpen E (ob_value ob) nonce ct = Inr pt))"

text \<open>The unexported not-found marker of this package is not among the binding's errors.\<close>

definition hsm_foreign :: "'w p11ctx \<Rightarrow> bool" where
  "hsm_foreign x \<longleftrightarrow>
     (\<forall>sh t w e w1. px_FindObjectsInit x sh t w = (Some e, w1) \<longrightarrow> \<not> errors_is e ErrPKCS11NotFound) \<and>
     (\<forall>sh n w e w1. px_FindObjects x sh n w = (Inl e, w1) \<longrightarrow> \<not> errors_is e ErrPKCS11NotFound) \<and>
     (\<forall>sh oh w e w1. px_DestroyObject x sh oh w = (Some e, w1) \<longrightarrow> \<not> errors_is e ErrPKCS11NotFound)"

definition hsm_api :: "'w keyenv \<Rightarrow> 'w p11ctx \<Rightarrow> 'w hsm_view \<Rightarrow> bool" where
  "hsm_api E x V \<longleftrightarrow> hsm_quiet E x V \<and> hsm_objects x V \<and> hsm_crypt E x V \<and> hsm_foreign x"

lemma hsm_quietD:
  assumes "hsm_quiet E x V"
  shows "V (snd (ke_Rand E n w)) = V w" "V (snd (ke_EncryptForNode E m q w)) = V w"
    "V (snd (px_OpenSession x n w)) = V w" "V (snd (px_Login x sh pin w)) = V w"
    "V (px_Logout x sh w) = V w" "V (px_CloseSession x sh w) = V w"
    "V (snd (px_FindObjectsInit x sh t w)) = V w" "V (snd (px_FindObjects x sh n w)) = V w"
    "V (px_FindObjectsFinal x sh w) = V w" "V (snd (px_GetAttributeValue x sh oh ts w)) = V w"
    "V (snd (px_EncryptInit x sh b oh w)) = V w" "V (snd (px_Encrypt x sh b w)) = V w"
    "V (snd (px_DecryptInit x sh b oh w)) = V w" "V (snd (px_Decrypt x sh b w)) = V w"
  using assms by (simp_all add: hsm_quiet_def)

lemmas hsm_find = hsm_objects_def [THEN iffD1, THEN conjunct1, rule_format]
lemmas hsm_attrs = hsm_objects_def [THEN iffD1, THEN conjunct2, THEN conjunct1, rule_format]
lemmas hsm_generate = hsm_objects_def [THEN iffD1, THEN conjunct2, THEN conjunct2, THEN conjunct1, rule_format]
lemmas hsm_generate_fails =
  hsm_objects_def [THEN iffD1, THEN conjunct2, THEN conjunct2, THEN conjunct2, THEN conjunct1, rule_format]
lemmas hsm_set_label =
  hsm_objects_def [THEN iffD1, THEN conjunct2, THEN conjunct2, THEN conjunct2, THEN conjunct2, THEN conjunct1,
    rule_format]
lemmas hsm_destroy =
  hsm_objects_def [THEN iffD1, THEN conjunct2, THEN conjunct2, THEN conjunct2, THEN conjunct2, THEN conjunct2,
    rule_format]
lemmas hsm_encrypts = hsm_crypt_def [THEN iffD1, THEN conjunct1, rule_format]
lemmas hsm_decrypts = hsm_crypt_def [THEN iffD1, THEN conjunct2, rule_format]

lemma hsm_apiD:
  assumes "hsm_api E x V"
  shows "hsm_quiet E x V" "hsm_objects x V" "hsm_crypt E x V" "hsm_foreign x"
  using assms by (simp_all add: hsm_api_def)

section \<open>The material\<close>

text \<open>The objects that carry the label of a digest.\<close>

definition labelled :: "'w PKCS11 \<Rightarrow> 'w hsm_view \<Rightarrow> 'w \<Rightarrow> bytes \<Rightarrow> nat \<Rightarrow> p11_obj \<Rightarrow> bool" where
  "labelled p V w d h ob \<longleftrightarrow> V w h = Some ob \<and> ob_label ob = pc_KeyLabelPrefix (p_cfg p) @ hex_encode d"

definition p11_mat :: "'w PKCS11 \<Rightarrow> 'w hsm_view \<Rightarrow> 'w \<Rightarrow> bytes \<Rightarrow> bytes option" where
  "p11_mat p V w d =
     (if \<exists>h ob. labelled p V w d h ob
      then Some (THE m. \<exists>h ob. labelled p V w d h ob \<and> m = ob_value ob @ ob_id ob) else None)"

text \<open>One object for each digest, with a key and a nonce of the right sizes.\<close>

definition p11_objects_ok :: "'w keyenv \<Rightarrow> 'w PKCS11 \<Rightarrow> 'w hsm_view \<Rightarrow> 'w \<Rightarrow> bool" where
  "p11_objects_ok E p V w \<longleftrightarrow>
     (\<forall>d h h' ob ob'. labelled p V w d h ob \<longrightarrow> labelled p V w d h' ob' \<longrightarrow> h = h') \<and>
     (\<forall>d h ob. labelled p V w d h ob \<longrightarrow> length (ob_value ob) = 32 \<and> length (ob_id ob) = ke_NonceSize E)"

definition p11_inv :: "'w keyenv \<Rightarrow> 'w PKCS11 \<Rightarrow> 'w hsm_view \<Rightarrow> 'w p11_state \<Rightarrow> bool" where
  "p11_inv E p V s \<longleftrightarrow> keyenv_ok E \<and> ke_KeySize E = 32 \<and> hsm_api E (p_ctx p) V \<and> p11_objects_ok E p V (ps_world s)"

lemma labelled_keyLabel: "labelled p V w (Digest c) h ob \<longleftrightarrow> V w h = Some ob \<and> ob_label ob = keyLabel p c"
  by (simp add: labelled_def keyLabel_def)

lemma p11_mat_None: "p11_mat p V w d = None \<longleftrightarrow> (\<forall>h ob. \<not> labelled p V w d h ob)"
  by (auto simp: p11_mat_def)

lemma p11_mat_Some:
  assumes "p11_objects_ok E p V w" "labelled p V w d h ob"
  shows "p11_mat p V w d = Some (ob_value ob @ ob_id ob)"
proof -
  have "(THE m. \<exists>h ob. labelled p V w d h ob \<and> m = ob_value ob @ ob_id ob) = ob_value ob @ ob_id ob"
  proof (rule the_equality)
    show "\<exists>h ob'. labelled p V w d h ob' \<and> ob_value ob @ ob_id ob = ob_value ob' @ ob_id ob'"
      using assms(2) by blast
  next
    fix m assume "\<exists>h ob. labelled p V w d h ob \<and> m = ob_value ob @ ob_id ob"
    then obtain h' ob' where l: "labelled p V w d h' ob'" "m = ob_value ob' @ ob_id ob'" by blast
    then have "h' = h" using assms unfolding p11_objects_ok_def by blast
    with l assms(2) show "m = ob_value ob @ ob_id ob" by (simp add: labelled_def)
  qed
  with assms(2) show ?thesis by (auto simp: p11_mat_def)
qed

lemma p11_mat_cong:
  assumes "\<And>h ob. labelled p V w' d h ob \<longleftrightarrow> labelled p V w d h ob"
  shows "p11_mat p V w' d = p11_mat p V w d"
  by (simp add: p11_mat_def assms)

lemma p11_same:
  assumes "V w' = V w"
  shows "p11_mat p V w' = p11_mat p V w" "p11_objects_ok E p V w' \<longleftrightarrow> p11_objects_ok E p V w"
    "labelled p V w' = labelled p V w"
proof -
  show l: "labelled p V w' = labelled p V w" by (intro ext) (simp add: labelled_def assms)
  show "p11_mat p V w' = p11_mat p V w" by (rule ext, rule p11_mat_cong) (simp add: l)
  show "p11_objects_ok E p V w' \<longleftrightarrow> p11_objects_ok E p V w" by (simp add: p11_objects_ok_def l)
qed

section \<open>Sessions\<close>

lemma openSession_quiet:
  assumes "hsm_quiet E (p_ctx p) V" "openSession p w = (r, w')"
  shows "V w' = V w"
  using assms(2) hsm_quietD(3,4,6) [OF assms(1)]
  by (auto simp: openSession_def Let_def split: prod.splits sum.splits option.splits if_splits) (metis snd_conv)+

lemma with_session_cases:
  assumes "hsm_quiet E (p_ctx p) V" "with_session p f w = (r, w')"
  obtains (refused) e where "r = Inl e" "V w' = V w"
  | (ran) sh w1 w2 where "V w1 = V w" "f sh w1 = (r, w2)" "V w' = V w2"
proof (cases "openSession p w")
  case (Pair q w1)
  note o = openSession_quiet [OF assms(1) Pair]
  show thesis
  proof (cases q)
    case (Inl e)
    with assms(2) Pair have "r = Inl e" "w' = w1" by (simp_all add: with_session_def)
    with o refused show thesis by simp
  next
    case (Inr sh)
    obtain r2 w2 where f: "f sh w1 = (r2, w2)" by fastforce
    with assms(2) Pair Inr have "r2 = r" "w' = P11_Close p sh w2" by (simp_all add: with_session_def)
    with ran [OF o] f hsm_quietD(5,6) [OF assms(1)] show thesis by (simp add: P11_Close_def)
  qed
qed

lemma findKeyByLabel_view:
  assumes "hsm_api E (p_ctx p) V" "findKeyByLabel isp p sh (keyLabel p c) w = (r, w')"
  shows "V w' = V w \<and>
    (\<forall>oh. r = Inr oh \<longrightarrow> (\<exists>ob. labelled p V w (Digest c) oh ob)) \<and>
    (\<forall>e. r = Inl e \<longrightarrow> errors_is e ErrPKCS11NotFound \<longrightarrow> (\<forall>h ob. \<not> labelled p V w (Digest c) h ob))"
proof -
  note Q = hsm_quietD [OF hsm_apiD(1) [OF assms(1)]]
  obtain i w1 where i: "px_FindObjectsInit (p_ctx p) sh (find_template (keyLabel p c)) w = (i, w1)" by fastforce
  obtain q w2 where q: "px_FindObjects (p_ctx p) sh 1 w1 = (q, w2)" by fastforce
  have V: "V w1 = V w" "V (px_FindObjectsFinal (p_ctx p) sh w2) = V w"
    using Q(7) [of sh "find_template (keyLabel p c)" w] Q(8) [of sh 1 w1] Q(9) [of sh w2] i q by simp_all
  have nf: "i = Some e \<Longrightarrow> \<not> errors_is e ErrPKCS11NotFound" "q = Inl e \<Longrightarrow> \<not> errors_is e ErrPKCS11NotFound" for e
    using hsm_apiD(4) [OF assms(1)] i q unfolding hsm_foreign_def by blast+
  show ?thesis
  proof (cases i)
    case (Some e)
    with assms(2) i V nf show ?thesis by (auto simp: findKeyByLabel_def)
  next
    case None
    show ?thesis
    proof (cases q)
      case (Inl e)
      with None assms(2) i q V nf show ?thesis by (auto simp: findKeyByLabel_def Let_def)
    next
      case (Inr hs)
      from hsm_find [OF hsm_apiD(2) [OF assms(1)] i [unfolded None] q [unfolded Inr]]
      show ?thesis using None Inr assms(2) i q V
        by (cases hs) (auto simp: findKeyByLabel_def Let_def labelled_keyLabel)
    qed
  qed
qed

lemma destroyKey_view:
  assumes "hsm_api E (p_ctx p) V" "destroyKey p sh oh w = (r, w')"
  shows "(V w' = (V w)(oh := None) \<or> V w' = V w) \<and>
    ((\<forall>e. r = Some e \<longrightarrow> errors_is e ErrPKCS11NotFound) \<longrightarrow> V w' = (V w)(oh := None))"
proof -
  obtain q where q: "px_DestroyObject (p_ctx p) sh oh w = (q, w')"
    using assms(2) by (auto simp: destroyKey_def split: prod.splits option.splits if_splits)
  have "\<not> errors_is e ErrPKCS11NotFound" if "q = Some e" for e
    using hsm_apiD(4) [OF assms(1)] q that unfolding hsm_foreign_def by blast
  with hsm_destroy [OF hsm_apiD(2) [OF assms(1)] q] assms(2) q show ?thesis
    by (auto simp: destroyKey_def split: option.splits if_splits)
qed

lemma gcmEncrypt_view:
  assumes "hsm_api E (p_ctx p) V" "gcmEncrypt p sh oh nonce pt w = (r, w')"
  shows "V w' = V w \<and> (\<forall>ct. r = Inr ct \<longrightarrow> (\<exists>ob. V w oh = Some ob \<and> aesGCMSeal E (ob_value ob) nonce pt = Inr ct))"
proof -
  note Q = hsm_quietD [OF hsm_apiD(1) [OF assms(1)]]
  obtain i w1 where i: "px_EncryptInit (p_ctx p) sh nonce oh w = (i, w1)" by fastforce
  obtain q w2 where q: "px_Encrypt (p_ctx p) sh pt w1 = (q, w2)" by fastforce
  have V: "V w1 = V w" "V w2 = V w" using Q(11) [of sh nonce oh w] Q(12) [of sh pt w1] i q by simp_all
  show ?thesis
  proof (cases "i = None \<and> (\<exists>ct. q = Inr ct)")
    case True
    then obtain ct where "i = None" "q = Inr ct" by blast
    with hsm_encrypts [OF hsm_apiD(3) [OF assms(1)], of sh nonce oh w w1 pt ct w2] assms(2) i q V show ?thesis
      by (simp add: gcmEncrypt_def) blast
  next
    case False
    with assms(2) i q V show ?thesis by (auto simp: gcmEncrypt_def split: option.splits sum.splits)
  qed
qed

lemma gcmDecrypt_view:
  assumes "hsm_api E (p_ctx p) V" "gcmDecrypt p sh oh nonce ct w = (r, w')"
  shows "V w' = V w \<and> (\<forall>pt. r = Inr pt \<longrightarrow> (\<exists>ob. V w oh = Some ob \<and> aesGCMOpen E (ob_value ob) nonce ct = Inr pt))"
proof -
  note Q = hsm_quietD [OF hsm_apiD(1) [OF assms(1)]]
  obtain i w1 where i: "px_DecryptInit (p_ctx p) sh nonce oh w = (i, w1)" by fastforce
  obtain q w2 where q: "px_Decrypt (p_ctx p) sh ct w1 = (q, w2)" by fastforce
  have V: "V w1 = V w" "V w2 = V w" using Q(13) [of sh nonce oh w] Q(14) [of sh ct w1] i q by simp_all
  show ?thesis
  proof (cases "i = None \<and> (\<exists>pt. q = Inr pt)")
    case True
    then obtain pt where "i = None" "q = Inr pt" by blast
    with hsm_decrypts [OF hsm_apiD(3) [OF assms(1)], of sh nonce oh w w1 ct pt w2] assms(2) i q V show ?thesis
      by (simp add: gcmDecrypt_def) blast
  next
    case False
    with assms(2) i q V show ?thesis by (auto simp: gcmDecrypt_def split: option.splits sum.splits)
  qed
qed

section \<open>Generation\<close>

text \<open>The ciphertext a generation computes, when it gets that far.\<close>

definition P11_ciphertext :: "sdk \<Rightarrow> 'w PKCS11 \<Rightarrow> bytes \<Rightarrow> bytes \<Rightarrow> nat \<Rightarrow> 'w \<Rightarrow> bytes option" where
  "P11_ciphertext k p nonce pt sh w =
     (case generateAESKey (sdk_IsPrint k) p sh (tmpLabel p nonce) nonce w of
        (Inl e, w1) \<Rightarrow> None
      | (Inr oh, w1) \<Rightarrow>
          (case gcmEncrypt p sh oh nonce pt w1 of (Inl e, w2) \<Rightarrow> None | (Inr ct, w2) \<Rightarrow> Some ct))"

definition P11_draws :: "sdk \<Rightarrow> 'w keyenv \<Rightarrow> 'w PKCS11 \<Rightarrow> bytes \<Rightarrow> 'w p11_state \<Rightarrow> bytes option" where
  "P11_draws k E p pt s =
     (if \<not> ps_open s then None
      else case ke_Rand E (ke_NonceSize E) (ps_world s) of
             (Inl e, w1) \<Rightarrow> None
           | (Inr nonce, w1) \<Rightarrow>
               (case openSession p w1 of
                  (Inl e, w2) \<Rightarrow> None
                | (Inr sh, w2) \<Rightarrow> P11_ciphertext k p nonce pt sh w2))"

text \<open>The world has one more object for the digest, and it opens the ciphertext.\<close>

definition p11_added ::
  "sdk \<Rightarrow> 'w keyenv \<Rightarrow> 'w PKCS11 \<Rightarrow> 'w hsm_view \<Rightarrow> bytes \<Rightarrow> bytes \<Rightarrow> 'w \<Rightarrow> 'w \<Rightarrow> bool" where
  "p11_added k E p V pt ct w w' \<longleftrightarrow>
     (\<exists>h ob. V w h = None \<and> length (ob_value ob) = 32 \<and> length (ob_id ob) = ke_NonceSize E \<and>
        aesGCMSeal E (ob_value ob) (ob_id ob) pt = Inr ct \<and>
        (\<forall>d h' ob'. labelled p V w' d h' ob' \<longleftrightarrow>
           labelled p V w d h' ob' \<or> d = Digest (sdk_Compute k ct) \<and> h' = h \<and> ob' = ob))"

lemma labelled_new:
  assumes "V w h = None" "V w' = (V w)(h := Some ob)"
  shows "labelled p V w' d h' ob' \<longleftrightarrow>
    labelled p V w d h' ob' \<or>
    (ob_label ob = pc_KeyLabelPrefix (p_cfg p) @ hex_encode d \<and> h' = h \<and> ob' = ob)"
  using assms by (auto simp: labelled_def)

lemma generateAESKey_view:
  assumes "hsm_api E (p_ctx p) V" "generateAESKey isp p sh (tmpLabel p nonce) nonce w = (r, w')"
  shows "(\<exists>e. r = Inl e \<and> labelled p V w' = labelled p V w) \<or>
    (\<exists>oh v. r = Inr oh \<and> V w oh = None \<and> length v = 32 \<and>
       V w' = (V w)(oh := Some \<lparr>ob_label = tmpLabel p nonce, ob_id = nonce, ob_value = v\<rparr>))"
proof -
  obtain q where q: "px_GenerateKey (p_ctx p) sh (key_template (tmpLabel p nonce) nonce) w = (q, w')"
    using assms(2) by (auto simp: generateAESKey_def split: prod.splits sum.splits)
  show ?thesis
  proof (cases q)
    case (Inl e)
    have "labelled p V w' d h ob \<longleftrightarrow> labelled p V w d h ob" for d h ob
      using hsm_generate_fails [OF hsm_apiD(2) [OF assms(1)] q [unfolded Inl], of h]
        tmpLabel_not_keyLabel [of p nonce "zero_cid\<lparr>Digest := d\<rparr>"]
      by (auto simp: labelled_def keyLabel_def)
    then have "labelled p V w' = labelled p V w" by blast
    with assms(2) q Inl show ?thesis by (auto simp: generateAESKey_def)
  next
    case (Inr oh)
    from hsm_generate [OF hsm_apiD(2) [OF assms(1)] q [unfolded Inr]] assms(2) q Inr show ?thesis
      by (auto simp: generateAESKey_def)
  qed
qed

lemma labelled_tmp:
  assumes "V w oh = None" "V w' = (V w)(oh := Some \<lparr>ob_label = tmpLabel p nonce, ob_id = nonce, ob_value = v\<rparr>)"
  shows "labelled p V w' = labelled p V w"
  using labelled_new [OF assms, of p] tmpLabel_not_keyLabel [of p nonce "zero_cid\<lparr>Digest := d\<rparr>" for d]
  by (intro ext) (simp add: keyLabel_def)

lemma labelled_undone:
  assumes "V w oh = None" "V w' = (V w)(oh := x)" "V w'' = (V w')(oh := None)"
  shows "labelled p V w'' = labelled p V w"
proof -
  have "V w'' = V w" using assms by (auto simp: fun_eq_iff)
  then show ?thesis by (rule p11_same(3))
qed

lemma P11_generate_view:
  assumes api: "hsm_api E (p_ctx p) V" and n: "length nonce = ke_NonceSize E"
    and g: "P11_generate k p nonce pt sh w = (r, w')"
  shows "labelled p V w' = labelled p V w \<and> (\<exists>e. r = Inl e) \<or>
    (\<exists>ct. P11_ciphertext k p nonce pt sh w = Some ct \<and> p11_added k E p V pt ct w w' \<and>
       (\<forall>x. r = Inr x \<longrightarrow> x = (sdk_Compute k ct, ct)))"
proof -
  obtain q w1 where q: "generateAESKey (sdk_IsPrint k) p sh (tmpLabel p nonce) nonce w = (q, w1)" by fastforce
  from generateAESKey_view [OF api q] show ?thesis
  proof (elim disjE exE conjE)
    fix e assume "q = Inl e" "labelled p V w1 = labelled p V w"
    with g q show ?thesis by (auto simp: P11_generate_def)
  next
    fix oh v assume o: "q = Inr oh" "V w oh = None" "length v = 32"
      and V1: "V w1 = (V w)(oh := Some \<lparr>ob_label = tmpLabel p nonce, ob_id = nonce, ob_value = v\<rparr>)"
    obtain c w2 where c: "gcmEncrypt p sh oh nonce pt w1 = (c, w2)" by fastforce
    note C = gcmEncrypt_view [OF api c]
    show ?thesis
    proof (cases c)
      case (Inl e)
      obtain d where d: "destroyKey p sh oh w2 = (d, w')" "\<exists>e. r = Inl e"
        using g q o c Inl by (cases "destroyKey p sh oh w2") (auto simp: P11_generate_def)
      from destroyKey_view [OF api d(1)] C V1 labelled_tmp [of V w oh w' p nonce v, OF o(2)]
        labelled_undone [of V w oh w2 _ w' p, OF o(2)] d(2) show ?thesis by auto
    next
      case (Inr ct)
      let ?c = "sdk_Compute k ct"
      let ?ob = "\<lparr>ob_label = keyLabel p ?c, ob_id = nonce, ob_value = v\<rparr>"
      have ct: "P11_ciphertext k p nonce pt sh w = Some ct" using q o c Inr by (simp add: P11_ciphertext_def)
      have seal: "aesGCMSeal E v nonce pt = Inr ct" using C Inr V1 by simp
      have add: "p11_added k E p V pt ct w u" if "V u = (V w)(oh := Some ?ob)" for u
        unfolding p11_added_def
        using labelled_new [of V w oh u _ p, OF o(2) that] o(2,3) n seal
        by (intro exI [of _ oh] exI [of _ ?ob]) (auto simp: keyLabel_def)
      obtain l w3 where l: "px_SetAttributeValue (p_ctx p) sh oh [CKA_LABEL (keyLabel p ?c)] w2 = (l, w3)" by fastforce
      have L: "V w3 = V w2 \<and> l \<noteq> None \<or> V w3 = (V w)(oh := Some ?ob)"
        using hsm_set_label [OF hsm_apiD(2) [OF api] l] C V1 by auto
      show ?thesis
      proof (cases l)
        case None
        with g q o c Inr l L add [of w3] ct show ?thesis by (auto simp: P11_generate_def Let_def)
      next
        case (Some e)
        obtain d where d: "destroyKey p sh oh w3 = (d, w')" "\<exists>e. r = Inl e"
          using g q o c Inr l Some by (cases "destroyKey p sh oh w3") (auto simp: P11_generate_def Let_def)
        from destroyKey_view [OF api d(1)] L C V1 add [of w'] labelled_tmp [of V w oh w' p nonce v, OF o(2)]
          labelled_undone [of V w oh w3 _ w' p, OF o(2)] d(2) ct show ?thesis by auto
      qed
    qed
  qed
qed

lemma p11_added_other:
  assumes "p11_added k E p V pt ct w w'" "d \<noteq> Digest (sdk_Compute k ct)"
  shows "p11_mat p V w' d = p11_mat p V w d"
  using assms unfolding p11_added_def by (intro p11_mat_cong) auto

lemma p11_added_fresh:
  assumes "keyenv_ok E" "ke_KeySize E = 32" "p11_objects_ok E p V w" "p11_added k E p V pt ct w w'"
    and "p11_mat p V w (Digest (sdk_Compute k ct)) = None"
  shows "p11_objects_ok E p V w' \<and>
    (\<exists>m. p11_mat p V w' = (p11_mat p V w)(Digest (sdk_Compute k ct) := Some m) \<and> opens E m ct = Some pt)"
proof -
  let ?d = "Digest (sdk_Compute k ct)"
  obtain h ob where ob: "length (ob_value ob) = 32" "length (ob_id ob) = ke_NonceSize E"
      "aesGCMSeal E (ob_value ob) (ob_id ob) pt = Inr ct"
    and lab: "\<And>d h' ob'. labelled p V w' d h' ob' \<longleftrightarrow> labelled p V w d h' ob' \<or> d = ?d \<and> h' = h \<and> ob' = ob"
    using assms(4) unfolding p11_added_def by blast
  have none: "\<not> labelled p V w ?d h' ob'" for h' ob' using assms(5) by (simp add: p11_mat_None)
  have ok: "p11_objects_ok E p V w'"
    using assms(3) none ob(1,2) unfolding p11_objects_ok_def lab by blast
  have "p11_mat p V w' ?d = Some (ob_value ob @ ob_id ob)" using p11_mat_Some [OF ok, of ?d h ob] lab by blast
  then have "p11_mat p V w' = (p11_mat p V w)(?d := Some (ob_value ob @ ob_id ob))"
    using p11_added_other [OF assms(4)] by auto
  with ok opens_seal [OF assms(1) _ ob(2,3)] ob(1) assms(2) show ?thesis by auto
qed

section \<open>Use and deletion\<close>

lemma find_or_missing_view:
  assumes "hsm_api E (p_ctx p) V" "find_or_missing isp p sh c w = (r, w')"
  shows "V w' = V w" "\<And>oh. r = Inr oh \<Longrightarrow> \<exists>ob. labelled p V w (Digest c) oh ob"
proof -
  obtain q where q: "findKeyByLabel isp p sh (keyLabel p c) w = (q, w')"
    using assms(2) by (auto simp: find_or_missing_def split: prod.splits sum.splits)
  from findKeyByLabel_view [OF assms(1) q] assms(2) q
  show "V w' = V w" "\<And>oh. r = Inr oh \<Longrightarrow> \<exists>ob. labelled p V w (Digest c) oh ob"
    by (auto simp: find_or_missing_def split: sum.splits)
qed

lemma P11_decrypt_view:
  assumes "hsm_api E (p_ctx p) V" "ke_KeySize E = 32" "p11_objects_ok E p V w"
    and d: "P11_decrypt k E p c ct sh w = (r, w')"
  shows "V w' = V w \<and> (\<forall>pt. r = Inr pt \<longrightarrow> (\<exists>m. p11_mat p V w (Digest c) = Some m \<and> opens E m ct = Some pt))"
proof -
  obtain q w1 where q: "find_or_missing (sdk_IsPrint k) p sh c w = (q, w1)" by fastforce
  note F = find_or_missing_view [OF assms(1) q]
  show ?thesis
  proof (cases q)
    case (Inl e)
    with q d F show ?thesis by (auto simp: P11_decrypt_def)
  next
    case (Inr oh)
    then obtain ob where ob: "labelled p V w (Digest c) oh ob" using F(2) by blast
    obtain a w2 where a: "px_GetAttributeValue (p_ctx p) sh oh [T_ID] w1 = (a, w2)" by fastforce
    obtain g w3 where g: "gcmDecrypt p sh oh (ob_id ob) ct w2 = (g, w3)" by fastforce
    have V2: "V w2 = V w" using hsm_quietD(10) [OF hsm_apiD(1) [OF assms(1)], of sh oh "[T_ID]" w1] a F by simp
    note G = gcmDecrypt_view [OF assms(1) g]
    have oh: "V w oh = Some ob" using ob by (simp add: labelled_def)
    have len: "length (ob_value ob) = 32" "length (ob_id ob) = ke_NonceSize E"
      using assms(3) ob unfolding p11_objects_ok_def by blast+
    have at: "as = [CKA_ID (ob_id ob)]" if "a = Inr as" for as
      using hsm_attrs [OF hsm_apiD(2) [OF assms(1)] a [unfolded that]] F oh by simp
    have op: "opens E (ob_value ob @ ob_id ob) ct = Some pt" if "g = Inr pt" for pt
      using G that V2 oh len assms(2) by (simp add: opens_def)
    from d q Inr a at g G V2 len op p11_mat_Some [OF assms(3) ob] show ?thesis
      by (cases a; cases g) (auto simp: P11_decrypt_def Let_def)
  qed
qed

lemma P11_wrap_view:
  assumes "hsm_api E (p_ctx p) V" "p11_objects_ok E p V w" "P11_wrap k E p c pub sh w = (r, w')"
  shows "V w' = V w \<and> (\<forall>env. r = Inr env \<longrightarrow> p11_mat p V w (Digest c) \<noteq> None)"
proof -
  note Q = hsm_quietD [OF hsm_apiD(1) [OF assms(1)]]
  obtain q w1 where q: "find_or_missing (sdk_IsPrint k) p sh c w = (q, w1)" by fastforce
  note F = find_or_missing_view [OF assms(1) q]
  show ?thesis
  proof (cases q)
    case (Inl e)
    with q assms(3) F show ?thesis by (auto simp: P11_wrap_def)
  next
    case (Inr oh)
    then obtain ob where ob: "labelled p V w (Digest c) oh ob" using F(2) by blast
    obtain a w2 where a: "readKeyMaterial p sh oh w1 = (a, w2)" by fastforce
    have V2: "V w2 = V w"
      using Q(10) [of sh oh "[T_VALUE, T_ID]" w1] a F
      by (auto simp: readKeyMaterial_def split: prod.splits sum.splits if_splits)
    have "V w' = V w"
      using assms(3) q Inr a V2 Q(2)
      by (auto simp: P11_wrap_def split: sum.splits prod.splits) (metis snd_conv)+
    with p11_mat_Some [OF assms(2) ob] show ?thesis by simp
  qed
qed

lemma P11_delete_view:
  assumes "hsm_api E (p_ctx p) V" "P11_delete k p c sh w = (r, w')"
  shows "V w' = V w \<and> (r = Inr () \<longrightarrow> (\<forall>h ob. \<not> labelled p V w (Digest c) h ob)) \<or>
    (\<exists>oh ob. labelled p V w (Digest c) oh ob \<and> V w' = (V w)(oh := None))"
proof -
  obtain q w1 where q: "findKeyByLabel (sdk_IsPrint k) p sh (keyLabel p c) w = (q, w1)" by fastforce
  note F = findKeyByLabel_view [OF assms(1) q]
  show ?thesis
  proof (cases q)
    case (Inl e)
    with F q assms(2) show ?thesis by (auto simp: P11_delete_def split: if_splits)
  next
    case (Inr oh)
    then obtain ob where ob: "labelled p V w (Digest c) oh ob" using F by blast
    obtain d where d: "destroyKey p sh oh w1 = (d, w')" "r = Inr () \<longrightarrow> (\<forall>e. d = Some e \<longrightarrow> errors_is e ErrPKCS11NotFound)"
      using assms(2) q Inr by (auto simp: P11_delete_def split: prod.splits option.splits if_splits)
    from destroyKey_view [OF assms(1) d(1)] d(2) F ob show ?thesis by auto
  qed
qed

lemma labelled_destroyed:
  assumes "p11_objects_ok E p V w" "labelled p V w d oh ob" "V w' = (V w)(oh := None)"
  shows "labelled p V w' d' h ob' \<longleftrightarrow> d' \<noteq> d \<and> labelled p V w d' h ob'"
proof -
  have "labelled p V w' d' h ob' \<longleftrightarrow> h \<noteq> oh \<and> labelled p V w d' h ob'" by (simp add: labelled_def assms(3))
  moreover have "h \<noteq> oh \<longleftrightarrow> d' \<noteq> d" if l: "labelled p V w d' h ob'"
  proof
    assume "h \<noteq> oh"
    with l assms(1,2) show "d' \<noteq> d" unfolding p11_objects_ok_def by blast
  next
    assume "d' \<noteq> d"
    with l assms(2) show "h \<noteq> oh" by (auto simp: labelled_def)
  qed
  ultimately show ?thesis by blast
qed

section \<open>The contract\<close>

lemma p11_labelled_same:
  assumes "labelled p V w' = labelled p V w"
  shows "p11_mat p V w' = p11_mat p V w" "p11_objects_ok E p V w' \<longleftrightarrow> p11_objects_ok E p V w"
  by (rule ext, rule p11_mat_cong, simp add: assms) (simp add: p11_objects_ok_def assms)

lemma p11_invD:
  assumes "p11_inv E p V s"
  shows "keyenv_ok E" "ke_KeySize E = 32" "hsm_api E (p_ctx p) V" "hsm_quiet E (p_ctx p) V"
    "p11_objects_ok E p V (ps_world s)"
  using assms by (simp_all add: p11_inv_def hsm_api_def)

lemma p11_inv_world:
  assumes "p11_inv E p V s" "p11_objects_ok E p V w"
  shows "p11_inv E p V (s\<lparr>ps_world := w\<rparr>)"
  using assms by (simp add: p11_inv_def)

lemma P11_Decrypt_view:
  assumes "p11_inv E p V s" "P11_Decrypt k E p c ct s = (r, s')"
  shows "V (ps_world s') = V (ps_world s) \<and>
    (\<forall>pt. r = Inr pt \<longrightarrow> (\<exists>m. p11_mat p V (ps_world s) (Digest c) = Some m \<and> opens E m ct = Some pt))"
proof (cases "checkOpen s")
  case None
  obtain q w' where q: "with_session p (P11_decrypt k E p c ct) (ps_world s) = (q, w')" by fastforce
  have s': "r = q" "s' = s\<lparr>ps_world := w'\<rparr>" using assms(2) None q by (simp_all add: P11_Decrypt_def)
  from p11_invD(4) [OF assms(1)] q show ?thesis
  proof (cases rule: with_session_cases)
    case (ran sh w1 w2)
    from P11_decrypt_view [OF p11_invD(3,2) [OF assms(1)] _ ran(2)] p11_same [OF ran(1)] p11_invD(5) [OF assms(1)] ran s'
    show ?thesis by simp
  qed (simp add: s')
qed (use assms(2) in \<open>auto simp: P11_Decrypt_def\<close>)

lemma P11_Wrap_view:
  assumes "p11_inv E p V s" "P11_WrapForRecipient k E p c rp s = (r, s')"
  shows "V (ps_world s') = V (ps_world s) \<and> (\<forall>env. r = Inr env \<longrightarrow> p11_mat p V (ps_world s) (Digest c) \<noteq> None)"
proof (cases "recipient E rp")
  case (Inr pub)
  show ?thesis
  proof (cases "checkOpen s")
    case None
    obtain q w' where q: "with_session p (P11_wrap k E p c pub) (ps_world s) = (q, w')" by fastforce
    have s': "r = q" "s' = s\<lparr>ps_world := w'\<rparr>" using assms(2) None Inr q by (simp_all add: P11_WrapForRecipient_def)
    from p11_invD(4) [OF assms(1)] q show ?thesis
    proof (cases rule: with_session_cases)
      case (ran sh w1 w2)
      from P11_wrap_view [OF p11_invD(3) [OF assms(1)] _ ran(2)] p11_same [OF ran(1)] p11_invD(5) [OF assms(1)] ran s'
      show ?thesis by simp
    qed (simp add: s')
  qed (use assms(2) Inr in \<open>auto simp: P11_WrapForRecipient_def\<close>)
qed (use assms(2) in \<open>auto simp: P11_WrapForRecipient_def\<close>)

lemma P11_Delete_view:
  assumes "p11_inv E p V s" "P11_Delete k p c s = (r, s')"
  shows "V (ps_world s') = V (ps_world s) \<and> (r = None \<longrightarrow> p11_mat p V (ps_world s) (Digest c) = None) \<or>
    (\<exists>oh ob. labelled p V (ps_world s) (Digest c) oh ob \<and> V (ps_world s') = (V (ps_world s))(oh := None))"
proof (cases "checkOpen s")
  case None
  obtain q w' where q: "with_session p (P11_delete k p c) (ps_world s) = (q, w')" by fastforce
  have s': "r = None \<longleftrightarrow> q = Inr ()" "s' = s\<lparr>ps_world := w'\<rparr>"
    using assms(2) None q by (auto simp: P11_Delete_def split: sum.splits)
  from p11_invD(4) [OF assms(1)] q show ?thesis
  proof (cases rule: with_session_cases)
    case (ran sh w1 w2)
    from P11_delete_view [OF p11_invD(3) [OF assms(1)] ran(2)] p11_same [OF ran(1)] ran s'
    show ?thesis by (auto simp: p11_mat_None)
  qed (simp add: s')
qed (use assms(2) in \<open>auto simp: P11_Delete_def\<close>)

lemma p11_added_same:
  assumes "V w1 = V w" "V w2' = V w2" "p11_added k E p V pt ct w1 w2"
  shows "p11_added k E p V pt ct w w2'"
  using assms(3) by (simp add: p11_added_def p11_same(3) [OF assms(1)] p11_same(3) [OF assms(2)] assms(1))

lemma P11_Generate_view:
  assumes "p11_inv E p V s" "P11_GenerateAndEncrypt k E p pt s = (r, s')"
  shows "labelled p V (ps_world s') = labelled p V (ps_world s) \<and> (\<exists>e. r = Inl e) \<or>
    (\<exists>ct. P11_draws k E p pt s = Some ct \<and> p11_added k E p V pt ct (ps_world s) (ps_world s') \<and>
       (\<forall>x. r = Inr x \<longrightarrow> x = (sdk_Compute k ct, ct)))"
proof (cases "ps_open s")
  case True
  note Q = hsm_quietD [OF p11_invD(4) [OF assms(1)]]
  obtain n w1 where n: "ke_Rand E (ke_NonceSize E) (ps_world s) = (n, w1)" by fastforce
  have V1: "V w1 = V (ps_world s)" using Q(1) [of "ke_NonceSize E" "ps_world s"] n by simp
  show ?thesis
  proof (cases n)
    case (Inl e)
    with assms(2) True n p11_same(3) [OF V1] show ?thesis by (auto simp: P11_GenerateAndEncrypt_def checkOpen_def)
  next
    case (Inr nonce)
    have len: "length nonce = ke_NonceSize E" using p11_invD(1) [OF assms(1)] n Inr unfolding keyenv_ok_def by blast
    obtain q w2 where o: "openSession p w1 = (q, w2)" by fastforce
    have V2: "V w2 = V (ps_world s)" using openSession_quiet [OF p11_invD(4) [OF assms(1)] o] V1 by simp
    show ?thesis
    proof (cases q)
      case (Inl e)
      with assms(2) True n Inr o p11_same(3) [OF V2] show ?thesis
        by (auto simp: P11_GenerateAndEncrypt_def checkOpen_def with_session_def)
    next
      case (Inr sh)
      obtain g w3 where g: "P11_generate k p nonce pt sh w2 = (g, w3)" by fastforce
      have V': "V (ps_world s') = V w3" and r: "r = g"
        using assms(2) True n \<open>n = Inr nonce\<close> o Inr g Q(5,6)
        by (auto simp: P11_GenerateAndEncrypt_def checkOpen_def with_session_def P11_Close_def)
      have "P11_draws k E p pt s = P11_ciphertext k p nonce pt sh w2"
        using True n \<open>n = Inr nonce\<close> o Inr by (simp add: P11_draws_def)
      with P11_generate_view [OF p11_invD(3) [OF assms(1)] len g] r p11_same(3) [OF V2] p11_same(3) [OF V']
        p11_added_same [OF V2 V'] show ?thesis by auto
    qed
  qed
qed (use assms(2) in \<open>auto simp: P11_GenerateAndEncrypt_def checkOpen_def\<close>)

abbreviation p11_okd :: "sdk \<Rightarrow> 'w keyenv \<Rightarrow> 'w PKCS11 \<Rightarrow> 'w hsm_view \<Rightarrow> bytes \<Rightarrow> 'w p11_state \<Rightarrow> bool" where
  "p11_okd k E p V \<equiv> fresh_key (P11_draws k E p) (\<lambda>s. p11_mat p V (ps_world s)) (sdk_Compute k)"

lemma P11_Generate_ok:
  assumes "p11_inv E p V s" "p11_okd k E p V pt s" "P11_GenerateAndEncrypt k E p pt s = (r, s')"
  shows "p11_objects_ok E p V (ps_world s')"
    and "r = Inr (c, ct) \<Longrightarrow> P11_draws k E p pt s = Some ct \<and> c = sdk_Compute k ct \<and>
      (\<exists>m. p11_mat p V (ps_world s') = (p11_mat p V (ps_world s))(Digest c := Some m) \<and> opens E m ct = Some pt)"
    and "x \<notin> drawn (P11_draws k E p) (sdk_Compute k) pt s \<Longrightarrow> p11_mat p V (ps_world s') x = p11_mat p V (ps_world s) x"
proof -
  note I = p11_invD [OF assms(1)]
  have fr: "p11_mat p V (ps_world s) (Digest (sdk_Compute k ct)) = None" if "P11_draws k E p pt s = Some ct" for ct
    using assms(2) that by (simp add: fresh_key_def)
  note G = P11_Generate_view [OF assms(1,3)]
  show "p11_objects_ok E p V (ps_world s')"
    using G p11_labelled_same(2) [of p V "ps_world s'" "ps_world s" E] p11_added_fresh [OF I(1,2,5)] fr I(5) by metis
  show "r = Inr (c, ct) \<Longrightarrow> P11_draws k E p pt s = Some ct \<and> c = sdk_Compute k ct \<and>
      (\<exists>m. p11_mat p V (ps_world s') = (p11_mat p V (ps_world s))(Digest c := Some m) \<and> opens E m ct = Some pt)"
    using G p11_added_fresh [OF I(1,2,5) _ fr] by auto
  show "x \<notin> drawn (P11_draws k E p) (sdk_Compute k) pt s \<Longrightarrow> p11_mat p V (ps_world s') x = p11_mat p V (ps_world s) x"
    using G p11_labelled_same(1) [of p V "ps_world s'" "ps_world s"] p11_added_other [of k E p V pt _ "ps_world s" "ps_world s'" x]
    by (auto simp: drawn_def)
qed

lemma P11_Delete_ok:
  assumes "p11_inv E p V s" "P11_Delete k p c s = (r, s')"
  shows "p11_objects_ok E p V (ps_world s')"
    and "p11_mat p V (ps_world s') = (if r = None then (p11_mat p V (ps_world s))(Digest c := None) else p11_mat p V (ps_world s)) \<or>
      p11_mat p V (ps_world s') = (p11_mat p V (ps_world s))(Digest c := None)"
proof -
  note I = p11_invD(5) [OF assms(1)]
  from P11_Delete_view [OF assms] have "p11_objects_ok E p V (ps_world s') \<and>
    (p11_mat p V (ps_world s') = (if r = None then (p11_mat p V (ps_world s))(Digest c := None) else p11_mat p V (ps_world s)) \<or>
     p11_mat p V (ps_world s') = (p11_mat p V (ps_world s))(Digest c := None))"
  proof (elim disjE conjE exE)
    assume "V (ps_world s') = V (ps_world s)" and n: "r = None \<longrightarrow> p11_mat p V (ps_world s) (Digest c) = None"
    from p11_same [where V = V and w' = "ps_world s'" and w = "ps_world s", OF this(1)] n I show ?thesis by auto
  next
    fix oh ob assume "labelled p V (ps_world s) (Digest c) oh ob" "V (ps_world s') = (V (ps_world s))(oh := None)"
    note L = labelled_destroyed [OF I this]
    have "p11_mat p V (ps_world s') d = ((p11_mat p V (ps_world s))(Digest c := None)) d" for d
      using L by (cases "d = Digest c") (auto simp: p11_mat_None intro: p11_mat_cong)
    moreover have "p11_objects_ok E p V (ps_world s')" using I unfolding p11_objects_ok_def L by blast
    ultimately show ?thesis by blast
  qed
  then show "p11_objects_ok E p V (ps_world s')"
    and "p11_mat p V (ps_world s') = (if r = None then (p11_mat p V (ps_world s))(Digest c := None) else p11_mat p V (ps_world s)) \<or>
      p11_mat p V (ps_world s') = (p11_mat p V (ps_world s))(Digest c := None)" by blast+
qed

lemma P11_unchanged:
  assumes "p11_inv E p V s" "V (ps_world s') = V (ps_world s)"
  shows "p11_inv E p V s'" "p11_mat p V (ps_world s') = p11_mat p V (ps_world s)"
  using assms p11_same [where V = V and w' = "ps_world s'" and w = "ps_world s", OF assms(2)]
  by (simp_all add: p11_inv_def)

interpretation p11: key_custody "P11_service k E p" p11_tag "p11_inv E p V" "\<lambda>s. p11_mat p V (ps_world s)" "opens E"
  "sdk_Compute k" "P11_draws k E p" "p11_okd k E p V"
proof (unfold_locales, goal_cases)
  case 2
  show ?case by (simp add: P11_Rotate_def)
next
  case (3 s pt)
  from P11_Generate_ok(1) [OF this, of "fst (P11_GenerateAndEncrypt k E p pt s)" "snd (P11_GenerateAndEncrypt k E p pt s)"] 3(1)
  show ?case by (simp add: p11_inv_def)
next
  case (4 s c ct)
  show ?case by (simp add: P11_unchanged(1) [OF 4 P11_Decrypt_view [OF 4 prod.collapse [symmetric], THEN conjunct1]])
next
  case (5 s c pub)
  show ?case by (simp add: P11_unchanged(1) [OF 5 P11_Wrap_view [OF 5 prod.collapse [symmetric], THEN conjunct1]])
next
  case (6 s c)
  from P11_Delete_ok(1) [OF this, of k c "fst (P11_Delete k p c s)" "snd (P11_Delete k p c s)"] this
  show ?case by (simp add: p11_inv_def)
next
  case (7 s pt c ct s')
  then show ?case using P11_Generate_ok(2) [OF 7(1,2), of "Inr (c, ct)" s' c ct] by auto
next
  case (8 s pt x)
  then show ?case
    using P11_Generate_ok(3) [OF 8(1,2), of "fst (P11_GenerateAndEncrypt k E p pt s)" "snd (P11_GenerateAndEncrypt k E p pt s)" x]
    by simp
next
  case (9 s c ct)
  show ?case by (simp add: P11_unchanged(2) [OF 9 P11_Decrypt_view [OF 9 prod.collapse [symmetric], THEN conjunct1]])
next
  case (10 s c ct pt s')
  then show ?case using P11_Decrypt_view [OF 10(1), of k c ct "Inr pt" s'] by simp
next
  case (11 s c pub)
  show ?case by (simp add: P11_unchanged(2) [OF 11 P11_Wrap_view [OF 11 prod.collapse [symmetric], THEN conjunct1]])
next
  case (12 s c pub env s')
  then show ?case using P11_Wrap_view [OF 12(1), of k c pub "Inr env" s'] by simp
next
  case (13 s c s')
  then show ?case using P11_Delete_ok(2) [OF 13(1), of k c None s'] by auto
next
  case (14 s c)
  from P11_Delete_ok(2) [OF this, of k c "fst (P11_Delete k p c s)" "snd (P11_Delete k p c s)"]
  show ?case by (auto split: if_splits)
next
  case (15 s x c)
  from P11_Delete_ok(2) [OF 15(1), of k c "fst (P11_Delete k p c s)" "snd (P11_Delete k p c s)"] 15(2)
  show ?case by (auto split: if_splits)
qed simp

section \<open>A token that answers\<close>

definition hsm_reliable :: "'w keyenv \<Rightarrow> 'w p11ctx \<Rightarrow> 'w hsm_view \<Rightarrow> bool" where
  "hsm_reliable E x V \<longleftrightarrow>
     (\<forall>n w. \<exists>b w'. ke_Rand E n w = (Inr b, w')) \<and>
     (\<forall>n w. \<exists>sh w'. px_OpenSession x n w = (Inr sh, w')) \<and> (\<forall>sh pin w. fst (px_Login x sh pin w) = None) \<and>
     (\<forall>sh t w. fst (px_FindObjectsInit x sh t w) = None) \<and> (\<forall>sh n w. \<exists>hs w'. px_FindObjects x sh n w = (Inr hs, w')) \<and>
     (\<forall>sh oh ts w. V w oh \<noteq> None \<longrightarrow> (\<exists>as w'. px_GetAttributeValue x sh oh ts w = (Inr as, w'))) \<and>
     (\<forall>sh label nonce w. \<exists>oh w'. px_GenerateKey x sh (key_template label nonce) w = (Inr oh, w')) \<and>
     (\<forall>sh oh label w. V w oh \<noteq> None \<longrightarrow> fst (px_SetAttributeValue x sh oh [CKA_LABEL label] w) = None) \<and>
     (\<forall>sh oh w. V w oh \<noteq> None \<longrightarrow> fst (px_DestroyObject x sh oh w) = None) \<and>
     (\<forall>sh nonce oh w ob pt. V w oh = Some ob \<longrightarrow> length (ob_value ob) = 32 \<longrightarrow> length nonce = gcm_nonce_size \<longrightarrow>
        (\<exists>w1 ct w2. px_EncryptInit x sh nonce oh w = (None, w1) \<and> px_Encrypt x sh pt w1 = (Inr ct, w2))) \<and>
     (\<forall>sh nonce oh w ob ct pt. V w oh = Some ob \<longrightarrow> aesGCMOpen E (ob_value ob) nonce ct = Inr pt \<longrightarrow>
        (\<exists>w1 w2. px_DecryptInit x sh nonce oh w = (None, w1) \<and> px_Decrypt x sh ct w1 = (Inr pt, w2)))"

lemmas hrel_rand =
  hsm_reliable_def [THEN iffD1, THEN conjunct1, rule_format]
lemmas hrel_open =
  hsm_reliable_def [THEN iffD1, THEN conjunct2, THEN conjunct1, rule_format]
lemmas hrel_login =
  hsm_reliable_def [THEN iffD1, THEN conjunct2, THEN conjunct2, THEN conjunct1, rule_format]
lemmas hrel_find_init =
  hsm_reliable_def [THEN iffD1, THEN conjunct2, THEN conjunct2, THEN conjunct2, THEN conjunct1, rule_format]
lemmas hrel_find =
  hsm_reliable_def [THEN iffD1, THEN conjunct2, THEN conjunct2, THEN conjunct2, THEN conjunct2,
    THEN conjunct1, rule_format]
lemmas hrel_attrs =
  hsm_reliable_def [THEN iffD1, THEN conjunct2, THEN conjunct2, THEN conjunct2, THEN conjunct2,
    THEN conjunct2, THEN conjunct1, rule_format]
lemmas hrel_generate =
  hsm_reliable_def [THEN iffD1, THEN conjunct2, THEN conjunct2, THEN conjunct2, THEN conjunct2,
    THEN conjunct2, THEN conjunct2, THEN conjunct1, rule_format]
lemmas hrel_set_label =
  hsm_reliable_def [THEN iffD1, THEN conjunct2, THEN conjunct2, THEN conjunct2, THEN conjunct2,
    THEN conjunct2, THEN conjunct2, THEN conjunct2, THEN conjunct1, rule_format]
lemmas hrel_destroy =
  hsm_reliable_def [THEN iffD1, THEN conjunct2, THEN conjunct2, THEN conjunct2, THEN conjunct2,
    THEN conjunct2, THEN conjunct2, THEN conjunct2, THEN conjunct2, THEN conjunct1, rule_format]
lemmas hrel_encrypt =
  hsm_reliable_def [THEN iffD1, THEN conjunct2, THEN conjunct2, THEN conjunct2, THEN conjunct2,
    THEN conjunct2, THEN conjunct2, THEN conjunct2, THEN conjunct2, THEN conjunct2, THEN conjunct1,
    rule_format]
lemmas hrel_decrypt =
  hsm_reliable_def [THEN iffD1, THEN conjunct2, THEN conjunct2, THEN conjunct2, THEN conjunct2,
    THEN conjunct2, THEN conjunct2, THEN conjunct2, THEN conjunct2, THEN conjunct2, THEN conjunct2,
    rule_format]

definition p11_up :: "'w keyenv \<Rightarrow> 'w PKCS11 \<Rightarrow> 'w hsm_view \<Rightarrow> 'w p11_state \<Rightarrow> bool" where
  "p11_up E p V s \<longleftrightarrow> hsm_reliable E (p_ctx p) V \<and> ps_open s"

text \<open>A session opens, and what runs in it decides the result.\<close>

lemma with_session_up:
  assumes "hsm_quiet E (p_ctx p) V" "hsm_reliable E (p_ctx p) V"
  obtains sh w1 where "openSession p w = (Inr sh, w1)" "V w1 = V w"
    "\<And>f. with_session p f w = (fst (f sh w1), P11_Close p sh (snd (f sh w1)))"
proof -
  obtain sh w0 where o: "px_OpenSession (p_ctx p) (p_slotID p) w = (Inr sh, w0)"
    using hrel_open [OF assms(2)] by blast
  obtain w1 where l: "px_Login (p_ctx p) sh (pc_Pin (p_cfg p)) w0 = (None, w1)"
    using hrel_login [OF assms(2)] by (metis prod.collapse)
  have os: "openSession p w = (Inr sh, w1)" using o l by (simp add: openSession_def)
  from that [OF os openSession_quiet [OF assms(1) os]] os show thesis
    by (simp add: with_session_def split: prod.split)
qed

lemma findKeyByLabel_up:
  assumes "hsm_api E (p_ctx p) V" "hsm_reliable E (p_ctx p) V"
  shows "\<exists>w'. V w' = V w \<and>
    ((\<exists>oh ob. findKeyByLabel isp p sh (keyLabel p c) w = (Inr oh, w') \<and> labelled p V w (Digest c) oh ob) \<or>
     findKeyByLabel isp p sh (keyLabel p c) w = (Inl (Sentinel ErrPKCS11NotFound), w') \<and>
       (\<forall>h ob. \<not> labelled p V w (Digest c) h ob))"
proof -
  obtain w1 where i: "px_FindObjectsInit (p_ctx p) sh (find_template (keyLabel p c)) w = (None, w1)"
    using hrel_find_init [OF assms(2)] by (metis prod.collapse)
  obtain hs w2 where q: "px_FindObjects (p_ctx p) sh 1 w1 = (Inr hs, w2)" using hrel_find [OF assms(2)] by blast
  obtain r w' where f: "findKeyByLabel isp p sh (keyLabel p c) w = (r, w')" by fastforce
  have "r = (case hs of [] \<Rightarrow> Inl (Sentinel ErrPKCS11NotFound) | oh # _ \<Rightarrow> Inr oh)"
    using f i q by (auto simp: findKeyByLabel_def Let_def split: list.splits)
  with findKeyByLabel_view [OF assms(1) f] f show ?thesis by (cases hs) auto
qed

lemma P11_generate_up:
  assumes "hsm_api E (p_ctx p) V" "hsm_reliable E (p_ctx p) V" "length nonce = gcm_nonce_size"
  shows "\<exists>c ct. fst (P11_generate k p nonce pt sh w) = Inr (c, ct)"
proof -
  obtain oh w1 where g: "px_GenerateKey (p_ctx p) sh (key_template (tmpLabel p nonce) nonce) w = (Inr oh, w1)"
    using hrel_generate [OF assms(2)] by blast
  obtain ob where V1: "V w1 oh = Some ob" "length (ob_value ob) = 32"
    using hsm_generate [OF hsm_apiD(2) [OF assms(1)] g] by auto
  obtain w2 ct w3 where e: "px_EncryptInit (p_ctx p) sh nonce oh w1 = (None, w2)"
      "px_Encrypt (p_ctx p) sh pt w2 = (Inr ct, w3)"
    using hrel_encrypt [OF assms(2) V1 assms(3)] by blast
  have en: "gcmEncrypt p sh oh nonce pt w1 = (Inr ct, w3)" using e by (simp add: gcmEncrypt_def)
  have "V w3 oh \<noteq> None" using gcmEncrypt_view [OF assms(1) en] V1 by simp
  from hrel_set_label [OF assms(2) this]
  have "fst (px_SetAttributeValue (p_ctx p) sh oh [CKA_LABEL (keyLabel p (sdk_Compute k ct))] w3) = None" .
  with g en show ?thesis
    by (auto simp: P11_generate_def generateAESKey_def Let_def split: prod.splits)
qed

lemma P11_decrypt_up:
  assumes "hsm_api E (p_ctx p) V" "hsm_reliable E (p_ctx p) V" "ke_KeySize E = 32" "p11_objects_ok E p V w"
  shows "case p11_mat p V w (Digest c) of
      None \<Rightarrow> fst (P11_decrypt k E p c ct sh w) = Inl (Sentinel ErrKeyNotFound)
    | Some m \<Rightarrow> \<forall>pt. opens E m ct = Some pt \<longrightarrow> fst (P11_decrypt k E p c ct sh w) = Inr pt"
proof -
  obtain w1 where V1: "V w1 = V w" and f:
    "(\<exists>oh ob. findKeyByLabel (sdk_IsPrint k) p sh (keyLabel p c) w = (Inr oh, w1) \<and> labelled p V w (Digest c) oh ob) \<or>
     findKeyByLabel (sdk_IsPrint k) p sh (keyLabel p c) w = (Inl (Sentinel ErrPKCS11NotFound), w1) \<and>
       (\<forall>h ob. \<not> labelled p V w (Digest c) h ob)"
    using findKeyByLabel_up [OF assms(1,2)] by blast
  from f show ?thesis
  proof (elim disjE exE conjE)
    fix oh ob assume r: "findKeyByLabel (sdk_IsPrint k) p sh (keyLabel p c) w = (Inr oh, w1)"
      and ob: "labelled p V w (Digest c) oh ob"
    have oh: "V w oh = Some ob" using ob by (simp add: labelled_def)
    have len: "length (ob_value ob) = 32" "length (ob_id ob) = ke_NonceSize E"
      using assms(4) ob unfolding p11_objects_ok_def by blast+
    obtain as w2 where a: "px_GetAttributeValue (p_ctx p) sh oh [T_ID] w1 = (Inr as, w2)"
      using hrel_attrs [OF assms(2), of w1 oh sh "[T_ID]"] V1 oh by auto
    have "as = [CKA_ID (ob_id ob)]" using hsm_attrs [OF hsm_apiD(2) [OF assms(1)] a] V1 oh by simp
    moreover have V2: "V w2 oh = Some ob"
      using hsm_quietD(10) [OF hsm_apiD(1) [OF assms(1)], of sh oh "[T_ID]" w1] a V1 oh by simp
    ultimately show ?thesis
      using r a p11_mat_Some [OF assms(4) ob] len assms(3) hrel_decrypt [OF assms(2) V2, of "ob_id ob" ct _ sh]
      by (fastforce simp: P11_decrypt_def find_or_missing_def opens_def gcmDecrypt_def Let_def split: sum.splits)
  next
    assume "findKeyByLabel (sdk_IsPrint k) p sh (keyLabel p c) w = (Inl (Sentinel ErrPKCS11NotFound), w1)"
      "\<forall>h ob. \<not> labelled p V w (Digest c) h ob"
    then show ?thesis by (simp add: P11_decrypt_def find_or_missing_def p11_mat_None [THEN iffD2])
  qed
qed

lemma P11_delete_up:
  assumes "hsm_api E (p_ctx p) V" "hsm_reliable E (p_ctx p) V"
  shows "fst (P11_delete k p c sh w) = Inr ()"
proof -
  obtain w1 where V1: "V w1 = V w" and f:
    "(\<exists>oh ob. findKeyByLabel (sdk_IsPrint k) p sh (keyLabel p c) w = (Inr oh, w1) \<and> labelled p V w (Digest c) oh ob) \<or>
     findKeyByLabel (sdk_IsPrint k) p sh (keyLabel p c) w = (Inl (Sentinel ErrPKCS11NotFound), w1) \<and>
       (\<forall>h ob. \<not> labelled p V w (Digest c) h ob)"
    using findKeyByLabel_up [OF assms] by blast
  have "fst (destroyKey p sh oh w1) = None" if "labelled p V w (Digest c) oh ob" for oh ob
    using hrel_destroy [OF assms(2), of w1 oh sh] that V1
    by (cases "px_DestroyObject (p_ctx p) sh oh w1") (auto simp: destroyKey_def labelled_def)
  with f show ?thesis by (auto simp: P11_delete_def split: prod.splits option.splits) (metis fst_conv option.distinct(1))+
qed

interpretation p11_up: key_custody_up "P11_service k E p" p11_tag "p11_inv E p V" "\<lambda>s. p11_mat p V (ps_world s)" "opens E"
  "sdk_Compute k" "P11_draws k E p" "p11_okd k E p V" "p11_up E p V"
proof (unfold_locales, goal_cases)
  case (1 s pt)
  then have R: "hsm_reliable E (p_ctx p) V" and o: "checkOpen s = None" by (simp_all add: p11_up_def checkOpen_def)
  note I = p11_invD [OF 1(1)]
  obtain nonce w1 where n: "ke_Rand E (ke_NonceSize E) (ps_world s) = (Inr nonce, w1)" using hrel_rand [OF R] by blast
  have len: "length nonce = gcm_nonce_size" using I(1) n unfolding keyenv_ok_def by metis
  obtain sh w2 where ws: "\<And>f :: nat \<Rightarrow> 'a \<Rightarrow> (goerr + cid \<times> bytes) \<times> 'a.
      with_session p f w1 = (fst (f sh w2), P11_Close p sh (snd (f sh w2)))"
    using with_session_up [OF I(4) R, of w1] by blast
  from P11_generate_up [OF I(3) R len, of k pt sh w2] 1(2) o n ws show ?case
    by (auto simp: P11_GenerateAndEncrypt_def p11_up_def)
next
  case (2 s c m ct pt)
  then have R: "hsm_reliable E (p_ctx p) V" and o: "checkOpen s = None" by (simp_all add: p11_up_def checkOpen_def)
  note I = p11_invD [OF 2(1)]
  obtain sh w1 where V1: "V w1 = V (ps_world s)" and ws: "\<And>f :: nat \<Rightarrow> 'a \<Rightarrow> (goerr + bytes) \<times> 'a.
      with_session p f (ps_world s) = (fst (f sh w1), P11_Close p sh (snd (f sh w1)))"
    using with_session_up [OF I(4) R, of "ps_world s"] by blast
  from P11_decrypt_up [OF I(3) R I(2), where w = w1 and c = c and k = k and ct = ct and sh = sh] p11_same [OF V1] I(5) 2 o ws show ?case
    by (auto simp: P11_Decrypt_def p11_up_def)
next
  case (3 s c ct)
  then have R: "hsm_reliable E (p_ctx p) V" and o: "checkOpen s = None" by (simp_all add: p11_up_def checkOpen_def)
  note I = p11_invD [OF 3(1)]
  obtain sh w1 where V1: "V w1 = V (ps_world s)" and ws: "\<And>f :: nat \<Rightarrow> 'a \<Rightarrow> (goerr + bytes) \<times> 'a.
      with_session p f (ps_world s) = (fst (f sh w1), P11_Close p sh (snd (f sh w1)))"
    using with_session_up [OF I(4) R, of "ps_world s"] by blast
  from P11_decrypt_up [OF I(3) R I(2), where w = w1 and c = c and k = k and ct = ct and sh = sh] p11_same [OF V1] I(5) 3 o ws show ?case
    by (auto simp: P11_Decrypt_def p11_up_def)
next
  case (4 s c)
  then have R: "hsm_reliable E (p_ctx p) V" and o: "checkOpen s = None" by (simp_all add: p11_up_def checkOpen_def)
  note I = p11_invD [OF 4(1)]
  obtain sh w1 where ws: "\<And>f :: nat \<Rightarrow> 'a \<Rightarrow> (goerr + unit) \<times> 'a.
      with_session p f (ps_world s) = (fst (f sh w1), P11_Close p sh (snd (f sh w1)))"
    using with_session_up [OF I(4) R, of "ps_world s"] by blast
  from P11_delete_up [OF I(3) R, of k c sh w1] 4(2) o ws show ?case
    by (auto simp: P11_Delete_def p11_up_def)
qed

end
