(* ===== verification/Demo_Hsm.thy ===== *)
theory Demo_Hsm
  imports P11_Custody
begin

text \<open>
  A token that keeps its key objects in a list, and a sealed box in place of AES-GCM: an
  instance on which the hypotheses of the PKCS\#11 service's theorems hold. The sealed box
  serves the other key services too.
\<close>

section \<open>A sealed box\<close>

definition demo_open :: "bytes \<Rightarrow> bytes \<Rightarrow> bytes \<Rightarrow> bytes option" where
  "demo_open key nonce ct =
     (let n = length key + length nonce in if take n ct = key @ nonce then Some (drop n ct) else None)"

definition demo_env :: "'w keyenv" where
  "demo_env =
     \<lparr>ke_KeySize = 32, ke_NonceSize = 12,
      ke_Rand = (\<lambda>n w. (Inr (replicate n 7), w)),
      ke_Seal = (\<lambda>key nonce pt. key @ nonce @ pt),
      ke_Open = demo_open,
      ke_ParsePubKey = (\<lambda>b. if length b = 33 then Inr b else Inl (Foreign ''secp256k1'')),
      ke_EncryptForNode = (\<lambda>m pub w. (Inr (pub @ m), w))\<rparr>"

lemma demo_env_sel [simp]:
  "ke_KeySize demo_env = 32" "ke_NonceSize demo_env = 12" "ke_Rand demo_env n w = (Inr (replicate n 7), w)"
  "ke_Seal demo_env key nonce pt = key @ nonce @ pt" "ke_Open demo_env = demo_open"
  "ke_EncryptForNode demo_env m pub w = (Inr (pub @ m), w)"
  by (simp_all add: demo_env_def)

lemma demo_env_ok: "keyenv_ok demo_env"
  by (simp add: keyenv_ok_def gcm_nonce_size_def demo_open_def Let_def)

section \<open>A token\<close>

record hsm_world =
  hw_objs :: "p11_obj option list"
  hw_find :: string
  hw_op :: "bytes \<times> nat"

definition hsm_objs :: "hsm_world hsm_view" where
  "hsm_objs w h = (if h < length (hw_objs w) then hw_objs w ! h else None)"

fun label_of :: "p11_attr list \<Rightarrow> string" where
  "label_of [] = []"
| "label_of (a # as) = (case a of CKA_LABEL l \<Rightarrow> l | _ \<Rightarrow> label_of as)"

fun id_of :: "p11_attr list \<Rightarrow> bytes" where
  "id_of [] = []"
| "id_of (a # as) = (case a of CKA_ID n \<Rightarrow> n | _ \<Rightarrow> id_of as)"

definition demo_crypt ::
  "(bytes \<Rightarrow> bytes \<Rightarrow> bytes \<Rightarrow> goerr + bytes) \<Rightarrow> bytes \<Rightarrow> hsm_world \<Rightarrow> (goerr + bytes) \<times> hsm_world" where
  "demo_crypt f d w =
     (case hsm_objs w (snd (hw_op w)) of
        None \<Rightarrow> (Inl (Foreign ''no key''), w)
      | Some ob \<Rightarrow> (f (ob_value ob) (fst (hw_op w)) d, w))"

definition demo_find :: "nat \<Rightarrow> hsm_world \<Rightarrow> nat list" where
  "demo_find n w =
     take n (filter (\<lambda>h. case hsm_objs w h of None \<Rightarrow> False | Some ob \<Rightarrow> ob_label ob = hw_find w)
       [0..<length (hw_objs w)])"

definition demo_put :: "nat \<Rightarrow> p11_obj option \<Rightarrow> hsm_world \<Rightarrow> hsm_world" where
  "demo_put h x w = w\<lparr>hw_objs := (hw_objs w)[h := x]\<rparr>"

definition demo_hsm :: "hsm_world p11ctx" where
  "demo_hsm =
     \<lparr>px_Initialize = Pair None, px_Finalize = id, px_Destroy = id,
      px_GetSlotList = Pair (Inr [0, 1]),
      px_GetTokenInfo = (\<lambda>sid w. (Inr (if sid = 1 then ''artifacts       '' else []), w)),
      px_OpenSession = (\<lambda>_ w. (Inr 1, w)), px_Login = (\<lambda>_ _ w. (None, w)),
      px_Logout = (\<lambda>_ w. w), px_CloseSession = (\<lambda>_ w. w),
      px_FindObjectsInit = (\<lambda>_ t w. (None, w\<lparr>hw_find := label_of t\<rparr>)),
      px_FindObjects = (\<lambda>_ n w. (Inr (demo_find n w), w)),
      px_FindObjectsFinal = (\<lambda>_ w. w),
      px_GenerateKey = (\<lambda>_ t w. (Inr (length (hw_objs w)),
        w\<lparr>hw_objs := hw_objs w @ [Some \<lparr>ob_label = label_of t, ob_id = id_of t, ob_value = replicate 32 9\<rparr>]\<rparr>)),
      px_GetAttributeValue = (\<lambda>_ oh ts w.
        (case hsm_objs w oh of None \<Rightarrow> Inl (Pkcs11Error CKR_OBJECT_HANDLE_INVALID) | Some ob \<Rightarrow> Inr (map (attr_of ob) ts), w)),
      px_SetAttributeValue = (\<lambda>_ oh as w.
        (case hsm_objs w oh of None \<Rightarrow> (Some (Pkcs11Error CKR_OBJECT_HANDLE_INVALID), w)
         | Some ob \<Rightarrow> (None, demo_put oh (Some (ob\<lparr>ob_label := label_of as\<rparr>)) w))),
      px_EncryptInit = (\<lambda>_ nonce oh w. (None, w\<lparr>hw_op := (nonce, oh)\<rparr>)),
      px_Encrypt = (\<lambda>_. demo_crypt (aesGCMSeal (demo_env :: hsm_world keyenv))),
      px_DecryptInit = (\<lambda>_ nonce oh w. (None, w\<lparr>hw_op := (nonce, oh)\<rparr>)),
      px_Decrypt = (\<lambda>_. demo_crypt (aesGCMOpen (demo_env :: hsm_world keyenv))),
      px_DestroyObject = (\<lambda>_ oh w.
        (case hsm_objs w oh of None \<Rightarrow> (Some (Pkcs11Error CKR_OBJECT_HANDLE_INVALID), w)
         | Some ob \<Rightarrow> (None, demo_put oh None w)))\<rparr>"

lemma hsm_objs_frame [simp]:
  "hsm_objs (w\<lparr>hw_find := l\<rparr>) = hsm_objs w" "hsm_objs (w\<lparr>hw_op := x\<rparr>) = hsm_objs w"
  by (simp_all add: hsm_objs_def fun_eq_iff)

lemma hsm_objs_put: "hsm_objs w oh = Some ob \<Longrightarrow> hsm_objs (demo_put oh x w) = (hsm_objs w)(oh := x)"
  by (auto simp: hsm_objs_def demo_put_def fun_eq_iff split: if_splits)

lemma hsm_objs_append:
  "hsm_objs (w\<lparr>hw_objs := hw_objs w @ [x]\<rparr>) = (hsm_objs w)(length (hw_objs w) := x)"
  by (auto simp: hsm_objs_def fun_eq_iff nth_append)

lemma snd_demo_crypt [simp]: "snd (demo_crypt f d w) = w"
  by (simp add: demo_crypt_def split: option.splits)

lemma demo_find_view:
  "case demo_find 1 w of
     [] \<Rightarrow> \<forall>h ob. hsm_objs w h = Some ob \<longrightarrow> ob_label ob \<noteq> hw_find w
   | h # _ \<Rightarrow> \<exists>ob. hsm_objs w h = Some ob \<and> ob_label ob = hw_find w"
proof -
  let ?P = "\<lambda>h. case hsm_objs w h of None \<Rightarrow> False | Some ob \<Rightarrow> ob_label ob = hw_find w"
  have in_range: "h < length (hw_objs w)" if "hsm_objs w h = Some ob" for h ob
    using that by (simp add: hsm_objs_def split: if_splits)
  show ?thesis
  proof (cases "filter ?P [0..<length (hw_objs w)]")
    case Nil
    then have "\<forall>h < length (hw_objs w). \<not> ?P h" by (simp add: filter_empty_conv)
    with Nil in_range show ?thesis by (fastforce simp: demo_find_def)
  next
    case (Cons h hs)
    then have "?P h" by (metis (no_types, lifting) filter_eq_ConsD)
    then obtain ob where "hsm_objs w h = Some ob" "ob_label ob = hw_find w" by (auto split: option.splits)
    with Cons show ?thesis by (simp add: demo_find_def)
  qed
qed

lemma demo_hsm_quiet: "hsm_quiet demo_env demo_hsm hsm_objs"
  by (simp add: hsm_quiet_def demo_hsm_def)

lemma demo_hsm_objects: "hsm_objects demo_hsm hsm_objs"
  unfolding hsm_objects_def
proof (intro conjI allI impI, goal_cases)
  case (1 sh label w w1 hs w2)
  then have w1: "hsm_objs w1 = hsm_objs w" "hw_find w1 = label" "hs = demo_find 1 w1"
    by (auto simp: demo_hsm_def find_template_def)
  show ?case using demo_find_view [of w1] unfolding w1 .
next
  case (2 sh oh ts w as w1)
  then show ?case by (auto simp: demo_hsm_def split: option.splits)
next
  case (3 sh label nonce w oh w1)
  then show ?case by (auto simp: demo_hsm_def hsm_objs_def)
next
  case (4 sh label nonce w oh w1)
  then show ?case
    by (intro exI [of _ "replicate 32 9"]) (auto simp: demo_hsm_def key_template_def hsm_objs_append)
next
  case (5 sh label nonce w e w1 h)
  then show ?case by (simp add: demo_hsm_def)
next
  case (6 sh oh label w r w1)
  then show ?case by (auto simp: demo_hsm_def hsm_objs_put split: option.splits)
next
  case (7 sh oh w r w1)
  then show ?case by (auto simp: demo_hsm_def hsm_objs_put split: option.splits)
qed

lemma demo_hsm_api: "hsm_api demo_env demo_hsm hsm_objs"
proof -
  have "hsm_crypt demo_env demo_hsm hsm_objs"
    by (auto simp: hsm_crypt_def demo_hsm_def demo_crypt_def split: option.splits)
  moreover have "hsm_foreign demo_hsm" by (auto simp: hsm_foreign_def demo_hsm_def split: option.splits)
  ultimately show ?thesis using demo_hsm_quiet demo_hsm_objects by (simp add: hsm_api_def)
qed

lemma demo_hsm_reliable: "hsm_reliable demo_env demo_hsm hsm_objs"
  by (auto simp: hsm_reliable_def demo_hsm_def demo_crypt_def aesGCMSeal_def aes_key_ok_def split: option.splits)

definition demo_p11 :: "hsm_world PKCS11" where
  "demo_p11 =
     \<lparr>p_cfg = \<lparr>pc_ModulePath = ''softhsm'', pc_TokenLabel = ''artifacts'', pc_Pin = ''1234'', pc_KeyLabelPrefix = ''artifact-''\<rparr>,
      p_ctx = demo_hsm, p_slotID = 1\<rparr>"

definition demo_token :: "hsm_world p11_state" where
  "demo_token = \<lparr>ps_open = True, ps_world = \<lparr>hw_objs = [], hw_find = [], hw_op = ([], 0)\<rparr>\<rparr>"

lemma demo_p11_inv: "p11_inv demo_env demo_p11 hsm_objs demo_token"
  by (simp add: p11_inv_def demo_env_ok demo_p11_def demo_hsm_api p11_objects_ok_def labelled_def hsm_objs_def demo_token_def)

lemma demo_p11_up: "p11_up demo_env demo_p11 hsm_objs demo_token"
  by (simp add: p11_up_def demo_p11_def demo_hsm_reliable demo_token_def)

end
