(* ===== verification/Demo_Gcp.thy ===== *)
theory Demo_Gcp
  imports Gcp_Custody Demo_Hsm Http_Fakes
begin

text \<open>
  Cloud KMS and Firestore as the fakes of \<open>keyservice/gcpkms_test.go\<close> answer: an instance on
  which the hypotheses of the GCP key service's theorems hold.
\<close>

record gcp_world =
  gw_docs :: "string \<Rightarrow> bytes option"

definition demo_kek :: bytes where "demo_kek = replicate 32 5"
definition demo_nonce :: bytes where "demo_nonce = replicate 12 3"

definition fake_encrypt :: "bytes \<Rightarrow> bytes" where
  "fake_encrypt pt = demo_nonce @ demo_kek @ demo_nonce @ pt"

definition fake_decrypt :: "bytes \<Rightarrow> bytes option" where
  "fake_decrypt ct = (if length ct < 12 then None else demo_open demo_kek (take 12 ct) (drop 12 ct))"

text \<open>A string member of a request body, base64-decoded.\<close>

definition request_field :: "string \<Rightarrow> json \<Rightarrow> bytes option" where
  "request_field name j =
     Option.bind (json_members j) (\<lambda>obj. Option.bind (decode_str name obj) (b64_decode b64_std True))"

definition json_body :: "json \<Rightarrow> bytes" where
  "json_body j = str_bytes (json_encode_line j)"

definition fakeKMS_ServeHTTP :: "string \<Rightarrow> url \<Rightarrow> bytes \<Rightarrow> gcp_world \<Rightarrow> http_response \<times> gcp_world" where
  "fakeKMS_ServeHTTP m u body w =
     (let req = json_decode_prefix (bytes_str body) in
      if m = ''POST'' \<and> has_suffix (u_path u) '':encrypt'' then
        (case Option.bind req (request_field ''plaintext'') of
           None \<Rightarrow> (respond 400 [], w)
         | Some pt \<Rightarrow> (respond 200 (json_body (JObj [(''ciphertext'', JStr (b64_encode b64_std True (fake_encrypt pt)))])), w))
      else if m = ''POST'' \<and> has_suffix (u_path u) '':decrypt'' then
        (case Option.bind req (request_field ''ciphertext'') of
           None \<Rightarrow> (respond 400 [], w)
         | Some ct \<Rightarrow>
             (case fake_decrypt ct of
                None \<Rightarrow> (respond 400 [], w)
              | Some pt \<Rightarrow> (respond 200 (json_body (JObj [(''plaintext'', JStr (b64_encode b64_std True pt))])), w)))
      else (respond 404 [], w))"

definition fakeFirestore_ServeHTTP :: "string \<Rightarrow> url \<Rightarrow> bytes \<Rightarrow> gcp_world \<Rightarrow> http_response \<times> gcp_world" where
  "fakeFirestore_ServeHTTP m u body w =
     (let path = trim_prefix (u_path u) ''/v1/'' in
      if m = ''POST'' then
        (let docID = query_get (u_rawquery u) ''documentId''; fullName = path @ ''/'' @ docID in
         if docID = [] then (respond 400 [], w)
         else if gw_docs w fullName \<noteq> None then (respond 409 [], w)
         else case Option.bind (Option.bind (json_decode_prefix (bytes_str body)) wrapped_field) (b64_decode b64_std True) of
                None \<Rightarrow> (respond 400 [], w)
              | Some wr \<Rightarrow> (respond 200 (str_bytes (json_encode (JObj []))), w\<lparr>gw_docs := (gw_docs w)(fullName := Some wr)\<rparr>))
      else if m = ''GET'' then
        (case gw_docs w path of
           None \<Rightarrow> (respond 404 [], w)
         | Some wr \<Rightarrow> (respond 200 (json_body (doc_body wr)), w))
      else if m = ''DELETE'' then
        (case gw_docs w path of
           None \<Rightarrow> (respond 404 [], w)
         | Some wr \<Rightarrow> (respond 200 [], w\<lparr>gw_docs := (gw_docs w)(path := None)\<rparr>))
      else (respond 404 [], w))"

definition gcp_net :: "gcp_world net" where
  "gcp_net =
     \<lparr>net_do = (\<lambda>r w. apfst Inr ((if u_host (rq_url r) = ''kms'' then fakeKMS_ServeHTTP else fakeFirestore_ServeHTTP)
        (rq_method r) (rq_url r) (case rq_body r of None \<Rightarrow> [] | Some b \<Rightarrow> b) w)),
      net_now = (\<lambda>w. 0)\<rparr>"

definition demo_gcp :: "gcp_world GCPKMS" where
  "demo_gcp =
     \<lparr>gk_cfg = \<lparr>gk_KEKResourceName = ''projects/p/locations/l/keyRings/r/cryptoKeys/k'', gk_FirestoreProjectID = ''p'',
        gk_FirestoreDatabase = ''db'', gk_FirestoreCollection = ''keys'', gk_KMSEndpoint = ''http://kms'',
        gk_FirestoreEndpoint = ''http://fs''\<rparr>,
      gk_client = gcp_net\<rparr>"

definition demo_parent :: string where
  "demo_parent = ''projects/p/databases/db/documents/keys''"

definition demo_gcp_view :: "gcp_world gcp_view" where
  "demo_gcp_view = \<lparr>gv_doc = (\<lambda>w x. gw_docs w (demo_parent @ ''/'' @ x)), gv_open = (\<lambda>w. fake_decrypt)\<rparr>"

section \<open>What a request does\<close>

lemma fake_decrypt_encrypt [simp]: "fake_decrypt (fake_encrypt pt) = Some pt"
  by (simp add: fake_decrypt_def fake_encrypt_def demo_open_def demo_kek_def demo_nonce_def Let_def)

lemma demo_gcp_do:
  assumes "parse_url u = Some r"
  shows "GCP_do demo_gcp m u b w =
    apfst Inr ((if u_host r = ''kms'' then fakeKMS_ServeHTTP else fakeFirestore_ServeHTTP) m r
      (case b of None \<Rightarrow> [] | Some j \<Rightarrow> str_bytes (json_encode j)) w)"
  using assms
  by (cases b) (auto simp: GCP_do_def ks_do_def new_request_def demo_gcp_def gcp_net_def apfst_def map_prod_def
      split: prod.splits)

lemma base_kms: "base_parts ''http://kms'' ''http'' ''kms'' ''kms''"
  by code_simp

lemma base_fs: "base_parts ''http://fs'' ''http'' ''fs'' ''fs''"
  by code_simp

definition url_path_ok :: "string \<Rightarrow> bool" where
  "url_path_ok p = (has_prefix p ''/'' \<and> list_all (\<lambda>c. plain_url_char c \<and> c \<noteq> CHR ''%'') p)"

lemma url_path_ok_append: "p \<noteq> [] \<Longrightarrow> url_path_ok (p @ q) \<longleftrightarrow> url_path_ok p \<and> list_all (\<lambda>c. plain_url_char c \<and> c \<noteq> CHR ''%'') q"
  by (cases p) (auto simp: url_path_ok_def has_prefix_def)

lemma hex_plain: "list_all (\<lambda>c. plain_url_char c \<and> c \<noteq> CHR ''%'') (hex_encode d)"
proof -
  have "list_all (\<lambda>c. plain_url_char c \<and> c \<noteq> CHR ''%'') hex_chars" by code_simp
  with set_hex_encode [of d] show ?thesis by (auto simp: list_all_iff)
qed

lemma parse_demo_url:
  assumes "base_parts b ''http'' host host" "url_path_ok p" "list_all plain_url_char q"
  shows "parse_url (b @ p @ (if hasq then CHR ''?'' # q else [])) =
    Some \<lparr>u_scheme = ''http'', u_host = host, u_path = p, u_rawpath = p, u_rawquery = (if hasq then q else [])\<rparr>"
proof (rule parse_url_base [OF assms(1)])
  show "has_prefix p ''/''" "list_all plain_url_char p" using assms(2) by (auto simp: url_path_ok_def list_all_iff)
  show "unescape False p = Some p" by (rule unescape_plain) (use assms(2) in \<open>auto simp: url_path_ok_def list_all_iff\<close>)
  show "CHR ''#'' \<notin> set q" "\<not> list_ex is_ctl q" using plain_url_string [OF assms(3)] by blast+
qed

lemma parse_kms:
  assumes "url_path_ok p"
  shows "parse_url (''http://kms'' @ p) =
    Some \<lparr>u_scheme = ''http'', u_host = ''kms'', u_path = p, u_rawpath = p, u_rawquery = []\<rparr>"
  using parse_demo_url [OF base_kms assms, of "[]" False] by simp

lemma demo_parent_ok: "url_path_ok (''/v1/'' @ demo_parent)" "url_path_ok (''/v1/'' @ demo_parent @ ''/'')"
  by code_simp+

lemma parse_doc:
  "parse_url (doc_url demo_gcp (docID c)) =
     Some \<lparr>u_scheme = ''http'', u_host = ''fs'', u_path = ''/v1/'' @ demo_parent @ ''/'' @ docID c,
       u_rawpath = ''/v1/'' @ demo_parent @ ''/'' @ docID c, u_rawquery = []\<rparr>"
proof -
  have "url_path_ok (''/v1/'' @ demo_parent @ ''/'' @ docID c)"
    using url_path_ok_append [of "''/v1/'' @ demo_parent @ ''/''" "docID c"] demo_parent_ok(2) hex_plain [of "Digest c"]
    by (simp add: docID_def)
  from parse_demo_url [OF base_fs this, of "[]" False] show ?thesis
    by (simp add: doc_url_def demo_gcp_def firestoreParentPath_def demo_parent_def)
qed

lemma parse_create:
  "parse_url (create_doc_url demo_gcp (docID c)) =
     Some \<lparr>u_scheme = ''http'', u_host = ''fs'', u_path = ''/v1/'' @ demo_parent, u_rawpath = ''/v1/'' @ demo_parent,
       u_rawquery = ''documentId='' @ docID c\<rparr>"
proof -
  have "list_all plain_url_char (''documentId='' @ docID c)"
  proof -
    have "list_all plain_url_char ''documentId=''" by code_simp
    with hex_plain [of "Digest c"] show ?thesis by (auto simp: docID_def list_all_iff)
  qed
  from parse_demo_url [OF base_fs demo_parent_ok(1) this, of True] show ?thesis
    by (simp add: create_doc_url_def demo_gcp_def firestoreParentPath_def demo_parent_def)
qed

lemma query_get_documentId: "query_get (''documentId='' @ docID c) ''documentId'' = docID c"
proof -
  have hx: "x \<in> set hex_chars" if "x \<in> set (docID c)" for x using set_hex_encode that by (auto simp: docID_def)
  have no: "CHR ''&'' \<notin> set (docID c)" "CHR '';'' \<notin> set (docID c)" "CHR ''%'' \<notin> set (docID c)" "CHR ''+'' \<notin> set (docID c)"
    using hx by (auto simp: hex_chars_def)
  have un: "unescape True x = Some x" if "CHR ''%'' \<notin> set x" "CHR ''+'' \<notin> set x" for x
    using that by (induction x) auto
  have "cut_str ''='' (''documentId='' @ docID c) = Some (''documentId'', docID c)"
    using cut_str_first1 [of "CHR ''=''" "''documentId''" "docID c"] by simp
  moreover have "split_byte CHR ''&'' (''documentId='' @ docID c) = [''documentId='' @ docID c]"
    using no by (intro split_byte_no_sep) simp
  ultimately have "query_pairs (''documentId='' @ docID c) = [(''documentId'', docID c)]"
    using no un [of "docID c"] un [of "''documentId''"] by (simp add: query_pairs_def List.map_filter_def)
  then show ?thesis by (simp add: query_get_def)
qed

lemma decode_json_body [simp]:
  assumes "json_plain j" "json_depth j \<le> 10000"
  shows "decode_body (respond st (json_body j)) = Some j"
  using json_decode_prefix_encode [OF assms, of "[newline]"]
  by (simp add: decode_body_def json_body_def json_encode_line_def)

lemma decode_request [simp]:
  assumes "json_plain j" "json_depth j \<le> 10000"
  shows "json_decode_prefix (json_encode j) = Some j"
  using json_decode_prefix_encode [OF assms, of "[]"] by simp

lemma one_field [simp]:
  assumes "ascii n"
  shows "json_plain (JObj [(n, JStr (b64_encode b64_std True b))])" "json_depth (JObj [(n, JStr (b64_encode b64_std True b))]) \<le> 10000"
  using assms by simp_all

lemma field_names [simp]:
  "ascii ''plaintext''" "ascii ''ciphertext''" "ascii ''fields''" "ascii ''wrapped''" "ascii ''bytesValue''"
  by code_simp+

lemma doc_body_plain [simp]: "json_plain (doc_body wr)" "json_depth (doc_body wr) \<le> 10000"
  by (simp_all add: doc_body_def)

lemma kms_body_plain [simp]:
  assumes "ascii n"
  shows "json_plain (kms_body n b)" "json_depth (kms_body n b) \<le> 10000"
  using assms by (simp_all add: kms_body_def)

lemma request_field_kms [simp]: "request_field n (kms_body n b) = Some b"
  by (simp add: kms_body_def request_field_def json_members_def decode_str_def b64_decode_encode [OF b64_std_ok])

lemma wrapped_field_doc [simp]: "wrapped_field (doc_body wr) = Some (b64_encode b64_std True wr)"
  by (simp add: wrapped_field_def doc_body_def json_members_def decode_obj_def decode_str_def)

lemma demo_encrypt:
  "GCP_do demo_gcp ''POST'' (kms_url demo_gcp ''encrypt'') (Some (kms_body ''plaintext'' pt)) w =
     (Inr (respond 200 (json_body (JObj [(''ciphertext'', JStr (b64_encode b64_std True (fake_encrypt pt)))]))), w)"
proof -
  have p: "url_path_ok ''/v1/projects/p/locations/l/keyRings/r/cryptoKeys/k:encrypt''" by code_simp
  have s: "has_suffix ''/v1/projects/p/locations/l/keyRings/r/cryptoKeys/k:encrypt'' '':encrypt''" by code_simp
  from parse_kms [OF p] have "parse_url (kms_url demo_gcp ''encrypt'') = Some \<lparr>u_scheme = ''http'', u_host = ''kms'',
      u_path = ''/v1/projects/p/locations/l/keyRings/r/cryptoKeys/k:encrypt'',
      u_rawpath = ''/v1/projects/p/locations/l/keyRings/r/cryptoKeys/k:encrypt'', u_rawquery = []\<rparr>"
    by (simp add: kms_url_def demo_gcp_def)
  from demo_gcp_do [OF this, of "''POST''" "Some (kms_body ''plaintext'' pt)" w] s show ?thesis
    by (simp add: fakeKMS_ServeHTTP_def)
qed

lemma demo_decrypt:
  "GCP_do demo_gcp ''POST'' (kms_url demo_gcp ''decrypt'') (Some (kms_body ''ciphertext'' ct)) w =
     (Inr (case fake_decrypt ct of None \<Rightarrow> respond 400 []
           | Some pt \<Rightarrow> respond 200 (json_body (JObj [(''plaintext'', JStr (b64_encode b64_std True pt))]))), w)"
proof -
  have p: "url_path_ok ''/v1/projects/p/locations/l/keyRings/r/cryptoKeys/k:decrypt''" by code_simp
  have s: "has_suffix ''/v1/projects/p/locations/l/keyRings/r/cryptoKeys/k:decrypt'' '':decrypt''"
    "\<not> has_suffix ''/v1/projects/p/locations/l/keyRings/r/cryptoKeys/k:decrypt'' '':encrypt''" by code_simp+
  from parse_kms [OF p] have "parse_url (kms_url demo_gcp ''decrypt'') = Some \<lparr>u_scheme = ''http'', u_host = ''kms'',
      u_path = ''/v1/projects/p/locations/l/keyRings/r/cryptoKeys/k:decrypt'',
      u_rawpath = ''/v1/projects/p/locations/l/keyRings/r/cryptoKeys/k:decrypt'', u_rawquery = []\<rparr>"
    by (simp add: kms_url_def demo_gcp_def)
  from demo_gcp_do [OF this, of "''POST''" "Some (kms_body ''ciphertext'' ct)" w] s show ?thesis
    by (simp add: fakeKMS_ServeHTTP_def split: option.splits)
qed

lemma trim_v1 [simp]: "trim_prefix (''/v1/'' @ p) ''/v1/'' = p"
  by (simp add: trim_prefix_def has_prefix_def)

lemma demo_create:
  "GCP_do demo_gcp ''POST'' (create_doc_url demo_gcp (docID c)) (Some (doc_body wr)) w =
     (if docID c = [] then (Inr (respond 400 []), w)
      else if gw_docs w (demo_parent @ ''/'' @ docID c) \<noteq> None then (Inr (respond 409 []), w)
      else (Inr (respond 200 (str_bytes (json_encode (JObj [])))),
            w\<lparr>gw_docs := (gw_docs w)(demo_parent @ ''/'' @ docID c := Some wr)\<rparr>))"
  unfolding demo_gcp_do [OF parse_create]
  by (simp add: fakeFirestore_ServeHTTP_def Let_def query_get_documentId [simplified] trim_v1 [simplified]
      b64_decode_encode [OF b64_std_ok])

lemma demo_get:
  "GCP_do demo_gcp ''GET'' (doc_url demo_gcp (docID c)) None w =
     (Inr (case gw_docs w (demo_parent @ ''/'' @ docID c) of None \<Rightarrow> respond 404 []
           | Some wr \<Rightarrow> respond 200 (json_body (doc_body wr))), w)"
  unfolding demo_gcp_do [OF parse_doc]
  by (simp add: fakeFirestore_ServeHTTP_def Let_def trim_v1 [simplified] split: option.splits)

lemma demo_delete:
  "GCP_do demo_gcp ''DELETE'' (doc_url demo_gcp (docID c)) None w =
     (case gw_docs w (demo_parent @ ''/'' @ docID c) of
        None \<Rightarrow> (Inr (respond 404 []), w)
      | Some wr \<Rightarrow> (Inr (respond 200 []), w\<lparr>gw_docs := (gw_docs w)(demo_parent @ ''/'' @ docID c := None)\<rparr>))"
  unfolding demo_gcp_do [OF parse_doc]
  by (simp add: fakeFirestore_ServeHTTP_def Let_def trim_v1 [simplified] split: option.splits)

section \<open>The hypotheses hold\<close>

lemma body_field_json [simp]:
  assumes "ascii n"
  shows "body_field n (respond st (json_body (JObj [(n, JStr (b64_encode b64_std True b))]))) = Some (b64_encode b64_std True b)"
  using assms by (simp add: body_field_def json_members_def decode_str_def)

lemma demo_view_sel [simp]:
  "gv_doc demo_gcp_view w x = gw_docs w (demo_parent @ ''/'' @ x)" "gv_open demo_gcp_view w = fake_decrypt"
  by (simp_all add: demo_gcp_view_def)

lemma demo_kms_api: "kms_api demo_gcp demo_gcp_view"
  unfolding kms_api_def demo_encrypt demo_decrypt
  by (auto simp: gcp_same_def b64_decode_encode [OF b64_std_ok] split: option.splits)

lemma demo_firestore_api: "firestore_api demo_gcp demo_gcp_view"
  unfolding firestore_api_def demo_create demo_get demo_delete
  by (intro conjI allI impI)
    (auto simp: gcp_same_def status_in_def b64_decode_encode [OF b64_std_ok] split: option.splits if_splits)

lemma demo_gcp_api: "gcp_api demo_env demo_gcp demo_gcp_view"
  by (simp add: gcp_api_def demo_kms_api demo_firestore_api gcp_same_def)

lemma demo_gcp_reliable: "gcp_reliable demo_env demo_gcp demo_gcp_view"
  unfolding gcp_reliable_def demo_encrypt demo_decrypt demo_create demo_get demo_delete
  by (intro conjI allI impI)
    (auto simp: status_in_def b64_decode_encode [OF b64_std_ok] fake_encrypt_def demo_kek_def demo_nonce_def
      split: option.splits)

definition demo_gcp_state :: "gcp_world ks_state" where
  "demo_gcp_state = \<lparr>ks_cache = {}, ks_world = \<lparr>gw_docs = (\<lambda>_. None)\<rparr>\<rparr>"

lemma demo_gcp_inv: "gcp_inv demo_env demo_gcp demo_gcp_view s"
  by (simp add: gcp_inv_def demo_env_ok demo_gcp_api)

lemma demo_gcp_up:
  "(\<And>b. Digest (sdk_Compute k b) \<noteq> []) \<Longrightarrow> gcp_up k demo_env demo_gcp demo_gcp_view demo_gcp_state"
  by (simp add: gcp_up_def demo_gcp_reliable gcp_consistent_def demo_gcp_state_def)

end
