(* ===== verification/Demo_Vault.thy ===== *)
theory Demo_Vault
  imports Vault_Custody Demo_Gcp
begin

text \<open>
  A Vault server with the transit and kv-v2 endpoints the key service uses: an instance on
  which the hypotheses of the Vault service's theorems hold.
\<close>

record vault_world =
  vw_keys :: "string \<Rightarrow> nat option"
  vw_kv :: "string \<Rightarrow> bytes option"

definition blob :: "bytes \<Rightarrow> string" where
  "blob b = ''vault:v1:'' @ b64_encode b64_std True b"

definition parse_blob :: "string \<Rightarrow> bytes option" where
  "parse_blob s =
     (case b64_decode b64_std True (drop 9 s) of
        None \<Rightarrow> None
      | Some b \<Rightarrow> if s = blob b then Some b else None)"

definition data_json :: "string \<Rightarrow> string \<Rightarrow> json" where
  "data_json name v = JObj [(''data'', JObj [(name, JStr v)])]"

definition str_member :: "string \<Rightarrow> json \<Rightarrow> string option" where
  "str_member name j = Option.bind (json_members j) (decode_str name)"

definition serve_keys :: "string \<Rightarrow> string \<Rightarrow> vault_world \<Rightarrow> http_response \<times> vault_world" where
  "serve_keys m name w =
     (if has_suffix name ''/config'' then (respond 204 [], w)
      else if m = ''POST'' then
        (respond 204 [], if vw_keys w name = None then w\<lparr>vw_keys := (vw_keys w)(name := Some 0)\<rparr> else w)
      else if m = ''GET'' then (respond (if vw_keys w name = None then 404 else 200) [], w)
      else (respond 204 [], w\<lparr>vw_keys := (vw_keys w)(name := None)\<rparr>))"

definition serve_encrypt :: "string \<Rightarrow> json \<Rightarrow> vault_world \<Rightarrow> http_response" where
  "serve_encrypt name j w =
     (case request_field ''plaintext'' j of
        None \<Rightarrow> respond 400 []
      | Some b \<Rightarrow>
          (if vw_keys w name = None then respond 404 []
           else respond 200 (json_body (data_json ''ciphertext'' (blob b)))))"

text \<open>Only a canonical request is decrypted: its text is that of the blob it carries.\<close>

definition serve_decrypt :: "string \<Rightarrow> json \<Rightarrow> bytes \<Rightarrow> vault_world \<Rightarrow> http_response" where
  "serve_decrypt name j body w =
     (case Option.bind (str_member ''ciphertext'' j) parse_blob of
        None \<Rightarrow> respond 400 []
      | Some b \<Rightarrow>
          (if vw_keys w name = None then respond 404 []
           else if bytes_str body \<noteq> json_encode (decrypt_body (blob b)) then respond 400 []
           else respond 200 (json_body (data_json ''plaintext'' (b64_encode b64_std True b)))))"

definition kv_json :: "bytes \<Rightarrow> json" where
  "kv_json b =
     JObj [(''data'', JObj [(''data'', JObj [(''wrapped'', JStr (blob b))]),
                            (''metadata'', JObj [(''deletion_time'', JStr [])])])]"

definition serve_kv :: "string \<Rightarrow> string \<Rightarrow> json option \<Rightarrow> vault_world \<Rightarrow> http_response \<times> vault_world" where
  "serve_kv m name req w =
     (if m = ''GET'' then
        (case vw_kv w name of None \<Rightarrow> (respond 404 [], w) | Some b \<Rightarrow> (respond 200 (json_body (kv_json b)), w))
      else
        (case Option.bind (Option.bind (Option.bind req json_members) (decode_obj ''data''))
                (\<lambda>d. Option.bind (decode_str ''wrapped'' d) parse_blob) of
           None \<Rightarrow> (respond 400 [], w)
         | Some b \<Rightarrow> (respond 200 (json_body (JObj [])), w\<lparr>vw_kv := (vw_kv w)(name := Some b)\<rparr>)))"

definition vault_serve :: "string \<Rightarrow> string \<Rightarrow> bytes \<Rightarrow> vault_world \<Rightarrow> http_response \<times> vault_world" where
  "vault_serve m path body w =
     (let req = json_decode_prefix (bytes_str body); j = (case req of None \<Rightarrow> JNull | Some j \<Rightarrow> j) in
      if has_prefix path ''/v1/transit/keys/'' then serve_keys m (trim_prefix path ''/v1/transit/keys/'') w
      else if has_prefix path ''/v1/transit/encrypt/''
      then (serve_encrypt (trim_prefix path ''/v1/transit/encrypt/'') j w, w)
      else if has_prefix path ''/v1/transit/decrypt/''
      then (serve_decrypt (trim_prefix path ''/v1/transit/decrypt/'') j body w, w)
      else if has_prefix path ''/v1/secret/data/artifact-keys/''
      then serve_kv m (trim_prefix path ''/v1/secret/data/artifact-keys/'') req w
      else if has_prefix path ''/v1/secret/metadata/artifact-keys/''
      then (respond 204 [], w\<lparr>vw_kv := (vw_kv w)(trim_prefix path ''/v1/secret/metadata/artifact-keys/'' := None)\<rparr>)
      else (respond 404 [], w))"

definition vault_net :: "vault_world net" where
  "vault_net =
     \<lparr>net_do = (\<lambda>r w. apfst Inr (vault_serve (rq_method r) (u_path (rq_url r))
        (case rq_body r of None \<Rightarrow> [] | Some b \<Rightarrow> b) w)),
      net_now = (\<lambda>w. 0)\<rparr>"

definition demo_vault :: "vault_world VaultTransit" where
  "demo_vault =
     \<lparr>v_cfg = \<lparr>vt_Endpoint = ''http://vault'', vt_Token = ''root'', vt_TransitMount = ''transit'',
        vt_KVMount = ''secret'', vt_KVNamespace = ''artifact-keys''\<rparr>, v_client = vault_net\<rparr>"

definition demo_vault_view :: "vault_world vault_view" where
  "demo_vault_view =
     \<lparr>vv_keys = vw_keys, vv_kv = (\<lambda>w x. map_option blob (vw_kv w x)), vv_open = (\<lambda>_. parse_blob)\<rparr>"

section \<open>What a request does\<close>

lemma parse_blob_blob [simp]: "parse_blob (blob b) = Some b"
  by (simp add: parse_blob_def blob_def b64_decode_encode [OF b64_std_ok])

lemma blob_not_Nil: "blob b \<noteq> []"
  by (simp add: blob_def)

lemma parse_blob_Some: "parse_blob s = Some b \<longleftrightarrow> s = blob b"
proof
  assume "parse_blob s = Some b"
  then show "s = blob b" by (auto simp: parse_blob_def split: option.splits if_splits)
qed simp

lemma blob_plain: "c \<in> set (blob b) \<Longrightarrow> code c < 128 \<and> c \<noteq> backslash \<and> json_escape_ascii c = [c]"
proof -
  have v: "list_all (\<lambda>c. code c < 128 \<and> c \<noteq> backslash \<and> json_escape_ascii c = [c]) (''vault:v1:'' @ b64_std @ [b64_pad])"
    by code_simp
  assume "c \<in> set (blob b)"
  then have "c \<in> set (''vault:v1:'' @ b64_std @ [b64_pad])"
    using set_b64_encode [OF b64_std_ok] unfolding blob_def by fastforce
  with v show ?thesis unfolding list_all_iff by blast
qed

lemma ascii_blob [simp]: "ascii (blob b)"
  using blob_plain by (simp add: ascii_def list_all_iff)

lemma json_escape_plain: "(\<And>c. c \<in> set s \<Longrightarrow> code c < 128 \<and> json_escape_ascii c = [c]) \<Longrightarrow> json_escape s = s"
  by (induction s) simp_all

lemma json_escape_onto_plain:
  "(\<And>c. c \<in> set (json_escape t) \<Longrightarrow> code c < 128 \<and> c \<noteq> backslash) \<Longrightarrow> json_escape t = t"
proof (induction t rule: json_escape.induct)
  case (2 c s)
  show ?case
  proof (cases "code c < 128")
    case True
    have "json_escape_ascii c = [c]"
      using "2.prems" True by (cases c rule: json_escape_ascii_cases) fastforce+
    with 2 True show ?thesis by simp
  next
    case False
    have "c \<in> set (json_escape (c # s)) \<or> backslash \<in> set (json_escape (c # s))"
      using False by (cases "rune_width (c # s)") (simp_all add: Let_def)
    with False "2.prems" [of c] "2.prems" [of backslash] show ?thesis by blast
  qed
qed simp

lemma decrypt_request_inject:
  assumes "json_encode (decrypt_body ct) = json_encode (decrypt_body (blob b))"
  shows "ct = blob b"
proof -
  have e: "json_escape (blob b) = blob b" using blob_plain by (intro json_escape_plain) blast
  have "json_escape ct = json_escape (blob b)"
    using assms by (simp add: decrypt_body_def json_quote_def)
  with e have "json_escape ct = blob b" by simp
  moreover from this have "json_escape ct = ct" using blob_plain by (intro json_escape_onto_plain) fastforce
  ultimately show ?thesis by simp
qed

lemma base_vault: "base_parts ''http://vault'' ''http'' ''vault'' ''vault''"
  by code_simp

lemma demo_vault_do:
  assumes "url_path_ok p"
  shows "Vault_do demo_vault m (''http://vault'' @ p) b w =
    apfst Inr (vault_serve m p (case b of None \<Rightarrow> [] | Some j \<Rightarrow> str_bytes (json_encode j)) w)"
proof -
  have "parse_url (''http://vault'' @ p) =
      Some \<lparr>u_scheme = ''http'', u_host = ''vault'', u_path = p, u_rawpath = p, u_rawquery = []\<rparr>"
    using parse_demo_url [OF base_vault assms, of "[]" False] by simp
  then show ?thesis
    by (cases b) (auto simp: Vault_do_def ks_do_def new_request_def demo_vault_def vault_net_def apfst_def map_prod_def
        simp del: json_encode.simps split: prod.splits)
qed

lemma vault_paths:
  "url_path_ok (''/v1/transit/'' @ op @ ''/'' @ transitKeyName c) \<longleftrightarrow> url_path_ok (''/v1/transit/'' @ op @ ''/artifact-'')"
  "url_path_ok (''/v1/transit/'' @ op @ ''/'' @ transitKeyName c @ ''/config'') \<longleftrightarrow>
     url_path_ok (''/v1/transit/'' @ op @ ''/artifact-'')"
  "url_path_ok (''/v1/secret/'' @ op @ ''/artifact-keys/'' @ hexCID c) \<longleftrightarrow> url_path_ok (''/v1/secret/'' @ op @ ''/artifact-keys/'')"
proof -
  have config: "list_all (\<lambda>c. plain_url_char c \<and> c \<noteq> CHR ''%'') ''/config''" by code_simp
  show "url_path_ok (''/v1/transit/'' @ op @ ''/'' @ transitKeyName c) \<longleftrightarrow> url_path_ok (''/v1/transit/'' @ op @ ''/artifact-'')"
    using url_path_ok_append [of "''/v1/transit/'' @ op @ ''/artifact-''" "hex_encode (Digest c)"] hex_plain [of "Digest c"]
    by (simp add: transitKeyName_def)
  show "url_path_ok (''/v1/transit/'' @ op @ ''/'' @ transitKeyName c @ ''/config'') \<longleftrightarrow>
     url_path_ok (''/v1/transit/'' @ op @ ''/artifact-'')"
    using url_path_ok_append [of "''/v1/transit/'' @ op @ ''/artifact-''" "hex_encode (Digest c) @ ''/config''"]
      hex_plain [of "Digest c"] config by (simp add: transitKeyName_def)
  show "url_path_ok (''/v1/secret/'' @ op @ ''/artifact-keys/'' @ hexCID c) \<longleftrightarrow> url_path_ok (''/v1/secret/'' @ op @ ''/artifact-keys/'')"
    using url_path_ok_append [of "''/v1/secret/'' @ op @ ''/artifact-keys/''" "hexCID c"] hex_plain [of "Digest c"]
    by (simp add: hexCID_eq)
qed

lemma vault_paths_ok:
  "url_path_ok (''/v1/transit/keys/'' @ transitKeyName c)" "url_path_ok (''/v1/transit/keys/'' @ transitKeyName c @ ''/config'')"
  "url_path_ok (''/v1/transit/encrypt/'' @ transitKeyName c)" "url_path_ok (''/v1/transit/decrypt/'' @ transitKeyName c)"
  "url_path_ok (''/v1/secret/data/artifact-keys/'' @ hexCID c)" "url_path_ok (''/v1/secret/metadata/artifact-keys/'' @ hexCID c)"
proof -
  have "url_path_ok ''/v1/transit/keys/artifact-''" "url_path_ok ''/v1/transit/encrypt/artifact-''"
    "url_path_ok ''/v1/transit/decrypt/artifact-''" "url_path_ok ''/v1/secret/data/artifact-keys/''"
    "url_path_ok ''/v1/secret/metadata/artifact-keys/''" by code_simp+
  then show "url_path_ok (''/v1/transit/keys/'' @ transitKeyName c)" "url_path_ok (''/v1/transit/keys/'' @ transitKeyName c @ ''/config'')"
    "url_path_ok (''/v1/transit/encrypt/'' @ transitKeyName c)" "url_path_ok (''/v1/transit/decrypt/'' @ transitKeyName c)"
    "url_path_ok (''/v1/secret/data/artifact-keys/'' @ hexCID c)" "url_path_ok (''/v1/secret/metadata/artifact-keys/'' @ hexCID c)"
    using vault_paths(1) [of "''keys''" c] vault_paths(2) [of "''keys''" c] vault_paths(1) [of "''encrypt''" c]
      vault_paths(1) [of "''decrypt''" c] vault_paths(3) [of "''data''" c] vault_paths(3) [of "''metadata''" c] by simp_all
qed

lemma name_not_config: "\<not> has_suffix (transitKeyName c) ''/config''"
proof
  assume "has_suffix (transitKeyName c) ''/config''"
  then obtain p where "transitKeyName c = p @ ''/config''"
    using has_prefixD [of "rev (transitKeyName c)" "rev ''/config''"] by (auto simp: has_suffix_def)
  then have "CHR ''/'' \<in> set (transitKeyName c)" by simp
  with set_hex_encode [of "Digest c"] show False by (auto simp: transitKeyName_def hex_chars_def)
qed

section \<open>Each request\<close>

lemma demo_urls:
  "transit_url demo_vault op name = ''http://vault'' @ ''/v1/transit/'' @ op @ ''/'' @ name"
  "vt_Endpoint (v_cfg demo_vault) @ kvDataPath demo_vault c = ''http://vault'' @ ''/v1/secret/data/artifact-keys/'' @ hexCID c"
  "vt_Endpoint (v_cfg demo_vault) @ kvMetadataPath demo_vault c =
     ''http://vault'' @ ''/v1/secret/metadata/artifact-keys/'' @ hexCID c"
  by (simp_all add: transit_url_def kvDataPath_def kvMetadataPath_def demo_vault_def)

lemma demo_keys:
  "Vault_do demo_vault m (transit_url demo_vault ''keys'' (transitKeyName c)) b w = apfst Inr (serve_keys m (transitKeyName c) w)"
  using demo_vault_do [OF vault_paths_ok(1), of m c b w]
  by (simp add: demo_urls vault_serve_def trim_prefix_def)

lemma demo_keys_config:
  "Vault_do demo_vault m (transit_url demo_vault ''keys'' (transitKeyName c) @ ''/config'') b w = (Inr (respond 204 []), w)"
proof -
  have "has_suffix (transitKeyName c @ ''/config'') ''/config''" by (simp add: has_suffix_def)
  with demo_vault_do [OF vault_paths_ok(2), of m c b w] show ?thesis
    by (simp add: demo_urls vault_serve_def trim_prefix_def serve_keys_def)
qed

lemma demo_metadata:
  "Vault_do demo_vault m (vt_Endpoint (v_cfg demo_vault) @ kvMetadataPath demo_vault c) b w =
     (Inr (respond 204 []), w\<lparr>vw_kv := (vw_kv w)(hexCID c := None)\<rparr>)"
  using demo_vault_do [OF vault_paths_ok(6), of m c b w]
  by (simp add: demo_urls(3) vault_serve_def trim_prefix_def)

lemma names_plain [simp]: "ascii ''data''" "ascii ''metadata''" "ascii ''deletion_time''" "ascii []"
  by code_simp+

lemma data_json_plain [simp]:
  assumes "ascii n" "ascii s"
  shows "json_plain (data_json n s)" "json_depth (data_json n s) \<le> 10000"
  using assms by (simp_all add: data_json_def)

lemma data_field_json [simp]:
  assumes "ascii n" "ascii s"
  shows "data_field n (respond st (json_body (data_json n s))) = Some s"
  unfolding data_field_def decode_json_body [OF data_json_plain [OF assms]]
  by (simp add: data_json_def json_members_def decode_obj_def decode_str_def)

lemma demo_transit_encrypt:
  "Vault_do demo_vault ''POST'' (transit_url demo_vault ''encrypt'' (transitKeyName c)) (Some (encrypt_body pt)) w =
     (Inr (if vw_keys w (transitKeyName c) = None then respond 404 []
           else respond 200 (json_body (data_json ''ciphertext'' (blob pt)))), w)"
proof -
  have k: "encrypt_body pt = kms_body ''plaintext'' pt" by (simp add: encrypt_body_def kms_body_def)
  show ?thesis unfolding k
    using demo_vault_do [OF vault_paths_ok(3), of "''POST''" c "Some (kms_body ''plaintext'' pt)" w]
    by (simp add: demo_urls vault_serve_def trim_prefix_def serve_encrypt_def)
qed

lemma demo_kv_get:
  "Vault_do demo_vault ''GET'' (vt_Endpoint (v_cfg demo_vault) @ kvDataPath demo_vault c) None w =
     (Inr (case vw_kv w (hexCID c) of None \<Rightarrow> respond 404 [] | Some b \<Rightarrow> respond 200 (json_body (kv_json b))), w)"
  using demo_vault_do [OF vault_paths_ok(5), of "''GET''" c None w]
  by (simp add: demo_urls(2) vault_serve_def trim_prefix_def serve_kv_def split: option.splits)

lemma kv_json_fields [simp]: "kv_fields (respond st (json_body (kv_json b))) = Some (blob b, [])"
proof -
  have "decode_body (respond st (json_body (kv_json b))) = Some (kv_json b)"
    by (rule decode_json_body) (simp_all add: kv_json_def)
  moreover have "json_fold ''data'' \<noteq> json_fold ''metadata''" "json_fold ''metadata'' \<noteq> json_fold ''data''"
    by (simp_all add: json_fold_eval)
  ultimately show ?thesis
    by (simp add: kv_fields_def kv_json_def json_members_def decode_obj_def decode_str_def)
qed

lemma demo_kv_put:
  "\<exists>resp w'. Vault_do demo_vault ''POST'' (vt_Endpoint (v_cfg demo_vault) @ kvDataPath demo_vault c) (Some (kv_put_body wr)) w = (Inr resp, w') \<and>
     vw_keys w' = vw_keys w \<and> (\<forall>x. x \<noteq> hexCID c \<longrightarrow> vw_kv w' x = vw_kv w x) \<and>
     (ascii wr \<longrightarrow> (case parse_blob wr of None \<Rightarrow> rs_status resp = 400
        | Some b \<Rightarrow> rs_status resp = 200 \<and> vw_kv w' (hexCID c) = Some b))"
proof -
  let ?body = "str_bytes (json_encode (kv_put_body wr))"
  let ?req = "json_decode_prefix (bytes_str ?body)"
  have d: "Vault_do demo_vault ''POST'' (vt_Endpoint (v_cfg demo_vault) @ kvDataPath demo_vault c) (Some (kv_put_body wr)) w =
      apfst Inr (serve_kv ''POST'' (hexCID c) ?req w)"
    using demo_vault_do [OF vault_paths_ok(5), of "''POST''" c "Some (kv_put_body wr)" w]
    by (simp add: demo_urls(2) vault_serve_def trim_prefix_def del: json_encode.simps)
  have "?req = Some (kv_put_body wr)" if "ascii wr"
    using that json_decode_prefix_encode [of "kv_put_body wr" "[]"] by (simp add: kv_put_body_def)
  then have "Option.bind (Option.bind (Option.bind ?req json_members) (decode_obj ''data''))
      (\<lambda>d. Option.bind (decode_str ''wrapped'' d) parse_blob) = parse_blob wr" if "ascii wr"
    using that by (simp add: kv_put_body_def json_members_def decode_obj_def decode_str_def)
  then show ?thesis unfolding d by (auto simp: serve_kv_def apfst_def map_prod_def split: option.splits)
qed

lemma demo_transit_decrypt:
  "\<exists>resp. Vault_do demo_vault ''POST'' (transit_url demo_vault ''decrypt'' (transitKeyName c)) (Some (decrypt_body ct)) w = (Inr resp, w) \<and>
     (rs_status resp = 200 \<longrightarrow> (\<exists>b. ct = blob b \<and> vw_keys w (transitKeyName c) \<noteq> None \<and>
        resp = respond 200 (json_body (data_json ''plaintext'' (b64_encode b64_std True b))))) \<and>
     (\<forall>b. ct = blob b \<longrightarrow> vw_keys w (transitKeyName c) \<noteq> None \<longrightarrow> rs_status resp = 200)"
proof -
  let ?body = "str_bytes (json_encode (decrypt_body ct))"
  let ?j = "case json_decode_prefix (bytes_str ?body) of None \<Rightarrow> JNull | Some j \<Rightarrow> j"
  have d: "Vault_do demo_vault ''POST'' (transit_url demo_vault ''decrypt'' (transitKeyName c)) (Some (decrypt_body ct)) w =
      (Inr (serve_decrypt (transitKeyName c) ?j ?body w), w)"
    using demo_vault_do [OF vault_paths_ok(4), of "''POST''" c "Some (decrypt_body ct)" w]
    by (simp add: demo_urls vault_serve_def trim_prefix_def del: json_encode.simps)
  have ok: "serve_decrypt (transitKeyName c) ?j ?body w =
      respond 200 (json_body (data_json ''plaintext'' (b64_encode b64_std True b)))"
    if "ct = blob b" "vw_keys w (transitKeyName c) \<noteq> None" for b
  proof -
    have "json_decode_prefix (json_encode (decrypt_body ct)) = Some (decrypt_body ct)"
      using that by (intro decode_request) (simp_all add: decrypt_body_def)
    then have "str_member ''ciphertext'' ?j = Some ct"
      by (simp add: str_member_def decrypt_body_def json_members_def decode_str_def)
    with that show ?thesis by (auto simp: serve_decrypt_def simp del: json_encode.simps)
  qed
  have only: "ct = blob b \<and> vw_keys w (transitKeyName c) \<noteq> None"
    if "rs_status (serve_decrypt (transitKeyName c) ?j ?body w) = 200" "Option.bind (str_member ''ciphertext'' ?j) parse_blob = Some b" for b
    using that decrypt_request_inject [of ct b]
    by (auto simp: serve_decrypt_def simp del: json_encode.simps split: if_splits)
  have "\<exists>b. Option.bind (str_member ''ciphertext'' ?j) parse_blob = Some b"
    if "rs_status (serve_decrypt (transitKeyName c) ?j ?body w) = 200"
    using that by (auto simp: serve_decrypt_def simp del: json_encode.simps split: option.splits)
  with ok only show ?thesis unfolding d by (metis respond_sel(1))
qed

section \<open>The hypotheses hold\<close>

lemma demo_vault_view_sel [simp]:
  "vv_keys demo_vault_view = vw_keys" "vv_kv demo_vault_view w x = map_option blob (vw_kv w x)"
  "vv_open demo_vault_view key = parse_blob"
  by (simp_all add: demo_vault_view_def)

lemma demo_keys_api: "vault_keys_api demo_vault demo_vault_view"
  unfolding vault_keys_api_def demo_keys demo_keys_config
  by (intro conjI allI impI)
    (auto simp: serve_keys_def name_not_config vault_same_def answered_def demo_vault_view_def split: if_splits)

lemma demo_kv_api: "vault_kv_api demo_vault demo_vault_view"
  unfolding vault_kv_api_def
proof (intro conjI allI impI, goal_cases)
  case (1 c wr w r w')
  then show ?case using demo_kv_put [of c wr w] by auto
next
  case (2 c wr w r w' x)
  then show ?case using demo_kv_put [of c wr w] by auto
next
  case (3 c wr w r w')
  then show ?case using demo_kv_put [of c wr w]
    by (auto simp: answered_def parse_blob_Some split: option.splits)
qed (auto simp: demo_kv_get demo_metadata vault_same_def answered_def demo_vault_view_def split: option.splits)

lemma demo_crypt_api: "vault_crypt_api demo_vault demo_vault_view"
  unfolding vault_crypt_api_def demo_transit_encrypt
proof (intro conjI allI impI, goal_cases)
  case (4 c ct w r w')
  then show ?case using demo_transit_decrypt [of c ct w] by auto
next
  case (5 c ct w r w' resp p pt)
  then show ?case using demo_transit_decrypt [of c ct w]
    by (auto simp: b64_decode_encode [OF b64_std_ok])
qed (auto split: if_splits)

lemma demo_vault_api: "vault_api demo_env demo_vault demo_vault_view"
  by (simp add: vault_api_def demo_keys_api demo_kv_api demo_crypt_api)

lemma demo_vault_reliable: "vault_reliable demo_env demo_vault demo_vault_view"
  unfolding vault_reliable_def demo_transit_encrypt demo_keys demo_keys_config demo_kv_get demo_metadata
proof (intro conjI allI impI, goal_cases)
  case (4 c ct w key pt)
  then show ?case using demo_transit_decrypt [of c ct w] by (auto simp: parse_blob_Some blob_def)
next
  case (8 c wr w key pt)
  then show ?case using demo_kv_put [of c wr w] by (auto simp: parse_blob_Some answered_def)
qed (auto simp: serve_keys_def name_not_config answered_def blob_not_Nil split: option.splits)

definition demo_vault_state :: "vault_world ks_state" where
  "demo_vault_state = \<lparr>ks_cache = {}, ks_world = \<lparr>vw_keys = (\<lambda>_. None), vw_kv = (\<lambda>_. None)\<rparr>\<rparr>"

lemma demo_vault_inv: "vault_inv demo_env demo_vault demo_vault_view s"
  by (simp add: vault_inv_def demo_env_ok demo_vault_api)

lemma demo_vault_up: "vault_up demo_env demo_vault demo_vault_view demo_vault_state"
  by (simp add: vault_up_def demo_vault_reliable vault_consistent_def demo_vault_state_def)

end
