(* ===== verification/Demo_Keys.thy ===== *)
theory Demo_Keys
  imports Instances Demo_Vault
begin

text \<open>
  The three services holding one key, for a CID that no ciphertext of the example SDK hashes
  to, so that every call on them is fresh.
\<close>

definition old_cid :: cid where
  "old_cid = demo_cid [1]"

definition old_material :: bytes where
  "old_material = replicate 32 9 @ replicate 12 3"

definition old_ct :: bytes where
  "old_ct = old_material @ [42]"

definition held_vault :: "vault_world ks_state" where
  "held_vault =
     \<lparr>ks_cache = {}, ks_world = \<lparr>vw_keys = [''artifact-'' @ hex_encode [1] \<mapsto> 0], vw_kv = [hex_encode [1] \<mapsto> old_material]\<rparr>\<rparr>"

definition held_gcp :: "gcp_world ks_state" where
  "held_gcp =
     \<lparr>ks_cache = {}, ks_world = \<lparr>gw_docs = [demo_parent @ ''/'' @ hex_encode [1] \<mapsto> fake_encrypt old_material]\<rparr>\<rparr>"

definition held_token :: "hsm_world p11_state" where
  "held_token =
     \<lparr>ps_open = True,
      ps_world = \<lparr>hw_objs = [Some \<lparr>ob_label = ''artifact-'' @ hex_encode [1], ob_id = replicate 12 3, ob_value = replicate 32 9\<rparr>],
                  hw_find = [], hw_op = ([], 0)\<rparr>\<rparr>"

lemma old_digest [simp]: "Digest old_cid = [1]"
  by (simp add: old_cid_def demo_cid_def)

lemma old_opens: "opens demo_env old_material old_ct = Some [42]"
  by (simp add: opens_def aesGCMOpen_def aes_key_ok_def gcm_nonce_size_def old_ct_def old_material_def demo_open_def Let_def)

text \<open>The example hash is two bytes long.\<close>

lemma demo_digest: "Digest (sdk_Compute demo_sdk ct) \<noteq> [1]"
  by (simp add: demo_cid_def demo_hash_def)

text \<open>A digest the SDK never makes is never created.\<close>

lemma drawn_never: "(\<And>ct. Digest (cid_of ct) \<noteq> x) \<Longrightarrow> x \<notin> drawn draws cid_of pt s"
  by (auto simp: drawn_def)

lemma creates_never:
  assumes "\<And>ct. Digest (cid_of ct) \<noteq> x"
  shows "x \<notin> creates_in ks draws cid_of as s"
proof (induction as arbitrary: s)
  case (Cons a as)
  have "x \<notin> drawn draws cid_of pt s" for pt s using assms by (rule drawn_never)
  with Cons show ?case by (simp add: creates_def split: ks_call.splits sum.splits prod.splits)
qed simp

lemma fresh_only:
  assumes "\<And>ct. Digest (cid_of ct) \<noteq> x" "\<And>y. y \<noteq> x \<Longrightarrow> mat s y = None"
  shows "fresh_key draws mat cid_of pt s"
  using assms by (simp add: fresh_key_def)

lemma demo_creates: "[1] \<notin> creates_in ks draws (sdk_Compute demo_sdk) as s"
  by (rule creates_never) (rule demo_digest)

lemma demo_fresh: "(\<And>y. y \<noteq> [1] \<Longrightarrow> mat s y = None) \<Longrightarrow> fresh_key draws mat (sdk_Compute demo_sdk) pt s"
  by (rule fresh_only) (rule demo_digest)

section \<open>Vault\<close>

lemma held_vault_mat: "vault_mat demo_vault_view (ks_world held_vault) = [[1] \<mapsto> old_material]"
  by (auto simp: vault_mat_def held_vault_def fun_eq_iff)

lemma held_vault_up: "vault_up demo_env demo_vault demo_vault_view held_vault"
proof -
  have "Digest c = [1]" if "vv_kv demo_vault_view (ks_world held_vault) (hexCID c) = Some wr" for c wr
    using that by (auto simp: held_vault_def hexCID_eq split: if_splits)
  then have "vault_consistent demo_vault_view (ks_world held_vault)"
    unfolding vault_consistent_def
    by (metis held_vault_mat demo_vault_view_sel(2) blob_not_Nil fun_upd_same map_option_eq_Some option.distinct(1))
  then show ?thesis by (simp add: vault_up_def demo_vault_reliable)
qed

section \<open>Google Cloud\<close>

lemma held_gcp_mat: "gcp_mat demo_gcp_view (ks_world held_gcp) = [[1] \<mapsto> old_material]"
  by (auto simp: gcp_mat_def held_gcp_def fun_eq_iff fake_decrypt_encrypt)

lemma held_gcp_up: "gcp_up demo_sdk demo_env demo_gcp demo_gcp_view held_gcp"
proof -
  have "fake_encrypt old_material \<noteq> []" by (simp add: fake_encrypt_def demo_nonce_def)
  then have "gcp_consistent demo_gcp_view (ks_world held_gcp)"
    by (auto simp: gcp_consistent_def held_gcp_def split: if_splits)
  then show ?thesis by (simp add: gcp_up_def demo_gcp_reliable demo_cid_def demo_hash_def)
qed

section \<open>PKCS\#11\<close>

lemma held_token_labelled:
  "labelled demo_p11 hsm_objs (ps_world held_token) d h ob \<longleftrightarrow>
     d = [1] \<and> h = 0 \<and> ob = \<lparr>ob_label = ''artifact-'' @ hex_encode [1], ob_id = replicate 12 3, ob_value = replicate 32 9\<rparr>"
  by (auto simp: labelled_def hsm_objs_def held_token_def demo_p11_def)

lemma held_token_inv: "p11_inv demo_env demo_p11 hsm_objs held_token"
proof -
  have "p_ctx demo_p11 = demo_hsm" by (simp add: demo_p11_def)
  then show ?thesis
    by (simp add: p11_inv_def demo_env_ok demo_hsm_api p11_objects_ok_def held_token_labelled)
qed

lemma held_token_up: "p11_up demo_env demo_p11 hsm_objs held_token"
  by (simp add: p11_up_def demo_p11_def demo_hsm_reliable held_token_def)

lemma held_token_mat: "p11_mat demo_p11 hsm_objs (ps_world held_token) = [[1] \<mapsto> old_material]"
proof -
  have "p11_objects_ok demo_env demo_p11 hsm_objs (ps_world held_token)" using held_token_inv by (simp add: p11_inv_def)
  from p11_mat_Some [OF this iffD2 [OF held_token_labelled]]
  have "p11_mat demo_p11 hsm_objs (ps_world held_token) [1] = Some old_material" by (simp add: old_material_def)
  moreover have "p11_mat demo_p11 hsm_objs (ps_world held_token) x = None" if "x \<noteq> [1]" for x
    using that by (simp add: p11_mat_None held_token_labelled)
  ultimately show ?thesis by (auto simp: fun_eq_iff)
qed

end
