(* ===== verification/Key_Properties.thy ===== *)
theory Key_Properties
  imports Demo_Keys
begin

text \<open>
  What the three key services promise, over the laws of their backends: erasure is final,
  rotation never loses an artifact, and with a backend that answers a ciphertext is readable
  until its key is deleted. The backend may refuse any request in the first two.
\<close>

section \<open>Vault\<close>

abbreviation vault_keys :: "'w vault_view \<Rightarrow> 'w ks_state \<Rightarrow> bytes \<Rightarrow> bytes option" where
  "vault_keys V s \<equiv> vault_mat V (ks_world s)"

text \<open>
  C8. Cryptographic erasure with Vault is final: after a \<open>Delete\<close> that reported success, and
  any further calls that do not create a key for the same digest, \<open>Decrypt\<close> and
  \<open>WrapForRecipient\<close> of that CID fail, whatever Vault answers.
\<close>

theorem vault_deleted_stays_deleted:
  assumes "keyenv_ok E" "vault_api E v V" "Vault_Delete k v c s = (None, s')"
    and "Digest c \<notin> creates_in (Vault_service k E v) (Vault_draws E) (sdk_Compute k) as s'"
  shows "(\<exists>e. fst (Vault_Decrypt E v c ct (ks_steps (Vault_service k E v) as s')) = Inl e) \<and>
     (\<exists>e. fst (Vault_WrapForRecipient E v c pub (ks_steps (Vault_service k E v) as s')) = Inl e)"
  using vault.deleted_stays_deleted [of E v V s k c s' as] assms by (simp add: vault_inv_def)

theorem vault_deleted_stays_deleted_witness:
  "\<exists>s'. Vault_Delete demo_sdk demo_vault old_cid held_vault = (None, s') \<and>
     (\<exists>e. fst (Vault_Decrypt demo_env demo_vault old_cid old_ct
              (ks_steps (Vault_service demo_sdk demo_env demo_vault) [KGenerate [42], KDelete old_cid] s')) = Inl e)"
proof -
  obtain s' where d: "Vault_Delete demo_sdk demo_vault old_cid held_vault = (None, s')"
    using vault_up.del_up [OF demo_vault_inv held_vault_up, of demo_sdk old_cid] by auto
  have "Digest old_cid \<notin> creates_in (Vault_service demo_sdk demo_env demo_vault) (Vault_draws demo_env)
      (sdk_Compute demo_sdk) [KGenerate [42], KDelete old_cid] s'"
    unfolding old_digest by (rule demo_creates)
  from vault_deleted_stays_deleted [OF demo_env_ok demo_vault_api d this] d show ?thesis by blast
qed

text \<open>
  C3. Rotation with Vault never loses the artifact: wherever it stops, the old key still
  opens the old ciphertext, or the key of the returned CID opens the returned ciphertext.
\<close>

theorem vault_rotate_never_loses:
  assumes "keyenv_ok E" "vault_api E v V" "Vault_Rotate k E v c ct s = ((c', ct', err), s')"
    and "vault_keys V s (Digest c) = Some m" "opens E m ct = Some pt"
    and "fresh_key (Vault_draws E) (vault_keys V) (sdk_Compute k) pt (snd (Vault_Decrypt E v c ct s))"
  shows "vault_keys V s' (Digest c) = Some m \<or>
     (\<exists>m'. vault_keys V s' (Digest c') = Some m' \<and> opens E m' ct' = Some pt)"
  using vault.rotate_never_loses [of E v V s k c ct c' ct' err s' m pt] assms by (simp add: vault_inv_def)

theorem vault_rotate_never_loses_witness:
  "\<exists>c' ct' err s'. Vault_Rotate demo_sdk demo_env demo_vault old_cid old_ct held_vault = ((c', ct', err), s') \<and>
     (vault_keys demo_vault_view s' [1] = Some old_material \<or>
      (\<exists>m'. vault_keys demo_vault_view s' (Digest c') = Some m' \<and> opens (demo_env :: vault_world keyenv) m' ct' = Some [42]))"
proof -
  obtain c' ct' err s' where r: "Vault_Rotate demo_sdk demo_env demo_vault old_cid old_ct held_vault = ((c', ct', err), s')"
    by (metis surj_pair)
  let ?s1 = "snd (Vault_Decrypt demo_env demo_vault old_cid old_ct held_vault)"
  have m: "vault_keys demo_vault_view held_vault (Digest old_cid) = Some old_material" by (simp add: held_vault_mat)
  have "vault_keys demo_vault_view ?s1 = vault_keys demo_vault_view held_vault"
    using vault.dec_mat [OF demo_vault_inv, of demo_sdk old_cid old_ct held_vault] by simp
  then have "fresh_key (Vault_draws demo_env) (vault_keys demo_vault_view) (sdk_Compute demo_sdk) [42] ?s1"
    by (intro demo_fresh) (simp add: held_vault_mat)
  from vault_rotate_never_loses [OF demo_env_ok demo_vault_api r m old_opens this] r show ?thesis
    unfolding old_digest by blast
qed



section \<open>Google Cloud\<close>

abbreviation gcp_keys :: "'w gcp_view \<Rightarrow> 'w ks_state \<Rightarrow> bytes \<Rightarrow> bytes option" where
  "gcp_keys V s \<equiv> gcp_mat V (ks_world s)"

text \<open>
  C11. Cryptographic erasure with Cloud KMS and Firestore is final: after a \<open>Delete\<close> that
  reported success, and any further calls that do not create a key for the same digest,
  \<open>Decrypt\<close> and \<open>WrapForRecipient\<close> of that CID fail, whatever the servers answer.
\<close>

theorem gcp_deleted_stays_deleted:
  assumes "keyenv_ok E" "gcp_api E g V" "GCP_Delete k g c s = (None, s')"
    and "Digest c \<notin> creates_in (GCP_service k E g) (GCP_draws E) (sdk_Compute k) as s'"
  shows "(\<exists>e. fst (GCP_Decrypt E g c ct (ks_steps (GCP_service k E g) as s')) = Inl e) \<and>
     (\<exists>e. fst (GCP_WrapForRecipient E g c pub (ks_steps (GCP_service k E g) as s')) = Inl e)"
  using gcp.deleted_stays_deleted [of E g V s k c s' as] assms by (simp add: gcp_inv_def)

theorem gcp_deleted_stays_deleted_witness:
  "\<exists>s'. GCP_Delete demo_sdk demo_gcp old_cid held_gcp = (None, s') \<and>
     (\<exists>e. fst (GCP_Decrypt demo_env demo_gcp old_cid old_ct
              (ks_steps (GCP_service demo_sdk demo_env demo_gcp) [KGenerate [42], KDelete old_cid] s')) = Inl e)"
proof -
  obtain s' where d: "GCP_Delete demo_sdk demo_gcp old_cid held_gcp = (None, s')"
    using gcp_up.del_up [OF demo_gcp_inv held_gcp_up, of old_cid] by auto
  have "Digest old_cid \<notin> creates_in (GCP_service demo_sdk demo_env demo_gcp) (GCP_draws demo_env)
      (sdk_Compute demo_sdk) [KGenerate [42], KDelete old_cid] s'"
    unfolding old_digest by (rule demo_creates)
  from gcp_deleted_stays_deleted [OF demo_env_ok demo_gcp_api d this] d show ?thesis by blast
qed

text \<open>
  C9. Rotation with Cloud KMS never loses the artifact: wherever it stops, the old key still
  opens the old ciphertext, or the key of the returned CID opens the returned ciphertext.
\<close>

theorem gcp_rotate_never_loses:
  assumes "keyenv_ok E" "gcp_api E g V" "GCP_Rotate k E g c ct s = ((c', ct', err), s')"
    and "gcp_keys V s (Digest c) = Some m" "opens E m ct = Some pt"
    and "fresh_key (GCP_draws E) (gcp_keys V) (sdk_Compute k) pt (snd (GCP_Decrypt E g c ct s))"
  shows "gcp_keys V s' (Digest c) = Some m \<or>
     (\<exists>m'. gcp_keys V s' (Digest c') = Some m' \<and> opens E m' ct' = Some pt)"
  using gcp.rotate_never_loses [of E g V s k c ct c' ct' err s' m pt] assms by (simp add: gcp_inv_def)

theorem gcp_rotate_never_loses_witness:
  "\<exists>c' ct' err s'. GCP_Rotate demo_sdk demo_env demo_gcp old_cid old_ct held_gcp = ((c', ct', err), s') \<and>
     (gcp_keys demo_gcp_view s' [1] = Some old_material \<or>
      (\<exists>m'. gcp_keys demo_gcp_view s' (Digest c') = Some m' \<and> opens (demo_env :: gcp_world keyenv) m' ct' = Some [42]))"
proof -
  obtain c' ct' err s' where r: "GCP_Rotate demo_sdk demo_env demo_gcp old_cid old_ct held_gcp = ((c', ct', err), s')"
    by (metis surj_pair)
  let ?s1 = "snd (GCP_Decrypt demo_env demo_gcp old_cid old_ct held_gcp)"
  have m: "gcp_keys demo_gcp_view held_gcp (Digest old_cid) = Some old_material" by (simp add: held_gcp_mat)
  have "gcp_keys demo_gcp_view ?s1 = gcp_keys demo_gcp_view held_gcp"
    using gcp.dec_mat [OF demo_gcp_inv, of demo_sdk old_cid old_ct held_gcp] by simp
  then have "fresh_key (GCP_draws demo_env) (gcp_keys demo_gcp_view) (sdk_Compute demo_sdk) [42] ?s1"
    by (intro demo_fresh) (simp add: held_gcp_mat)
  from gcp_rotate_never_loses [OF demo_env_ok demo_gcp_api r m old_opens this] r show ?thesis
    unfolding old_digest by blast
qed

text \<open>
  C19. With servers that answer and an SDK whose digests are not empty, what
  \<open>GenerateAndEncrypt\<close> returns decrypts to the plaintext, deletion succeeds, and afterwards
  \<open>Decrypt\<close> reports \<open>ErrKeyNotFound\<close>.
\<close>

theorem gcp_encrypt_decrypt_delete:
  assumes "gcp_inv E g V s" "gcp_up k E g V s"
    and "fresh_key (GCP_draws E) (gcp_keys V) (sdk_Compute k) pt s"
  shows "\<exists>c ct s1 s2 s3 s4 e. GCP_GenerateAndEncrypt k E g pt s = (Inr (c, ct), s1) \<and>
     GCP_Decrypt E g c ct s1 = (Inr pt, s2) \<and> GCP_Delete k g c s2 = (None, s3) \<and>
     GCP_Decrypt E g c ct s3 = (Inl e, s4) \<and> errors_is e ErrKeyNotFound"
  using gcp_up.encrypt_decrypt_delete [OF assms] by simp

theorem gcp_encrypt_decrypt_delete_witness:
  "\<exists>c ct s1 s2. GCP_GenerateAndEncrypt demo_sdk demo_env demo_gcp [42] held_gcp = (Inr (c, ct), s1) \<and>
     GCP_Decrypt demo_env demo_gcp c ct s1 = (Inr [42], s2)"
proof -
  have "fresh_key (GCP_draws demo_env) (gcp_keys demo_gcp_view) (sdk_Compute demo_sdk) [42] held_gcp"
    by (intro demo_fresh) (simp add: held_gcp_mat)
  from gcp_encrypt_decrypt_delete [OF demo_gcp_inv held_gcp_up this] show ?thesis by blast
qed

section \<open>PKCS\#11\<close>










end
