(* ===== verification/Config.thy ===== *)
theory Config
  imports Go_Fmt Go_Time
begin

text \<open>
  \<open>config/config.go\<close>: the settings of the service, read from the process environment
  (the parameter \<open>getenv\<close>, which answers the empty string for a variable that is not
  set) and validated. \<open>isp\<close> is the table of printable runes the \<open>%q\<close> verb consults.
\<close>

record Config =
  Backend :: string
  Endpoint :: string
  Bucket :: string
  Region :: string
  PathStyle :: bool
  Prefix :: string
  MirrorBackend :: string
  MirrorEndpoint :: string
  MirrorBucket :: string
  MirrorMode :: string
  VerifyOnPush :: bool
  Env :: string
  RequireUploadToken :: string
  OperatorPubKeys :: string
  OperatorPubKeysDir :: string
  DefaultResolveExpiry :: duration
  ListenAddr :: string
  MaxBodySize :: int64
  KeyService :: string
  VaultEndpoint :: string
  VaultToken :: string
  VaultTransitMount :: string
  VaultKVMount :: string
  VaultKVNamespace :: string
  GCPKMSKEKResource :: string
  GCPFirestoreProjectID :: string
  GCPFirestoreDatabase :: string
  GCPFirestoreCollection :: string
  PKCS11ModulePath :: string
  PKCS11TokenLabel :: string
  PKCS11Pin :: string

section \<open>Reading the environment\<close>

definition envOrDefault :: "(string \<Rightarrow> string) \<Rightarrow> string \<Rightarrow> string \<Rightarrow> string" where
  "envOrDefault getenv key fallback = (if getenv key \<noteq> [] then getenv key else fallback)"

definition envBool :: "(string \<Rightarrow> string) \<Rightarrow> string \<Rightarrow> bool \<Rightarrow> bool" where
  "envBool getenv key fallback =
     (if getenv key = [] then fallback
      else case parse_bool (getenv key) of None \<Rightarrow> fallback | Some b \<Rightarrow> b)"

definition envInt64 :: "(string \<Rightarrow> string) \<Rightarrow> string \<Rightarrow> int64 \<Rightarrow> int64" where
  "envInt64 getenv key fallback =
     (if getenv key = [] then fallback
      else case parse_int64 (getenv key) of None \<Rightarrow> fallback | Some n \<Rightarrow> n)"

definition envDuration :: "(string \<Rightarrow> string) \<Rightarrow> string \<Rightarrow> duration \<Rightarrow> duration" where
  "envDuration getenv key fallback =
     (if getenv key = [] then fallback
      else case parse_int64 (getenv key) of None \<Rightarrow> fallback | Some secs \<Rightarrow> seconds secs)"

definition default_body_size :: int64 where
  "default_body_size = push_bit 20 64"

section \<open>Validation\<close>

text \<open>The last switch of \<open>validate\<close>: what each key service needs.\<close>

definition validate_keyservice :: "(nat \<Rightarrow> bool) \<Rightarrow> Config \<Rightarrow> goerr option" where
  "validate_keyservice isp c =
     (if KeyService c = ''memory'' then None
      else if KeyService c = ''vault'' then
        (if VaultToken c = []
         then Some (Errorf [Lit ''config: ARTIFACT_VAULT_TOKEN is required when ARTIFACT_KEYSERVICE=vault''])
         else None)
      else if KeyService c = ''gcpkms'' then
        (if GCPKMSKEKResource c = []
         then Some (Errorf [Lit ''config: ARTIFACT_GCP_KMS_KEK_RESOURCE is required when ARTIFACT_KEYSERVICE=gcpkms''])
         else if GCPFirestoreProjectID c = []
         then Some (Errorf [Lit ''config: ARTIFACT_GCP_FIRESTORE_PROJECT_ID is required when ARTIFACT_KEYSERVICE=gcpkms''])
         else None)
      else if KeyService c = ''pkcs11'' then
        (if PKCS11TokenLabel c = []
         then Some (Errorf [Lit ''config: ARTIFACT_PKCS11_TOKEN_LABEL is required when ARTIFACT_KEYSERVICE=pkcs11''])
         else if PKCS11Pin c = []
         then Some (Errorf [Lit ''config: ARTIFACT_PKCS11_PIN is required when ARTIFACT_KEYSERVICE=pkcs11''])
         else None)
      else Some (Errorf [Lit (''config: unknown ARTIFACT_KEYSERVICE '' @ go_quote isp (KeyService c) @
                   '' (want vault, gcpkms, pkcs11, or memory)'')]))"

text \<open>\<open>validate\<close> has a pointer receiver: it repairs \<open>MaxBodySize\<close> in place.\<close>

definition validate :: "(nat \<Rightarrow> bool) \<Rightarrow> Config \<Rightarrow> goerr option \<times> Config" where
  "validate isp c =
     (if Backend c \<notin> set [''gcs'', ''rustfs'', ''memory'']
      then (Some (Errorf [Lit (''config: unknown backend '' @ go_quote isp (Backend c) @
              '' (want gcs, rustfs, or memory)'')]), c)
      else if MirrorBackend c \<noteq> [] \<and> MirrorBackend c \<notin> set [''gcs'', ''rustfs'']
      then (Some (Errorf [Lit (''config: unknown mirror backend '' @ go_quote isp (MirrorBackend c) @
              '' (want gcs or rustfs)'')]), c)
      else if MirrorMode c \<noteq> ''sync''
      then (Some (Errorf [Lit (''config: unknown mirror mode '' @ go_quote isp (MirrorMode c) @
              '' (want sync)'')]), c)
      else
        let c' = (if sint (MaxBodySize c) \<le> 0 then c\<lparr>MaxBodySize := default_body_size\<rparr> else c)
        in if RequireUploadToken c' \<notin> set [''off'', ''optional'', ''required'']
           then (Some (Errorf [Lit (''config: unknown ARTIFACT_REQUIRE_UPLOAD_TOKEN '' @
                   go_quote isp (RequireUploadToken c') @ '' (want off, optional, required)'')]), c')
           else (validate_keyservice isp c', c'))"

definition read_config :: "(string \<Rightarrow> string) \<Rightarrow> Config" where
  "read_config getenv =
     \<lparr>Backend = envOrDefault getenv ''ARTIFACT_BACKEND'' ''memory'',
      Endpoint = getenv ''ARTIFACT_ENDPOINT'',
      Bucket = envOrDefault getenv ''ARTIFACT_BUCKET'' ''ortholog-artifacts'',
      Region = envOrDefault getenv ''ARTIFACT_REGION'' ''us-east-1'',
      PathStyle = envBool getenv ''ARTIFACT_PATH_STYLE'' False,
      Prefix = getenv ''ARTIFACT_PREFIX'',
      MirrorBackend = getenv ''ARTIFACT_MIRROR_BACKEND'',
      MirrorEndpoint = getenv ''ARTIFACT_MIRROR_ENDPOINT'',
      MirrorBucket = getenv ''ARTIFACT_MIRROR_BUCKET'',
      MirrorMode = envOrDefault getenv ''ARTIFACT_MIRROR_MODE'' ''sync'',
      VerifyOnPush = envBool getenv ''ARTIFACT_VERIFY_ON_PUSH'' True,
      Env = envOrDefault getenv ''ORTHOLOG_ENV'' ''dev'',
      RequireUploadToken = envOrDefault getenv ''ARTIFACT_REQUIRE_UPLOAD_TOKEN'' ''off'',
      OperatorPubKeys = getenv ''ARTIFACT_OPERATOR_PUBKEYS'',
      OperatorPubKeysDir = getenv ''ARTIFACT_OPERATOR_PUBKEYS_DIR'',
      DefaultResolveExpiry = envDuration getenv ''ARTIFACT_RESOLVE_EXPIRY'' (3600 * second),
      ListenAddr = envOrDefault getenv ''ARTIFACT_LISTEN_ADDR'' '':8082'',
      MaxBodySize = envInt64 getenv ''ARTIFACT_MAX_BODY_SIZE'' default_body_size,
      KeyService = envOrDefault getenv ''ARTIFACT_KEYSERVICE'' ''vault'',
      VaultEndpoint = envOrDefault getenv ''ARTIFACT_VAULT_ENDPOINT'' ''http://127.0.0.1:8200'',
      VaultToken = getenv ''ARTIFACT_VAULT_TOKEN'',
      VaultTransitMount = envOrDefault getenv ''ARTIFACT_VAULT_TRANSIT_MOUNT'' ''transit'',
      VaultKVMount = envOrDefault getenv ''ARTIFACT_VAULT_KV_MOUNT'' ''secret'',
      VaultKVNamespace = envOrDefault getenv ''ARTIFACT_VAULT_KV_NAMESPACE'' ''artifact-keys'',
      GCPKMSKEKResource = getenv ''ARTIFACT_GCP_KMS_KEK_RESOURCE'',
      GCPFirestoreProjectID = getenv ''ARTIFACT_GCP_FIRESTORE_PROJECT_ID'',
      GCPFirestoreDatabase = envOrDefault getenv ''ARTIFACT_GCP_FIRESTORE_DATABASE'' ''(default)'',
      GCPFirestoreCollection =
        envOrDefault getenv ''ARTIFACT_GCP_FIRESTORE_COLLECTION'' ''ortholog-artifact-keys'',
      PKCS11ModulePath =
        envOrDefault getenv ''ARTIFACT_PKCS11_MODULE_PATH'' ''/usr/lib/softhsm/libsofthsm2.so'',
      PKCS11TokenLabel = getenv ''ARTIFACT_PKCS11_TOKEN_LABEL'',
      PKCS11Pin = getenv ''ARTIFACT_PKCS11_PIN''\<rparr>"

definition Load :: "(nat \<Rightarrow> bool) \<Rightarrow> (string \<Rightarrow> string) \<Rightarrow> goerr + Config" where
  "Load isp getenv =
     (case validate isp (read_config getenv) of
        (Some e, c) \<Rightarrow> Inl e
      | (None, c) \<Rightarrow> Inr c)"

section \<open>What a loaded configuration promises\<close>

definition keyservice_ready :: "Config \<Rightarrow> bool" where
  "keyservice_ready c \<longleftrightarrow>
     KeyService c = ''memory'' \<or>
     (KeyService c = ''vault'' \<and> VaultToken c \<noteq> []) \<or>
     (KeyService c = ''gcpkms'' \<and> GCPKMSKEKResource c \<noteq> [] \<and> GCPFirestoreProjectID c \<noteq> []) \<or>
     (KeyService c = ''pkcs11'' \<and> PKCS11TokenLabel c \<noteq> [] \<and> PKCS11Pin c \<noteq> [])"

definition config_ok :: "Config \<Rightarrow> bool" where
  "config_ok c \<longleftrightarrow>
     Backend c \<in> {''gcs'', ''rustfs'', ''memory''} \<and>
     MirrorBackend c \<in> {[], ''gcs'', ''rustfs''} \<and>
     MirrorMode c = ''sync'' \<and>
     RequireUploadToken c \<in> {''off'', ''optional'', ''required''} \<and>
     keyservice_ready c"

lemma validate_keyservice_iff: "validate_keyservice isp c = None \<longleftrightarrow> keyservice_ready c"
  by (simp add: validate_keyservice_def keyservice_ready_def)

lemma keyservice_ready_body_size [simp]:
  "keyservice_ready (c\<lparr>MaxBodySize := n\<rparr>) = keyservice_ready c"
  by (simp add: keyservice_ready_def)

lemma config_ok_body_size [simp]: "config_ok (c\<lparr>MaxBodySize := n\<rparr>) = config_ok c"
  by (simp add: config_ok_def)

lemma validate_None_iff: "fst (validate isp c) = None \<longleftrightarrow> config_ok c"
  by (simp add: validate_def config_ok_def validate_keyservice_iff Let_def)

lemma sint_default_body_size [simp]: "sint default_body_size = 67108864"
  by (simp add: default_body_size_def push_bit_eq_mult)

lemma validate_result:
  assumes "fst (validate isp c) = None"
  shows "snd (validate isp c) =
    (if sint (MaxBodySize c) \<le> 0 then c\<lparr>MaxBodySize := default_body_size\<rparr> else c)"
proof -
  from assms have "config_ok c" by (simp add: validate_None_iff)
  then show ?thesis by (auto simp: validate_def config_ok_def Let_def)
qed

lemma Load_Inr_iff:
  "Load isp getenv = Inr c \<longleftrightarrow>
     config_ok (read_config getenv) \<and> c = snd (validate isp (read_config getenv))"
  using validate_None_iff [of isp "read_config getenv"]
  by (auto simp: Load_def split: prod.splits option.splits)

lemma Load_Inr:
  assumes "Load isp getenv = Inr c"
  shows "config_ok c \<and> 0 < sint (MaxBodySize c)"
proof -
  let ?r = "read_config getenv"
  from assms have "config_ok ?r" "c = snd (validate isp ?r)" by (simp_all add: Load_Inr_iff)
  moreover from this have "fst (validate isp ?r) = None" by (simp add: validate_None_iff)
  ultimately show ?thesis using validate_result [of isp ?r] by simp
qed

text \<open>An environment in which only the key service is chosen.\<close>

lemma read_config_unset:
  assumes "\<And>v. v \<in> {''ARTIFACT_BACKEND'', ''ARTIFACT_MIRROR_BACKEND'', ''ARTIFACT_MIRROR_MODE'',
                ''ARTIFACT_REQUIRE_UPLOAD_TOKEN'', ''ARTIFACT_KEYSERVICE''} \<Longrightarrow> getenv v = []"
    and "getenv ''ARTIFACT_VAULT_TOKEN'' \<noteq> []"
  shows "config_ok (read_config getenv)"
proof -
  have "getenv ''ARTIFACT_BACKEND'' = []" "getenv ''ARTIFACT_MIRROR_BACKEND'' = []"
    "getenv ''ARTIFACT_MIRROR_MODE'' = []" "getenv ''ARTIFACT_REQUIRE_UPLOAD_TOKEN'' = []"
    "getenv ''ARTIFACT_KEYSERVICE'' = []"
    using assms(1) by simp_all
  with assms(2) show ?thesis
    by (simp add: config_ok_def keyservice_ready_def read_config_def envOrDefault_def)
qed

text \<open>A duration that is read in seconds is exact within the range of \<open>time.Duration\<close>.\<close>

lemma envDuration_exact:
  assumes "getenv key = itoa n" "itoa n \<noteq> []" "- max_seconds \<le> n" "n \<le> max_seconds"
  shows "sint (envDuration getenv key fb) = n * 1000000000"
proof -
  have s: "sint (of_int n :: int64) = n"
    using assms(3,4) sint_of_int64 [of n] by (simp add: max_seconds_def max_int64_def)
  have "parse_int64 (itoa n) = Some (of_int n)"
    using parse_int64_itoa [of "of_int n"] by (simp add: s)
  with assms s show ?thesis
    by (simp add: envDuration_def sint_seconds)
qed

end
