(* ===== verification/Go_Pem.thy ===== *)
theory Go_Pem
  imports Go_Encoding
begin

text \<open>
  \<open>pem.Decode\<close> of Go's \<open>encoding/pem\<close>: the bytes of the first well-formed block of a
  text, with the retry after a malformed one. The block's type and headers are parsed and
  dropped, as the only caller reads the bytes alone.
\<close>

definition nl :: char where
  "nl = CHR 0x0A"

definition trim_right_blank :: "string \<Rightarrow> string" where
  "trim_right_blank s = rev (dropWhile (\<lambda>c. c = CHR '' '' \<or> c = CHR 0x09) (rev s))"

text \<open>\<open>getLine\<close>: the first line without its line end and trailing blanks, and the rest.\<close>

definition get_line :: "string \<Rightarrow> string \<times> string" where
  "get_line s =
     (case index_byte nl s of
        None \<Rightarrow> (trim_right_blank s, [])
      | Some i \<Rightarrow>
          (let l = take i s;
               l' = (if l \<noteq> [] \<and> last l = CHR 0x0D then butlast l else l)
           in (trim_right_blank l', drop (Suc i) s)))"

lemma get_line_shorter: "get_line s = (l, r) \<Longrightarrow> s \<noteq> [] \<Longrightarrow> length r < length s"
  by (auto simp: get_line_def Let_def split: option.splits dest!: index_byte_SomeD)

text \<open>The header loop: whether there was a header, and the text from the first other line.\<close>

function skip_headers :: "bool \<Rightarrow> string \<Rightarrow> (bool \<times> string) option" where
  "skip_headers any s =
     (if s = [] then None
      else if CHR '':'' \<in> set (fst (get_line s)) then skip_headers True (snd (get_line s))
      else Some (any, s))"
  by pat_completeness auto
termination
  by (relation "measure (\<lambda>(_, s). length s)")
    (auto intro: get_line_shorter [OF prod.collapse [symmetric]])

declare skip_headers.simps [simp del]

lemma skip_headers_length: "skip_headers any s = Some (h, r) \<Longrightarrow> length r \<le> length s"
proof (induction any s rule: skip_headers.induct)
  case (1 any s)
  show ?case
  proof (cases "s \<noteq> [] \<and> CHR '':'' \<in> set (fst (get_line s))")
    case True
    with "1.prems" have "skip_headers True (snd (get_line s)) = Some (h, r)"
      by (simp add: skip_headers.simps [of any s])
    with "1.IH" True have "length r \<le> length (snd (get_line s))" by blast
    also have "\<dots> < length s" using get_line_shorter [OF prod.collapse [symmetric]] True by blast
    finally show ?thesis by simp
  next
    case False
    with "1.prems" show ?thesis
      by (auto simp: skip_headers.simps [of any s] split: if_splits)
  qed
qed

text \<open>
  One pass of the outer loop, after the opening delimiter: go on with a rest, or stop with
  no block or with the bytes of one.
\<close>

definition pem_end :: "bool \<Rightarrow> string \<Rightarrow> (string \<times> string) option" where
  "pem_end headers r =
     (if \<not> headers \<and> has_prefix r ''-----END '' then Some ([], drop 9 r)
      else cut_str (nl # ''-----END '') r)"

definition pem_block :: "string \<Rightarrow> string + bytes option" where
  "pem_block s =
     (case get_line s of (tline, r1) \<Rightarrow>
        if \<not> has_suffix tline ''-----'' then Inl r1
        else (let ty = take (length tline - 5) tline; n = length ty + 5 in
          case skip_headers False r1 of
            None \<Rightarrow> Inr None
          | Some (headers, r2) \<Rightarrow>
              (case pem_end headers r2 of
                 None \<Rightarrow> Inl r2
               | Some (body, trailer) \<Rightarrow>
                   (let e = take n trailer in
                    if length trailer < n then Inl r2
                    else if \<not> (has_prefix e ty \<and> has_suffix e ''-----'') then Inl r2
                    else if fst (get_line (drop n trailer)) \<noteq> [] then Inl r2
                    else case b64_decode b64_std True (filter (\<lambda>c. c \<noteq> CHR '' '' \<and> c \<noteq> CHR 0x09) body) of
                           None \<Rightarrow> Inl r2
                         | Some b \<Rightarrow> Inr (Some b)))))"

definition pem_start :: "string \<Rightarrow> string option" where
  "pem_start s =
     (if has_prefix s ''-----BEGIN '' then Some (drop 11 s)
      else map_option snd (cut_str (nl # ''-----BEGIN '') s))"

lemma pem_start_shorter: "pem_start s = Some r \<Longrightarrow> length r < length s"
  by (auto simp: pem_start_def split: if_splits dest!: cut_SomeD has_prefixD)
    (metis diff_less drop_eq_Nil2 has_prefix_def length_drop length_greater_0_conv less_nat_zero_code
      list.distinct(1) not_le take_eq_Nil zero_less_numeral)

lemma get_line_length: "length (snd (get_line s)) \<le> length s"
proof (cases "s = []")
  case True
  then show ?thesis by (simp add: get_line_def)
next
  case False
  then show ?thesis
    using get_line_shorter [OF prod.collapse [symmetric] False] by simp
qed

lemma pem_block_length: "pem_block s = Inl r \<Longrightarrow> length r \<le> length s"
  using get_line_length [of s]
  by (auto simp: pem_block_def Let_def split: prod.splits if_splits option.splits
      dest!: skip_headers_length)

function pem_decode :: "string \<Rightarrow> bytes option" where
  "pem_decode s =
     (case pem_start s of
        None \<Rightarrow> None
      | Some r \<Rightarrow> (case pem_block r of Inl r' \<Rightarrow> pem_decode r' | Inr b \<Rightarrow> b))"
  by pat_completeness auto
termination
proof (relation "measure length")
  fix s r r'
  assume "pem_start s = Some r" "pem_block r = Inl r'"
  then show "(r', s) \<in> measure length"
    using pem_start_shorter [of s r] pem_block_length [of r r'] by simp
qed simp

declare pem_decode.simps [simp del]

section \<open>A block that was written is read\<close>

definition pem_text :: "string \<Rightarrow> bytes \<Rightarrow> string" where
  "pem_text ty b =
     ''-----BEGIN '' @ ty @ ''-----'' @ [nl] @ b64_encode b64_std True b @ [nl] @
     ''-----END '' @ ty @ ''-----''"

lemma b64_std_plain:
  "x \<in> set (b64_encode b64_std True b) \<Longrightarrow>
     x \<notin> set [nl, CHR 0x0D, CHR '' '', CHR 0x09, CHR '':'', CHR ''-'', CHR '','']"
  using set_b64_encode [OF b64_std_ok, of x True b]
  by (auto simp: b64_std_def b64_pad_def nl_def)

lemma trim_right_blank_id:
  "s = [] \<or> last s \<noteq> CHR '' '' \<and> last s \<noteq> CHR 0x09 \<Longrightarrow> trim_right_blank s = s"
  by (cases s rule: rev_cases) (auto simp: trim_right_blank_def)

lemma get_line_plain:
  assumes "nl \<notin> set l" "l = [] \<or> last l \<notin> set [CHR '' '', CHR 0x09, CHR 0x0D]"
  shows "get_line (l @ nl # r) = (l, r)"
proof -
  have "trim_right_blank l = l" using assms(2) by (intro trim_right_blank_id) auto
  then show ?thesis
    using assms index_byte_append [OF assms(1), of r] by (auto simp: get_line_def Let_def)
qed

lemma pem_block_text:
  assumes "nl \<notin> set ty"
  shows "pem_block (drop 11 (pem_text ty b)) = Inr (Some b)"
proof -
  let ?e = "b64_encode b64_std True b"
  let ?r = "?e @ nl # ''-----END '' @ ty @ ''-----''"
  have sp: "drop 11 (pem_text ty b) = (ty @ ''-----'') @ nl # ?r" by (simp add: pem_text_def)
  have l1: "get_line (drop 11 (pem_text ty b)) = (ty @ ''-----'', ?r)"
    unfolding sp by (rule get_line_plain) (use assms in \<open>auto simp: nl_def\<close>)
  have nls: "nl \<notin> set ?e" using b64_std_plain by auto
  have "?e = [] \<or> last ?e \<notin> set [CHR '' '', CHR 0x09, CHR 0x0D]"
    using b64_std_plain [OF last_in_set] by auto
  then have l2: "get_line ?r = (?e, ''-----END '' @ ty @ ''-----'')" by (rule get_line_plain [OF nls])
  have h: "skip_headers False ?r = Some (False, ?r)"
    unfolding skip_headers.simps [of False ?r] l2 using b64_std_plain [of "CHR '':''" b] by auto
  have "\<not> has_prefix ?r ''-----END ''"
    using b64_std_plain [of "CHR ''-''" b] by (cases ?e) (auto simp: nl_def)
  then have e: "pem_end False ?r = Some (?e, ty @ ''-----'')"
    using cut_first [OF nls, of "''-----END ''" "ty @ ''-----''"] by (simp add: pem_end_def)
  have f: "filter (\<lambda>c. c \<noteq> CHR '' '' \<and> c \<noteq> CHR 0x09) ?e = ?e"
    using b64_std_plain by (intro filter_True) auto
  have "get_line [] = ([], [])" by (simp add: get_line_def trim_right_blank_def)
  then show ?thesis
    by (simp add: pem_block_def l1 h [simplified] e [simplified] f Let_def b64_decode_encode [OF b64_std_ok])
qed

lemma pem_decode_text: "nl \<notin> set ty \<Longrightarrow> pem_decode (pem_text ty b) = Some b"
proof -
  assume ty: "nl \<notin> set ty"
  have "has_prefix (pem_text ty b) ''-----BEGIN ''" by (simp add: pem_text_def)
  then have "pem_start (pem_text ty b) = Some (drop 11 (pem_text ty b))"
    by (simp add: pem_start_def)
  with pem_block_text [OF ty] show ?thesis by (simp add: pem_decode.simps [of "pem_text ty b"])
qed

end
