(* ===== verification/Cmd_Token.thy ===== *)
theory Cmd_Token
  imports Config Go_Pem Api_Token "HOL-Library.Char_ord" "HOL-Library.List_Lexorder"
    "HOL-Library.Multiset"
begin

text \<open>
  \<open>cmd/artifact-store/token.go\<close>: loading the operator's Ed25519 keys at startup, inline or
  from a directory, and building the upload-token verifier. The file system is the
  parameter \<open>file_system\<close>.
\<close>

section \<open>The file system\<close>

record dir_entry =
  de_Name :: string
  de_IsDir :: bool

record file_system =
  fs_ReadDir :: "string \<Rightarrow> goerr + dir_entry list"
  fs_ReadFile :: "string \<Rightarrow> goerr + bytes"

text \<open>\<open>filepath.Clean\<close> and \<open>filepath.Join\<close> on a Unix path.\<close>

fun clean_parts :: "bool \<Rightarrow> string list \<Rightarrow> string list \<Rightarrow> string list" where
  "clean_parts rooted acc [] = rev acc"
| "clean_parts rooted acc (x # xs) =
     (if x = [] \<or> x = ''.'' then clean_parts rooted acc xs
      else if x = ''..'' then
        (case acc of
           [] \<Rightarrow> clean_parts rooted (if rooted then [] else [x]) xs
         | a # as \<Rightarrow> clean_parts rooted (if a = ''..'' then x # acc else as) xs)
      else clean_parts rooted (x # acc) xs)"

definition filepath_clean :: "string \<Rightarrow> string" where
  "filepath_clean p =
     (let rooted = has_prefix p ''/'';
          out = (if rooted then ''/'' else []) @
                join ''/'' (clean_parts rooted [] (split_byte CHR ''/'' p))
      in if out = [] then ''.'' else out)"

definition filepath_join :: "string \<Rightarrow> string \<Rightarrow> string" where
  "filepath_join dir name =
     (if dir = [] \<and> name = [] then []
      else if dir = [] then filepath_clean name
      else if name = [] then filepath_clean dir
      else filepath_clean (dir @ ''/'' @ name))"

section \<open>Keys\<close>

definition decodePubKey :: "string \<Rightarrow> goerr + bytes" where
  "decodePubKey raw0 =
     (let raw = trim_space raw0 in
      if raw = [] then Inl (Errorf [Lit ''key value is empty''])
      else if has_prefix raw ''-----BEGIN'' then
        (case pem_decode raw of
           None \<Rightarrow> Inl (Errorf [Lit ''PEM decode failed''])
         | Some b \<Rightarrow>
             if length b = PublicKeySize then Inr b
             else if length b \<ge> PublicKeySize then Inr (drop (length b - PublicKeySize) b)
             else Inl (Errorf [Lit (''PEM key too short: '' @ itoa (int (length b)) @ '' bytes'')]))
      else
        (case (if length raw = 2 * PublicKeySize then hex_decode raw else None) of
           Some b \<Rightarrow> Inr b
         | None \<Rightarrow>
             (case b64_decode b64_std True raw of
                None \<Rightarrow> Inl (Errorf [Lit ''neither hex nor base64: '', Wrp (Foreign ''base64'')])
              | Some b \<Rightarrow>
                  if length b \<noteq> PublicKeySize
                  then Inl (Errorf [Lit (''base64-decoded key is '' @ itoa (int (length b)) @
                         '' bytes, want '' @ itoa (int PublicKeySize))])
                  else Inr b)))"

text \<open>The walk of \<open>splitInlineEntries\<close>: commas split only at depth 0.\<close>

definition emit :: "string \<Rightarrow> string list" where
  "emit cur = (if trim_space cur \<noteq> [] then [trim_space cur] else [])"

fun pem_walk :: "int \<Rightarrow> string \<Rightarrow> string \<Rightarrow> string list" where
  "pem_walk depth cur [] = emit cur"
| "pem_walk depth cur (c # s) =
     (if depth = 0 \<and> c = CHR '','' then emit cur @ pem_walk depth [] s
      else
        (let d1 = (if has_prefix (c # s) ''-----BEGIN '' then depth + 1 else depth);
             d2 = (if has_prefix (c # s) ''-----END '' then d1 - 1 else d1)
         in pem_walk d2 (cur @ [c]) s))"

definition splitInlineEntries :: "string \<Rightarrow> string list" where
  "splitInlineEntries spec =
     (if \<not> contains spec ''-----BEGIN''
      then filter (\<lambda>e. trim_space e \<noteq> []) (split_byte CHR '','' spec)
      else pem_walk 0 [] spec)"

text \<open>The loop of \<open>parseInlinePubKeys\<close>; the keys parsed so far are its map.\<close>

fun parse_entries :: "(nat \<Rightarrow> bool) \<Rightarrow> nat \<Rightarrow> string list \<Rightarrow> pubkeys \<Rightarrow> goerr + pubkeys" where
  "parse_entries isp i [] out = Inr out"
| "parse_entries isp i (entry # es) out =
     (case index_byte CHR '':'' entry of
        None \<Rightarrow> Inl (Errorf [Lit (''entry '' @ itoa (int i) @ '': missing kid:value separator ('' @
                   [CHR 0x27] @ '':'' @ [CHR 0x27] @ '')'')])
      | Some colon \<Rightarrow>
          (let kid = trim_space (take colon entry);
               encoded = trim_space (drop (colon + 1) entry);
               place = ''entry '' @ itoa (int i) @ '' (kid='' @ go_quote isp kid @ ''): ''
           in if encoded = [] then Inl (Errorf [Lit (place @ ''empty key value'')])
              else case decodePubKey encoded of
                     Inl e \<Rightarrow> Inl (Errorf [Lit place, Wrp e])
                   | Inr key \<Rightarrow>
                       (if map_of out kid \<noteq> None then Inl (Errorf [Lit (place @ ''duplicate kid'')])
                        else parse_entries isp (i + 1) es (out @ [(kid, key)]))))"

definition parseInlinePubKeys :: "(nat \<Rightarrow> bool) \<Rightarrow> string \<Rightarrow> goerr + pubkeys" where
  "parseInlinePubKeys isp spec = parse_entries isp 0 (splitInlineEntries spec) []"

fun load_entries ::
  "(nat \<Rightarrow> bool) \<Rightarrow> file_system \<Rightarrow> string \<Rightarrow> dir_entry list \<Rightarrow> pubkeys \<Rightarrow> goerr + pubkeys" where
  "load_entries isp fs dir [] out = Inr out"
| "load_entries isp fs dir (e # es) out =
     (if de_IsDir e \<or> \<not> has_suffix (de_Name e) ''.pem'' then load_entries isp fs dir es out
      else
        (let kid = trim_suffix (de_Name e) ''.pem'';
             path = filepath_join dir (de_Name e)
         in case fs_ReadFile fs path of
              Inl err \<Rightarrow> Inl (Errorf [Lit (''read '' @ go_quote isp path @ '': ''), Wrp err])
            | Inr raw \<Rightarrow>
                (case decodePubKey (trim_space (bytes_str raw)) of
                   Inl err \<Rightarrow> Inl (Errorf [Lit (''parse '' @ go_quote isp path @ '' (kid='' @
                                go_quote isp kid @ ''): ''), Wrp err])
                 | Inr key \<Rightarrow>
                     (if map_of out kid \<noteq> None
                      then Inl (Errorf [Lit (''duplicate kid '' @ go_quote isp kid @ '' in dir '' @
                             go_quote isp dir)])
                      else load_entries isp fs dir es (out @ [(kid, key)])))))"

definition loadPubKeysDir :: "(nat \<Rightarrow> bool) \<Rightarrow> file_system \<Rightarrow> string \<Rightarrow> goerr + pubkeys" where
  "loadPubKeysDir isp fs dir =
     (case fs_ReadDir fs dir of
        Inl e \<Rightarrow> Inl (Errorf [Lit (''read dir '' @ go_quote isp dir @ '': ''), Wrp e])
      | Inr entries \<Rightarrow> load_entries isp fs dir entries [])"

definition sortedKids :: "pubkeys \<Rightarrow> string list" where
  "sortedKids keys = sort (map (\<lambda>(kid, _). if kid = [] then ''<empty>'' else kid) keys)"

section \<open>The verifier\<close>

definition load_keys :: "(nat \<Rightarrow> bool) \<Rightarrow> file_system \<Rightarrow> Config \<Rightarrow> goerr + pubkeys" where
  "load_keys isp fs cfg =
     (if OperatorPubKeys cfg \<noteq> [] then parseInlinePubKeys isp (OperatorPubKeys cfg)
      else loadPubKeysDir isp fs (OperatorPubKeysDir cfg))"

definition buildUploadTokenVerifier ::
  "sdk \<Rightarrow> file_system \<Rightarrow> Config \<Rightarrow> (goerr + pubkeys option) \<times> log_record list" where
  "buildUploadTokenVerifier k fs cfg =
     (let pol = RequireUploadToken cfg; isp = sdk_IsPrint k in
      if pol = ''off'' then
        (Inr None, [info ''upload token: disabled (relying on network segmentation)''
                      [(''event'', AStr ''artifact.config.upload_token_off'')]])
      else if pol \<noteq> ''optional'' \<and> pol \<noteq> ''required'' then
        (Inl (Errorf [Lit (''config: ARTIFACT_REQUIRE_UPLOAD_TOKEN='' @ go_quote isp pol @
                '' (want off|optional|required)'')]), [])
      else if OperatorPubKeys cfg = [] \<and> OperatorPubKeysDir cfg = [] then
        (Inl (Errorf [Lit (''config: ARTIFACT_REQUIRE_UPLOAD_TOKEN='' @ pol @
                '' requires ARTIFACT_OPERATOR_PUBKEYS or ARTIFACT_OPERATOR_PUBKEYS_DIR'')]), [])
      else if OperatorPubKeys cfg \<noteq> [] \<and> OperatorPubKeysDir cfg \<noteq> [] then
        (Inl (Errorf [Lit (''config: ARTIFACT_OPERATOR_PUBKEYS and ARTIFACT_OPERATOR_PUBKEYS_DIR are '' @
                ''mutually exclusive; pick one'')]), [])
      else case load_keys isp fs cfg of
        Inl e \<Rightarrow> (Inl (Errorf [Lit ''config: operator pubkeys: '', Wrp e]), [])
      | Inr keys \<Rightarrow>
          (if keys = [] then (Inl (Errorf [Lit ''config: operator pubkeys: no keys loaded'']), [])
           else case NewEd25519UploadTokenVerifier k keys of
             Inl e \<Rightarrow> (Inl (Errorf [Lit ''config: build verifier: '', Wrp e]), [])
           | Inr v \<Rightarrow>
               (Inr (Some v),
                [info ''upload token: enabled''
                   [(''event'', AStr ''artifact.config.upload_token_enabled''),
                    (''policy'', AStr pol),
                    (''operator_kids'', AStrs (sortedKids keys))]])))"

section \<open>Loaded keys are well formed\<close>

definition keys_ok :: "pubkeys \<Rightarrow> bool" where
  "keys_ok keys \<longleftrightarrow> distinct (map fst keys) \<and> (\<forall>(kid, pk) \<in> set keys. length pk = PublicKeySize)"

lemma keys_ok_Nil [simp]: "keys_ok []"
  by (simp add: keys_ok_def)

lemma keys_ok_snoc:
  "keys_ok out \<Longrightarrow> map_of out kid = None \<Longrightarrow> length pk = PublicKeySize \<Longrightarrow> keys_ok (out @ [(kid, pk)])"
  by (auto simp: keys_ok_def map_of_eq_None_iff)

lemma decodePubKey_length: "decodePubKey raw = Inr b \<Longrightarrow> length b = PublicKeySize"
  by (auto simp: decodePubKey_def Let_def PublicKeySize_def split: if_splits option.splits
      dest!: hex_decode_length)

lemma parse_entries_ok: "parse_entries isp i es out = Inr keys \<Longrightarrow> keys_ok out \<Longrightarrow> keys_ok keys"
  by (induction isp i es out rule: parse_entries.induct)
    (auto simp: Let_def keys_ok_snoc decodePubKey_length split: option.splits if_splits sum.splits)

lemma load_entries_ok: "load_entries isp fs dir es out = Inr keys \<Longrightarrow> keys_ok out \<Longrightarrow> keys_ok keys"
  by (induction isp fs dir es out rule: load_entries.induct)
    (auto simp: Let_def keys_ok_snoc decodePubKey_length split: option.splits if_splits sum.splits)

lemma load_keys_ok: "load_keys isp fs cfg = Inr keys \<Longrightarrow> keys_ok keys"
  by (auto simp: load_keys_def parseInlinePubKeys_def loadPubKeysDir_def parse_entries_ok
      load_entries_ok split: if_splits sum.splits)

lemma first_bad_key_None: "keys_ok keys \<Longrightarrow> first_bad_key keys = None"
  by (induction keys rule: first_bad_key.induct) (auto simp: keys_ok_def)

lemma verifier_constructed: "keys_ok keys \<Longrightarrow> keys \<noteq> [] \<Longrightarrow> NewEd25519UploadTokenVerifier k keys = Inr keys"
  by (simp add: NewEd25519UploadTokenVerifier_def first_bad_key_None)

lemma sortedKids_sorted: "sorted (sortedKids keys)"
  by (simp add: sortedKids_def)

lemma mset_sortedKids:
  "mset (sortedKids keys) = image_mset (\<lambda>(kid, _). if kid = [] then ''<empty>'' else kid) (mset keys)"
  by (simp add: sortedKids_def)


text \<open>What a verifier that was built is made of.\<close>

lemma build_verifier_cases:
  assumes "buildUploadTokenVerifier k fs cfg = (Inr v, logs)"
  obtains (off) "RequireUploadToken cfg = ''off''" "v = None"
  | (keys) keys where "RequireUploadToken cfg \<in> {''optional'', ''required''}" "v = Some keys"
      "keys \<noteq> []" "keys_ok keys" "load_keys (sdk_IsPrint k) fs cfg = Inr keys"
      "(OperatorPubKeys cfg = []) \<noteq> (OperatorPubKeysDir cfg = [])"
proof (cases "RequireUploadToken cfg = ''off''")
  case True
  with assms off show thesis by (simp add: buildUploadTokenVerifier_def)
next
  case False
  note b = assms [unfolded buildUploadTokenVerifier_def Let_def if_not_P [OF False]]
  from b have pol: "RequireUploadToken cfg \<in> {''optional'', ''required''}"
    by (simp split: if_splits)
  from b have src: "(OperatorPubKeys cfg = []) \<noteq> (OperatorPubKeysDir cfg = [])"
    by (simp split: if_splits) blast
  from b obtain ks where l: "load_keys (sdk_IsPrint k) fs cfg = Inr ks"
    by (cases "load_keys (sdk_IsPrint k) fs cfg") (simp_all split: if_splits)
  note ok = load_keys_ok [OF l]
  from b l have ne: "ks \<noteq> []" by (auto split: if_splits)
  have "v = Some ks" using b by (simp add: l ne verifier_constructed [OF ok ne] split: if_splits)
  with keys [OF pol _ ne ok l src] show thesis by blast
qed

section \<open>An inline list that was written is read\<close>

text \<open>The three encodings of a key, and the text of an entry.\<close>

datatype key_form = KHex | KBase64 | KPem string bytes

fun encode_key :: "key_form \<Rightarrow> bytes \<Rightarrow> string" where
  "encode_key KHex pk = hex_encode pk"
| "encode_key KBase64 pk = b64_encode b64_std True pk"
| "encode_key (KPem ty wrap) pk = pem_text ty (wrap @ pk)"

definition entry_text :: "string \<times> key_form \<times> bytes \<Rightarrow> string" where
  "entry_text = (\<lambda>(kid, f, pk). kid @ '':'' @ encode_key f pk)"

text \<open>No two dashes in a row.\<close>

fun no_dashes :: "string \<Rightarrow> bool" where
  "no_dashes [] = True"
| "no_dashes [c] = True"
| "no_dashes (c # d # s) = (\<not> (c = CHR ''-'' \<and> d = CHR ''-'') \<and> no_dashes (d # s))"

definition ends_graphic :: "string \<Rightarrow> bool" where
  "ends_graphic s = (s = [] \<or> graphic (hd s) \<and> graphic (last s))"

fun entry_ok :: "string \<times> key_form \<times> bytes \<Rightarrow> bool" where
  "entry_ok (kid, f, pk) \<longleftrightarrow>
     length pk = PublicKeySize \<and> ends_graphic kid \<and> no_dashes kid \<and> CHR '':'' \<notin> set kid \<and> CHR '','' \<notin> set kid \<and>
     (case f of KPem ty wrap \<Rightarrow> CHR ''-'' \<notin> set ty \<and> CHR '','' \<notin> set ty \<and> nl \<notin> set ty | _ \<Rightarrow> True)"

lemma trim_space_ends: "ends_graphic s \<Longrightarrow> trim_space s = s"
  using trim_space_graphic [of s] by (cases "s = []") (auto simp: ends_graphic_def)

lemma length_b64_encode: "length (b64_encode al True bs) = 4 * ((length bs + 2) div 3)"
proof (induction al "True" bs rule: b64_encode.induct)
  case (4 al a b c r)
  have "(5 + length r) div 3 = Suc (Suc (Suc (length r)) div 3)" by simp
  with 4 show ?case by (simp add: Let_def)
qed (simp_all add: Let_def)

lemma hex_char_graphic: "c \<in> set hex_chars \<Longrightarrow> graphic c \<and> c \<notin> set '':,-''"
  by (auto simp: hex_chars_def graphic_def)

lemma b64_char_graphic:
  assumes "c \<in> set (b64_encode b64_std True b)"
  shows "graphic c \<and> c \<notin> set '':,-''"
  using set_b64_encode [OF b64_std_ok assms] by (auto simp: b64_std_def b64_pad_def graphic_def)

lemma encode_key_ends:
  assumes "length pk = PublicKeySize"
  shows "encode_key f pk \<noteq> [] \<and> graphic (hd (encode_key f pk)) \<and> graphic (last (encode_key f pk))"
proof -
  have pk: "pk \<noteq> []" using assms by (auto simp: PublicKeySize_def)
  show ?thesis
  proof (cases f)
    case KHex
    have ne: "hex_encode pk \<noteq> []" using pk by (metis length_0_conv length_hex_encode mult_eq_0_iff zero_neq_numeral)
    with set_hex_encode [of pk] hex_char_graphic show ?thesis
      by (simp add: KHex) (meson hd_in_set last_in_set subsetD)
  next
    case KBase64
    have "b64_encode b64_std True pk \<noteq> []" using pk by simp
    with b64_char_graphic [OF hd_in_set] b64_char_graphic [OF last_in_set] show ?thesis
      by (simp add: KBase64)
  next
    case (KPem ty wrap)
    then show ?thesis by (simp add: pem_text_def graphic_def)
  qed
qed

lemma decodePubKey_encode:
  assumes "length pk = PublicKeySize" "case f of KPem ty wrap \<Rightarrow> nl \<notin> set ty | _ \<Rightarrow> True"
  shows "decodePubKey (encode_key f pk) = Inr pk"
proof -
  note e = encode_key_ends [OF assms(1), of f]
  then have t: "trim_space (encode_key f pk) = encode_key f pk" by (simp add: trim_space_graphic)
  show ?thesis
  proof (cases f)
    case KHex
    have "\<not> has_prefix (hex_encode pk) ''-----BEGIN''"
      using e KHex set_hex_encode [of pk] hex_char_graphic [of "CHR ''-''"]
      by (cases "hex_encode pk") auto
    with e t show ?thesis by (simp add: KHex decodePubKey_def assms(1))
  next
    case KBase64
    have "\<not> has_prefix (b64_encode b64_std True pk) ''-----BEGIN''"
      using e KBase64 b64_char_graphic [of "CHR ''-''" pk]
      by (cases "b64_encode b64_std True pk") auto
    moreover have "length (b64_encode b64_std True pk) = 44"
      using assms(1) by (simp add: length_b64_encode PublicKeySize_def)
    ultimately show ?thesis using e t assms(1)
      by (simp add: KBase64 decodePubKey_def b64_decode_encode [OF b64_std_ok] PublicKeySize_def)
  next
    case (KPem ty wrap)
    have "has_prefix (pem_text ty (wrap @ pk)) ''-----BEGIN''" by (simp add: pem_text_def)
    with e t assms show ?thesis
      by (simp add: KPem decodePubKey_def pem_decode_text PublicKeySize_def Let_def)
  qed
qed

text \<open>The walk passes over text without two dashes in a row, and tracks the delimiters.\<close>

lemma no_delimiter:
  assumes "\<not> (c = CHR ''-'' \<and> has_prefix s ''-'')"
  shows "\<not> has_prefix (c # s) ''-----BEGIN ''" "\<not> has_prefix (c # s) ''-----END ''"
  using assms by (cases s; auto)+

lemma walk_step:
  assumes "\<not> (c = CHR ''-'' \<and> has_prefix s ''-'')" "d \<noteq> 0 \<or> c \<noteq> CHR '',''"
  shows "pem_walk d cur (c # s) = pem_walk d (cur @ [c]) s"
  using assms(2) no_delimiter [OF assms(1)] by (simp only: pem_walk.simps Let_def if_False) auto

lemma walk_begin: "pem_walk d cur (''-----BEGIN '' @ rest) = pem_walk (d + 1) (cur @ ''-----BEGIN '') rest"
  by (simp add: Let_def)

lemma walk_end: "pem_walk d cur (''-----END '' @ rest) = pem_walk (d - 1) (cur @ ''-----END '') rest"
  by (simp add: Let_def)

lemma walk_dashes:
  assumes "rest = [] \<or> hd rest \<notin> set ''-BE''"
  shows "pem_walk d cur (''-----'' @ rest) = pem_walk d (cur @ ''-----'') rest"
  using assms by (cases rest) (auto simp: Let_def)

declare pem_walk.simps(2) [simp del]

lemma walk_plain:
  assumes "no_dashes seg" "seg = [] \<or> last seg \<noteq> CHR ''-'' \<or> \<not> has_prefix rest ''-''"
    and "d \<noteq> 0 \<or> CHR '','' \<notin> set seg"
  shows "pem_walk d cur (seg @ rest) = pem_walk d (cur @ seg) rest"
  using assms
proof (induction seg arbitrary: cur rule: no_dashes.induct)
  case 1
  then show ?case by simp
next
  case (2 c)
  then show ?case using walk_step [of c rest d cur] by auto
next
  case (3 c e s)
  then have "pem_walk d cur (c # e # s @ rest) = pem_walk d (cur @ [c]) (e # s @ rest)"
    by (intro walk_step) auto
  with 3 show ?case by simp
qed

lemma no_dashes_absent: "CHR ''-'' \<notin> set s \<Longrightarrow> no_dashes s"
  by (induction s rule: no_dashes.induct) auto

lemma no_dashes_append:
  "no_dashes a \<Longrightarrow> no_dashes b \<Longrightarrow> \<not> has_prefix b ''-'' \<Longrightarrow> no_dashes (a @ b)"
  by (induction a rule: no_dashes.induct; cases b) auto

lemma b64_no_dashes: "no_dashes (b64_encode b64_std True b)"
  using b64_char_graphic [of "CHR ''-''" b] by (auto intro: no_dashes_absent)

lemma hex_no_dash: "CHR ''-'' \<notin> set (hex_encode b)" "CHR '','' \<notin> set (hex_encode b)"
  using set_hex_encode [of b] hex_char_graphic [of "CHR ''-''"] hex_char_graphic [of "CHR '',''"] by auto

lemma walk_pem_text:
  assumes "CHR ''-'' \<notin> set ty" "CHR '','' \<notin> set ty" "nl \<notin> set ty" "rest = [] \<or> hd rest \<notin> set ''-BE''"
  shows "pem_walk 0 cur (pem_text ty b @ rest) = pem_walk 0 (cur @ pem_text ty b) rest"
proof -
  let ?e = "b64_encode b64_std True b"
  have ty: "no_dashes ty" "ty = [] \<or> last ty \<noteq> CHR ''-''"
    using assms(1) no_dashes_absent [OF assms(1)] last_in_set by (blast, fastforce)
  have body: "no_dashes ([nl] @ ?e @ [nl])" "last ([nl] @ ?e @ [nl]) \<noteq> CHR ''-''"
    using b64_char_graphic [of "CHR ''-''" b] by (auto intro!: no_dashes_absent simp: nl_def)
  let ?b = "[nl] @ ?e @ [nl]"
  have "pem_walk 0 cur (pem_text ty b @ rest) =
      pem_walk 0 cur (''-----BEGIN '' @ ty @ ''-----'' @ ?b @ ''-----END '' @ ty @ ''-----'' @ rest)"
    by (simp only: pem_text_def append_assoc)
  also have "\<dots> = pem_walk 1 (cur @ ''-----BEGIN '') (ty @ ''-----'' @ ?b @ ''-----END '' @ ty @ ''-----'' @ rest)"
    unfolding walk_begin by (simp only: add_0)
  also have "\<dots> = pem_walk 1 ((cur @ ''-----BEGIN '') @ ty) (''-----'' @ ?b @ ''-----END '' @ ty @ ''-----'' @ rest)"
    by (rule walk_plain) (use ty in auto)
  also have "\<dots> = pem_walk 1 (((cur @ ''-----BEGIN '') @ ty) @ ''-----'') (?b @ ''-----END '' @ ty @ ''-----'' @ rest)"
    by (rule walk_dashes) (simp add: nl_def)
  also have "\<dots> = pem_walk 1 ((((cur @ ''-----BEGIN '') @ ty) @ ''-----'') @ ?b) (''-----END '' @ ty @ ''-----'' @ rest)"
    by (rule walk_plain) (use body in auto)
  also have "\<dots> = pem_walk 0 (((((cur @ ''-----BEGIN '') @ ty) @ ''-----'') @ ?b) @ ''-----END '') (ty @ ''-----'' @ rest)"
    unfolding walk_end by (simp only: diff_self)
  also have "\<dots> = pem_walk 0 ((((((cur @ ''-----BEGIN '') @ ty) @ ''-----'') @ ?b) @ ''-----END '') @ ty) (''-----'' @ rest)"
    by (rule walk_plain) (use ty assms(2) in auto)
  also have "\<dots> = pem_walk 0 (((((((cur @ ''-----BEGIN '') @ ty) @ ''-----'') @ ?b) @ ''-----END '') @ ty) @ ''-----'') rest"
    by (rule walk_dashes [OF assms(4)])
  also have "\<dots> = pem_walk 0 (cur @ pem_text ty b) rest"
    by (simp only: pem_text_def append_assoc)
  finally show ?thesis .
qed

lemma walk_entry:
  assumes "entry_ok e" "rest = [] \<or> hd rest = CHR '',''"
  shows "pem_walk 0 [] (entry_text e @ rest) = pem_walk 0 (entry_text e) rest"
proof -
  obtain kid f pk where e: "e = (kid, f, pk)" by (cases e)
  have r: "rest = [] \<or> hd rest \<notin> set ''-BE''" "\<not> has_prefix rest ''-''"
    using assms(2) by (cases rest; auto)+
  have kid: "no_dashes (kid @ '':'')" "CHR '','' \<notin> set kid"
    using assms(1) by (auto simp: e intro: no_dashes_append)
  have plain: "pem_walk 0 [] ((kid @ '':'' @ x) @ rest) = pem_walk 0 (kid @ '':'' @ x) rest"
    if "CHR ''-'' \<notin> set x" "CHR '','' \<notin> set x" for x
  proof -
    have "no_dashes ('':'' @ x)" using that(1) by (auto intro: no_dashes_absent)
    with assms(1) have "no_dashes (kid @ '':'' @ x)" by (auto simp: e intro!: no_dashes_append)
    with walk_plain [of "kid @ '':'' @ x" rest 0 "[]"] r that(2) kid(2) show ?thesis by simp
  qed
  show ?thesis
  proof (cases f)
    case KHex
    with plain [OF hex_no_dash(1) hex_no_dash(2), of pk] show ?thesis by (simp add: e entry_text_def)
  next
    case KBase64
    with plain [of "b64_encode b64_std True pk"] b64_char_graphic [of "CHR ''-''" pk]
      b64_char_graphic [of "CHR '',''" pk] show ?thesis by (auto simp: e entry_text_def)
  next
    case (KPem ty wrap)
    have "pem_walk 0 [] ((kid @ '':'') @ pem_text ty (wrap @ pk) @ rest) =
        pem_walk 0 ([] @ kid @ '':'') (pem_text ty (wrap @ pk) @ rest)"
      by (rule walk_plain [OF kid(1)]) (use kid(2) in auto)
    also have "\<dots> = pem_walk 0 (([] @ kid @ '':'') @ pem_text ty (wrap @ pk)) rest"
      by (rule walk_pem_text [OF _ _ _ r(1)]) (use assms(1) in \<open>simp_all add: e KPem\<close>)
    finally show ?thesis by (simp add: e KPem entry_text_def)
  qed
qed

lemma entry_text_ends: "entry_ok e \<Longrightarrow> ends_graphic (entry_text e) \<and> entry_text e \<noteq> []"
proof -
  assume "entry_ok e"
  moreover obtain kid f pk where e: "e = (kid, f, pk)" by (cases e)
  moreover have "graphic (CHR '':'')" by (simp add: graphic_def)
  ultimately show ?thesis
    using encode_key_ends [of pk f] by (cases kid) (auto simp: entry_text_def ends_graphic_def)
qed

lemma walk_entries:
  "es \<noteq> [] \<Longrightarrow> \<forall>e \<in> set es. entry_ok e \<Longrightarrow>
   pem_walk 0 [] (join '','' (map entry_text es)) = map entry_text es"
proof (induction es rule: list_nonempty_induct)
  case (single e)
  then show ?case
    using walk_entry [of e "[]"] entry_text_ends [of e] by (simp add: emit_def trim_space_ends)
next
  case (cons e es)
  then obtain e' es' where es: "es = e' # es'" by (cases es) auto
  have "pem_walk 0 [] (entry_text e @ '','' @ join '','' (map entry_text es)) =
      pem_walk 0 (entry_text e) ('','' @ join '','' (map entry_text es))"
    by (rule walk_entry) (use cons.prems in simp_all)
  also have "\<dots> = emit (entry_text e) @ pem_walk 0 [] (join '','' (map entry_text es))"
    by (simp add: pem_walk.simps(2))
  finally show ?case
    using cons entry_text_ends [of e] by (simp add: es emit_def trim_space_ends)
qed

lemma join_member: "w \<in> set ws \<Longrightarrow> \<exists>a b. join sep ws = a @ w @ b"
proof (induction sep ws rule: join.induct)
  case (3 sep x v vs)
  show ?case
  proof (cases "w = x")
    case True
    then have "join sep (x # v # vs) = [] @ w @ sep @ join sep (v # vs)" by simp
    then show ?thesis by blast
  next
    case False
    with 3 obtain a b where "join sep (v # vs) = a @ w @ b" by auto
    then have "join sep (x # v # vs) = (x @ sep @ a) @ w @ b" by simp
    then show ?thesis by blast
  qed
next
  case (2 sep x)
  then have "join sep [x] = [] @ w @ []" by simp
  then show ?case by blast
qed simp

lemma split_byte_join:
  "ws \<noteq> [] \<Longrightarrow> \<forall>w \<in> set ws. c \<notin> set w \<Longrightarrow> split_byte c (join [c] ws) = ws"
  by (induction "[c]" ws rule: join.induct) (auto simp: split_byte_no_sep split_byte_append)

lemma splitInlineEntries_join:
  assumes "es \<noteq> []" "\<forall>e \<in> set es. entry_ok e"
  shows "splitInlineEntries (join '','' (map entry_text es)) = map entry_text es"
proof (cases "contains (join '','' (map entry_text es)) ''-----BEGIN''")
  case True
  then show ?thesis using walk_entries [OF assms] by (simp add: splitInlineEntries_def)
next
  case False
  have "CHR '','' \<notin> set (entry_text e)" if mem: "e \<in> set es" for e
  proof -
    obtain kid f pk where e: "e = (kid, f, pk)" by (cases e)
    obtain a b where j: "join '','' (map entry_text es) = a @ entry_text e @ b"
      using join_member [of "entry_text e" "map entry_text es" "'',''"] mem by auto
    have "\<not> (\<exists>ty wrap. f = KPem ty wrap)"
    proof
      assume "\<exists>ty wrap. f = KPem ty wrap"
      then obtain ty wrap where "f = KPem ty wrap" by blast
      then have "entry_text e = (kid @ '':'') @ ''-----BEGIN'' @ drop 10 (encode_key f pk)"
        by (simp add: e entry_text_def pem_text_def)
      with j False contains_append [of "a @ kid @ '':''" "''-----BEGIN''"] show False
        by (metis append_assoc)
    qed
    with assms(2) mem hex_no_dash [of pk] b64_char_graphic [of "CHR '',''" pk] show ?thesis
      by (cases f) (auto simp: e entry_text_def)
  qed
  then have "split_byte CHR '','' (join '','' (map entry_text es)) = map entry_text es"
    using assms(1) by (intro split_byte_join) auto
  moreover have "\<forall>e \<in> set es. trim_space (entry_text e) \<noteq> []"
    using assms(2) entry_text_ends trim_space_ends by fastforce
  ultimately show ?thesis using False by (simp add: splitInlineEntries_def o_def)
qed

definition entry_key :: "string \<times> key_form \<times> bytes \<Rightarrow> string \<times> bytes" where
  "entry_key = (\<lambda>(kid, f, pk). (kid, pk))"

lemma parse_entries_texts:
  "\<forall>e \<in> set es. entry_ok e \<Longrightarrow> distinct (map fst out @ map fst es) \<Longrightarrow>
   parse_entries isp i (map entry_text es) out = Inr (out @ map entry_key es)"
proof (induction es arbitrary: i out)
  case Nil
  then show ?case by simp
next
  case (Cons e es)
  obtain kid f pk where e: "e = (kid, f, pk)" by (cases e)
  note ok = Cons.prems(1)
  have pk: "length pk = PublicKeySize" "ends_graphic kid" "CHR '':'' \<notin> set kid"
      "case f of KPem ty wrap \<Rightarrow> nl \<notin> set ty | _ \<Rightarrow> True"
    using ok by (auto simp: e split: key_form.splits)
  note ek = encode_key_ends [OF pk(1), of f]
  have "index_byte CHR '':'' (entry_text e) = Some (length kid)"
    using index_byte_append [OF pk(3)] by (simp add: e entry_text_def)
  moreover have "take (length kid) (entry_text e) = kid"
      "drop (length kid + 1) (entry_text e) = encode_key f pk"
    by (simp_all add: e entry_text_def)
  moreover have "trim_space kid = kid" "trim_space (encode_key f pk) = encode_key f pk"
    using pk(2) ek by (simp_all add: trim_space_ends trim_space_graphic)
  moreover have "map_of out kid = None"
    using Cons.prems(2) by (auto simp: e map_of_eq_None_iff)
  moreover have "parse_entries isp (i + 1) (map entry_text es) (out @ [(kid, pk)]) =
      Inr ((out @ [(kid, pk)]) @ map entry_key es)"
    using Cons.prems by (intro Cons.IH) (auto simp: e)
  ultimately show ?case
    using ek decodePubKey_encode [OF pk(1,4)] by (simp add: e Let_def entry_key_def)
qed

lemma parseInlinePubKeys_join:
  assumes "es \<noteq> []" "\<forall>e \<in> set es. entry_ok e" "distinct (map fst es)"
  shows "parseInlinePubKeys isp (join '','' (map entry_text es)) = Inr (map entry_key es)"
  using splitInlineEntries_join [OF assms(1,2)] parse_entries_texts [OF assms(2), of "[]"] assms(3)
  by (simp add: parseInlinePubKeys_def)

end
