(* ===== verification/Cmd_Main.thy ===== *)
theory Cmd_Main
  imports Cmd_Token Backend_Gcs Backend_Rustfs Backend_Mirrored Backend_Memory Ks_Vault Ks_Gcpkms Ks_Pkcs11
begin

text \<open>
  \<open>cmd/artifact-store/main.go\<close> and \<open>keyservice.go\<close>: from the environment to the running
  service. The HTTP clients the constructors make, the default credentials, the loader of
  PKCS\#11 modules and the SDK's in-memory store are parameters.
\<close>

section \<open>Backends\<close>

text \<open>
  A backend lives in its own memory or on the network; one state type holds both, so that
  the constructors have one result type.
\<close>

record ('s, 'w) side =
  sd_memory :: 's
  sd_net :: 'w

definition lift_bp :: "('t \<Rightarrow> 's) \<Rightarrow> ('s \<Rightarrow> 't \<Rightarrow> 't) \<Rightarrow> 's BackendProvider \<Rightarrow> 't BackendProvider" where
  "lift_bp get put bp =
     \<lparr>bp_Push = (\<lambda>c d t. case bp_Push bp c d (get t) of (r, s) \<Rightarrow> (r, put s t)),
      bp_Fetch = (\<lambda>c t. case bp_Fetch bp c (get t) of (r, s) \<Rightarrow> (r, put s t)),
      bp_Pin = (\<lambda>c t. case bp_Pin bp c (get t) of (r, s) \<Rightarrow> (r, put s t)),
      bp_Exists = (\<lambda>c t. case bp_Exists bp c (get t) of (r, s) \<Rightarrow> (r, put s t)),
      bp_Delete = (\<lambda>c t. case bp_Delete bp c (get t) of (r, s) \<Rightarrow> (r, put s t)),
      bp_Resolve = (\<lambda>c e t. case bp_Resolve bp c e (get t) of (r, s) \<Rightarrow> (r, put s t)),
      bp_Healthy = (\<lambda>t. case bp_Healthy bp (get t) of (r, s) \<Rightarrow> (r, put s t))\<rparr>"

definition on_memory :: "'s BackendProvider \<Rightarrow> ('s, 'w) side BackendProvider" where
  "on_memory = lift_bp sd_memory (\<lambda>s t. t\<lparr>sd_memory := s\<rparr>)"

definition on_net :: "'w BackendProvider \<Rightarrow> ('s, 'w) side BackendProvider" where
  "on_net = lift_bp sd_net (\<lambda>w t. t\<lparr>sd_net := w\<rparr>)"

definition NewGCSBackend :: "'w net \<Rightarrow> 'w GCSConfig \<Rightarrow> 'w GCSBackend" where
  "NewGCSBackend client cfg = \<lparr>g_cfg = cfg, g_client = client\<rparr>"

definition NewRustFSBackend :: "'w net \<Rightarrow> 'w RustFSConfig \<Rightarrow> 'w RustFSBackend" where
  "NewRustFSBackend client cfg = \<lparr>r_cfg = cfg, r_client = client\<rparr>"

text \<open>The token function and the signers are not set: no setting reaches them.\<close>

definition main_gcs :: "'w net \<Rightarrow> Config \<Rightarrow> bool \<Rightarrow> 'w GCSBackend" where
  "main_gcs client cfg isMirror =
     NewGCSBackend client
       \<lparr>gc_Bucket = (if isMirror then MirrorBucket cfg else Bucket cfg), gc_Prefix = Prefix cfg,
        gc_TokenFunc = None, gc_URLSigner = None, gc_BaseURL = []\<rparr>"

definition main_rustfs :: "'w net \<Rightarrow> Config \<Rightarrow> bool \<Rightarrow> 'w RustFSBackend" where
  "main_rustfs client cfg isMirror =
     NewRustFSBackend client
       \<lparr>rf_Endpoint = (if isMirror then MirrorEndpoint cfg else Endpoint cfg),
        rf_Bucket = (if isMirror then MirrorBucket cfg else Bucket cfg), rf_Region = Region cfg,
        rf_Prefix = Prefix cfg, rf_PathStyle = PathStyle cfg, rf_RequestSigner = None, rf_URLSigner = None\<rparr>"

definition createBackend ::
  "sdk \<Rightarrow> 's memory_sdk \<Rightarrow> 'w net \<Rightarrow> string \<Rightarrow> Config \<Rightarrow> bool \<Rightarrow> goerr + ('s, 'w) side BackendProvider" where
  "createBackend k ms client name cfg isMirror =
     (if name = ''memory'' then Inr (on_memory (InMemoryBackend ms))
      else if name = ''gcs'' then Inr (on_net (GCS_provider k (main_gcs client cfg isMirror)))
      else if name = ''rustfs'' then Inr (on_net (RustFS_provider k (main_rustfs client cfg isMirror)))
      else Inl (Errorf [Lit (''unknown backend '' @ go_quote (sdk_IsPrint k) name)]))"

text \<open>
  \<open>initBackend\<close>: the primary alone, or the two in a \<open>MirroredStore\<close>; \<open>p\<close> and \<open>m\<close> are what
  the two talk to.
\<close>

type_synonym ('s, 'w) store = "(('s, 'w) side, ('s, 'w) side) mirrored"

definition primary_only :: "('s, 'w) side BackendProvider \<Rightarrow> ('s, 'w) store BackendProvider" where
  "primary_only = lift_bp mi_primary (\<lambda>p t. t\<lparr>mi_primary := p\<rparr>)"

definition initBackend ::
  "sdk \<Rightarrow> 's memory_sdk \<Rightarrow> 'w net \<Rightarrow> Config \<Rightarrow> ('s, 'w) side \<Rightarrow> ('s, 'w) side \<Rightarrow>
   goerr + ('s, 'w) store BackendProvider \<times> ('s, 'w) store" where
  "initBackend k ms client cfg p m =
     (case createBackend k ms client (Backend cfg) cfg False of
        Inl e \<Rightarrow> Inl (Errorf [Lit ''primary backend: '', Wrp e])
      | Inr primary \<Rightarrow>
          (if MirrorBackend cfg \<noteq> [] then
             (case createBackend k ms client (MirrorBackend cfg) cfg True of
                Inl e \<Rightarrow> Inl (Errorf [Lit ''mirror backend: '', Wrp e])
              | Inr mirror \<Rightarrow> Inr (MirroredStore k primary mirror, NewMirroredStore (MirrorMode cfg) p m))
           else Inr (primary_only primary, \<lparr>mi_primary = p, mi_mirror = m, mi_log = []\<rparr>)))"

section \<open>The watchdog\<close>

text \<open>
  What the goroutine's \<open>select\<close> receives, in order: a tick of the ticker, or the
  cancellation of the context. The flag says whether it has returned.
\<close>

datatype wd_event = Tick | Done

definition verify_warning :: "Config \<Rightarrow> log_record" where
  "verify_warning cfg =
     warn ''VerifyOnPush is disabled. This is a severe misconfiguration in production environments.''
       [(''event'', AStr ''artifact.config.verify_on_push_disabled''), (''env'', AStr (Env cfg))]"

fun watchdog_loop :: "log_record \<Rightarrow> wd_event list \<Rightarrow> log_record list \<times> bool" where
  "watchdog_loop msg [] = ([], False)"
| "watchdog_loop msg (Done # es) = ([], True)"
| "watchdog_loop msg (Tick # es) = (case watchdog_loop msg es of (lg, done) \<Rightarrow> (msg # lg, done))"

definition runVerifyOnPushWatchdog :: "Config \<Rightarrow> wd_event list \<Rightarrow> log_record list \<times> bool" where
  "runVerifyOnPushWatchdog cfg es =
     (if VerifyOnPush cfg then ([], True)
      else if Env cfg \<noteq> ''production'' then ([verify_warning cfg], True)
      else case watchdog_loop (verify_warning cfg) es of (lg, done) \<Rightarrow> (verify_warning cfg # lg, done))"

section \<open>The key service\<close>

text \<open>The service \<open>main\<close> selected; the SDK's in-memory one is not part of this repository.\<close>

datatype 'w keyservice =
    KsMemory
  | KsVault "'w VaultTransit"
  | KsGCPKMS "'w GCPKMS"
  | KsPKCS11 "'w PKCS11"

definition vault_settings :: "Config \<Rightarrow> VaultTransitConfig" where
  "vault_settings cfg =
     \<lparr>vt_Endpoint = VaultEndpoint cfg, vt_Token = VaultToken cfg, vt_TransitMount = VaultTransitMount cfg,
      vt_KVMount = VaultKVMount cfg, vt_KVNamespace = VaultKVNamespace cfg\<rparr>"

definition gcpkms_settings :: "Config \<Rightarrow> GCPKMSConfig" where
  "gcpkms_settings cfg =
     \<lparr>gk_KEKResourceName = GCPKMSKEKResource cfg, gk_FirestoreProjectID = GCPFirestoreProjectID cfg,
      gk_FirestoreDatabase = GCPFirestoreDatabase cfg, gk_FirestoreCollection = GCPFirestoreCollection cfg,
      gk_KMSEndpoint = [], gk_FirestoreEndpoint = []\<rparr>"

definition pkcs11_settings :: "Config \<Rightarrow> PKCS11Config" where
  "pkcs11_settings cfg =
     \<lparr>pc_ModulePath = PKCS11ModulePath cfg, pc_TokenLabel = PKCS11TokenLabel cfg, pc_Pin = PKCS11Pin cfg,
      pc_KeyLabelPrefix = []\<rparr>"

definition initKeyService ::
  "(nat \<Rightarrow> bool) \<Rightarrow> 'w net \<Rightarrow> goerr + 'w net \<Rightarrow> (string \<Rightarrow> 'w p11ctx option) \<Rightarrow> Config \<Rightarrow> 'w \<Rightarrow>
   (goerr + 'w keyservice) \<times> 'w" where
  "initKeyService isp client adc load cfg w =
     (if KeyService cfg = ''memory'' then (Inr KsMemory, w)
      else if KeyService cfg = ''vault'' then
        (case NewVaultTransit client (vault_settings cfg) of
           Inl e \<Rightarrow> (Inl (Errorf [Lit ''vault keyservice: '', Wrp e]), w)
         | Inr v \<Rightarrow> (Inr (KsVault v), w))
      else if KeyService cfg = ''gcpkms'' then
        (case NewGCPKMS None adc (gcpkms_settings cfg) of
           Inl e \<Rightarrow> (Inl (Errorf [Lit ''gcpkms keyservice: '', Wrp e]), w)
         | Inr g \<Rightarrow> (Inr (KsGCPKMS g), w))
      else if KeyService cfg = ''pkcs11'' then
        (case NewPKCS11 isp load (pkcs11_settings cfg) w of
           (Inl e, w1) \<Rightarrow> (Inl (Errorf [Lit ''pkcs11 keyservice: '', Wrp e]), w1)
         | (Inr p, w1) \<Rightarrow> (Inr (KsPKCS11 p), w1))
      else (Inl (Errorf [Lit (''unknown keyservice '' @ go_quote isp (KeyService cfg))]), w))"

section \<open>Start-up\<close>

text \<open>
  \<open>main\<close> up to the call that serves: the settings, the verifier, the backend, the key
  service, and the configuration of the mux. \<open>Inl\<close> is \<open>os.Exit(1)\<close>, with what was logged.
\<close>

record 'w outside =
  ou_getenv :: "string \<Rightarrow> string"
  ou_files :: file_system
  ou_client :: "'w net"
  ou_adc :: "goerr + 'w net"
  ou_load :: "string \<Rightarrow> 'w p11ctx option"

record ('s, 'w) service =
  sv_config :: Config
  sv_server :: ServerConfig
  sv_backend :: "('s, 'w) store BackendProvider"
  sv_state :: "('s, 'w) store"
  sv_keys :: "'w keyservice"

definition fatal :: "string \<Rightarrow> goerr \<Rightarrow> log_record" where
  "fatal msg e = \<lparr>lr_level = LevelError, lr_msg = msg, lr_attrs = [(''error'', AErr e)]\<rparr>"

definition server_config :: "sdk \<Rightarrow> Config \<Rightarrow> pubkeys option \<Rightarrow> ServerConfig" where
  "server_config k cfg verifier =
     \<lparr>sc_VerifyOnPush = VerifyOnPush cfg, sc_MaxBodySize = MaxBodySize cfg,
      sc_DefaultExpiry = DefaultResolveExpiry cfg, sc_UploadTokenVerifier = map_option (Token_Verify k) verifier,
      sc_UploadTokenPolicy = RequireUploadToken cfg\<rparr>"

definition starting :: "Config \<Rightarrow> log_record" where
  "starting cfg =
     info ''artifact store starting''
       [(''addr'', AStr (ListenAddr cfg)), (''backend'', AStr (Backend cfg)), (''keyservice'', AStr (KeyService cfg)),
        (''env'', AStr (Env cfg)), (''verify_on_push'', ABool (VerifyOnPush cfg)),
        (''upload_token_policy'', AStr (RequireUploadToken cfg)), (''max_body_size'', AInt (sint (MaxBodySize cfg)))]"

definition start ::
  "sdk \<Rightarrow> 's memory_sdk \<Rightarrow> 'w outside \<Rightarrow> ('s, 'w) side \<Rightarrow> ('s, 'w) side \<Rightarrow> 'w \<Rightarrow>
   (log_record list + ('s, 'w) service \<times> log_record list) \<times> 'w" where
  "start k ms ou p m w =
     (case Load (sdk_IsPrint k) (ou_getenv ou) of
        Inl e \<Rightarrow> (Inl [fatal ''config load failed'' e], w)
      | Inr cfg \<Rightarrow>
          (let warned = fst (runVerifyOnPushWatchdog cfg []) in
           case buildUploadTokenVerifier k (ou_files ou) cfg of
             (Inl e, lg) \<Rightarrow> (Inl (warned @ lg @ [fatal ''upload token verifier init failed'' e]), w)
           | (Inr verifier, lg) \<Rightarrow>
               (case initBackend k ms (ou_client ou) cfg p m of
                  Inl e \<Rightarrow> (Inl (warned @ lg @ [fatal ''backend init failed'' e]), w)
                | Inr (bp, st) \<Rightarrow>
                    (case initKeyService (sdk_IsPrint k) (ou_client ou) (ou_adc ou) (ou_load ou) cfg w of
                       (Inl e, w1) \<Rightarrow> (Inl (warned @ lg @ [fatal ''keyservice init failed'' e]), w1)
                     | (Inr ks, w1) \<Rightarrow>
                         (Inr (\<lparr>sv_config = cfg, sv_server = server_config k cfg verifier, sv_backend = bp,
                                sv_state = st, sv_keys = ks\<rparr>, warned @ lg @ [starting cfg]), w1)))))"

section \<open>What a start gives\<close>

lemma start_cases:
  assumes "start k ms ou p m w = (Inr (sv, lg), w')"
  obtains verifier vlg where
    "Load (sdk_IsPrint k) (ou_getenv ou) = Inr (sv_config sv)"
    "buildUploadTokenVerifier k (ou_files ou) (sv_config sv) = (Inr verifier, vlg)"
    "initBackend k ms (ou_client ou) (sv_config sv) p m = Inr (sv_backend sv, sv_state sv)"
    "initKeyService (sdk_IsPrint k) (ou_client ou) (ou_adc ou) (ou_load ou) (sv_config sv) w = (Inr (sv_keys sv), w')"
    "sv_server sv = server_config k (sv_config sv) verifier"
    "lg = fst (runVerifyOnPushWatchdog (sv_config sv) []) @ vlg @ [starting (sv_config sv)]"
  using assms by (auto simp: start_def Let_def split: sum.splits prod.splits)

text \<open>Settings that load name backends that exist.\<close>

lemma createBackend_known:
  assumes "name \<in> {''gcs'', ''rustfs'', ''memory''}"
  shows "\<exists>bp. createBackend k ms client name cfg isMirror = Inr bp"
  using assms by (auto simp: createBackend_def)

lemma initBackend_known:
  assumes "config_ok cfg"
  shows "\<exists>bp st. initBackend k ms client cfg p m = Inr (bp, st) \<and> mi_log st = []"
proof -
  obtain primary where p: "createBackend k ms client (Backend cfg) cfg False = Inr primary"
    using createBackend_known assms by (metis config_ok_def)
  show ?thesis
  proof (cases "MirrorBackend cfg = []")
    case False
    then have "MirrorBackend cfg \<in> {''gcs'', ''rustfs'', ''memory''}" using assms by (auto simp: config_ok_def)
    then obtain mirror where "createBackend k ms client (MirrorBackend cfg) cfg True = Inr mirror"
      using createBackend_known by metis
    with p False assms show ?thesis
      by (simp add: initBackend_def NewMirroredStore_def config_ok_def MirrorModeSync_def)
  qed (simp add: initBackend_def p)
qed

lemma lift_bp_sel [simp]:
  "bp_Resolve (lift_bp get put bp) c e t = (case bp_Resolve bp c e (get t) of (r, s) \<Rightarrow> (r, put s t))"
  "bp_Push (lift_bp get put bp) c d t = (case bp_Push bp c d (get t) of (r, s) \<Rightarrow> (r, put s t))"
  "bp_Fetch (lift_bp get put bp) c t = (case bp_Fetch bp c (get t) of (r, s) \<Rightarrow> (r, put s t))"
  by (simp_all add: lift_bp_def)

text \<open>No object store that \<open>createBackend\<close> makes can sign a URL.\<close>

lemma createBackend_resolve:
  assumes "createBackend k ms client name cfg isMirror = Inr bp" "name \<in> {''gcs'', ''rustfs''}"
  shows "\<exists>e. bp_Resolve bp c ex s = (Inl e, s) \<and> \<not> errors_is e ErrContentNotFound"
  using assms
  by (auto simp: createBackend_def on_net_def GCS_provider_def RustFS_provider_def GCS_Resolve_def RustFS_Resolve_def
      main_gcs_def main_rustfs_def NewGCSBackend_def NewRustFSBackend_def)

lemma initBackend_resolve:
  assumes "initBackend k ms client cfg p m = Inr (bp, st)" "Backend cfg \<in> {''gcs'', ''rustfs''}"
  shows "\<exists>e. bp_Resolve bp c ex s = (Inl e, s) \<and> \<not> errors_is e ErrContentNotFound"
proof -
  obtain primary where c: "createBackend k ms client (Backend cfg) cfg False = Inr primary"
    using assms(1) by (auto simp: initBackend_def split: sum.splits)
  obtain e where e: "bp_Resolve primary c ex (mi_primary s) = (Inl e, mi_primary s)" "\<not> errors_is e ErrContentNotFound"
    using createBackend_resolve [OF c assms(2)] by blast
  have "bp_Resolve bp c ex s = (Inl e, s)"
    using assms(1) c e(1)
    by (auto simp: initBackend_def primary_only_def Mirrored_Resolve_def split: if_splits sum.splits)
  with e(2) show ?thesis by blast
qed

text \<open>The loop warns for every tick before the cancellation, which ends it.\<close>

lemma watchdog_loop_eq:
  "watchdog_loop msg es = (replicate (length (takeWhile (\<lambda>e. e = Tick) es)) msg, Done \<in> set es)"
  by (induction msg es rule: watchdog_loop.induct) simp_all

end
