(* ===== verification/Demo_Start.thy ===== *)
theory Demo_Start
  imports Cmd_Main Instances
begin

text \<open>
  Two processes: one in memory that requires upload tokens under an inline operator key, and
  one over GCS. Their environment is a list of settings; nothing answers on their network.
\<close>

definition env_of :: "(string \<times> string) list \<Rightarrow> string \<Rightarrow> string" where
  "env_of kvs v = (case map_of kvs v of None \<Rightarrow> [] | Some x \<Rightarrow> x)"

definition start_key :: bytes where
  "start_key = replicate 32 7"

definition start_entry :: "string \<times> key_form \<times> bytes" where
  "start_entry = (''op'', KHex, start_key)"

definition dead_net :: "unit net" where
  "dead_net = \<lparr>net_do = (\<lambda>_ w. (Inl (Foreign ''connection refused''), w)), net_now = (\<lambda>_. 0)\<rparr>"

definition outside_of :: "(string \<times> string) list \<Rightarrow> unit outside" where
  "outside_of kvs =
     \<lparr>ou_getenv = env_of kvs,
      ou_files = \<lparr>fs_ReadDir = (\<lambda>_. Inl (Foreign ''no such directory'')), fs_ReadFile = (\<lambda>_. Inl (Foreign ''no such file''))\<rparr>,
      ou_client = dead_net, ou_adc = Inl (Foreign ''no credentials''), ou_load = (\<lambda>_. None)\<rparr>"

definition token_settings :: "(string \<times> string) list" where
  "token_settings =
     [(''ARTIFACT_REQUIRE_UPLOAD_TOKEN'', ''required''), (''ARTIFACT_OPERATOR_PUBKEYS'', entry_text start_entry),
      (''ARTIFACT_KEYSERVICE'', ''memory'')]"

definition gcs_settings :: "(string \<times> string) list" where
  "gcs_settings = [(''ARTIFACT_BACKEND'', ''gcs''), (''ARTIFACT_KEYSERVICE'', ''memory'')]"

type_synonym demo_side = "(cid \<Rightarrow> bytes option, unit) side"

definition empty_side :: demo_side where
  "empty_side = \<lparr>sd_memory = (\<lambda>_. None), sd_net = ()\<rparr>"

definition start_token :: string where
  "start_token = token_of (marshal_payload (payload_for ''op'')) start_key"

definition start_push :: server_request where
  "start_push = push_request (sdk_String demo_sdk demo_c) start_token demo_d"

section \<open>The two starts\<close>

lemma read_tokens:
  "Backend (read_config (env_of token_settings)) = ''memory''" "MirrorBackend (read_config (env_of token_settings)) = []"
  "MirrorMode (read_config (env_of token_settings)) = ''sync''" "KeyService (read_config (env_of token_settings)) = ''memory''"
  "RequireUploadToken (read_config (env_of token_settings)) = ''required''"
  "OperatorPubKeys (read_config (env_of token_settings)) = entry_text start_entry"
  "OperatorPubKeysDir (read_config (env_of token_settings)) = []"
  "MaxBodySize (read_config (env_of token_settings)) = default_body_size"
  "VerifyOnPush (read_config (env_of token_settings))"
  by (simp_all add: read_config_def env_of_def token_settings_def envOrDefault_def envInt64_def envBool_def)

lemma read_gcs:
  "Backend (read_config (env_of gcs_settings)) = ''gcs''" "MirrorBackend (read_config (env_of gcs_settings)) = []"
  "MirrorMode (read_config (env_of gcs_settings)) = ''sync''" "KeyService (read_config (env_of gcs_settings)) = ''memory''"
  "RequireUploadToken (read_config (env_of gcs_settings)) = ''off''"
  "MaxBodySize (read_config (env_of gcs_settings)) = default_body_size"
  by (simp_all add: read_config_def env_of_def gcs_settings_def envOrDefault_def envInt64_def)

lemma load_as_read:
  assumes "config_ok (read_config getenv)" "MaxBodySize (read_config getenv) = default_body_size"
  shows "Load isp getenv = Inr (read_config getenv)"
  using assms validate_None_iff [of isp "read_config getenv"] validate_result [of isp "read_config getenv"]
  by (simp add: Load_Inr_iff)

lemma start_entry_keys: "parseInlinePubKeys isp (entry_text start_entry) = Inr [(''op'', start_key)]"
proof -
  have "entry_ok start_entry"
    by (simp add: start_entry_def start_key_def PublicKeySize_def ends_graphic_def graphic_def)
  from parseInlinePubKeys_join [of "[start_entry]" isp] this show ?thesis
    by (simp add: entry_key_def start_entry_def)
qed

lemma tokens_start:
  "\<exists>sv lg. start demo_sdk map_store (outside_of token_settings) empty_side empty_side () = (Inr (sv, lg), ()) \<and>
     sv_config sv = read_config (env_of token_settings) \<and>
     sv_server sv = server_config demo_sdk (sv_config sv) (Some [(''op'', start_key)]) \<and>
     sv_backend sv = primary_only (on_memory (InMemoryBackend map_store)) \<and>
     sv_state sv = \<lparr>mi_primary = empty_side, mi_mirror = empty_side, mi_log = []\<rparr>"
proof -
  let ?c = "read_config (env_of token_settings)"
  have l: "Load isp (env_of token_settings) = Inr ?c" for isp
    by (rule load_as_read) (simp_all add: config_ok_def keyservice_ready_def read_tokens)
  have ne: "entry_text start_entry \<noteq> []" by (simp add: entry_text_def start_entry_def)
  have "keys_ok [(''op'', start_key)]" by (simp add: keys_ok_def start_key_def PublicKeySize_def)
  then have v: "NewEd25519UploadTokenVerifier demo_sdk [(''op'', start_key)] = Inr [(''op'', start_key)]"
    by (rule verifier_constructed) simp
  obtain vl where b: "buildUploadTokenVerifier demo_sdk fs ?c = (Inr (Some [(''op'', start_key)]), vl)" for fs
    using ne v by (simp add: buildUploadTokenVerifier_def read_tokens load_keys_def start_entry_keys Let_def)
  show ?thesis
    by (simp add: start_def outside_of_def l b Let_def initBackend_def createBackend_def initKeyService_def read_tokens)
qed

lemma gcs_start:
  "\<exists>sv lg. start demo_sdk map_store (outside_of gcs_settings) empty_side empty_side () = (Inr (sv, lg), ()) \<and>
     Backend (sv_config sv) = ''gcs''"
proof -
  let ?c = "read_config (env_of gcs_settings)"
  have l: "Load isp (env_of gcs_settings) = Inr ?c" for isp
    by (rule load_as_read) (simp_all add: config_ok_def keyservice_ready_def read_gcs)
  show ?thesis
    by (simp add: start_def outside_of_def l Let_def initBackend_def createBackend_def initKeyService_def read_gcs
        buildUploadTokenVerifier_def)
qed

section \<open>An upload\<close>

lemma start_token_ok: "Token_Verify demo_sdk [(''op'', start_key)] start_token (sdk_String demo_sdk demo_c) 3 50 = None"
  using Token_Verify_minted [OF payload_for_ascii [OF demo_kid_ascii(1)],
      of start_key "[(''op'', start_key)]" start_key demo_sdk 50]
  by (simp add: start_token_def payload_for_def start_key_def unix_def)

lemma start_push_admitted:
  assumes "sv_server sv = server_config demo_sdk (read_config (env_of token_settings)) (Some [(''op'', start_key)])"
  shows "push_admitted demo_sdk (push_handler (sv_server sv)) 50 start_push demo_c demo_d"
    and "\<not> kid_collides (push_handler (sv_server sv)) start_push"
proof -
  let ?h = "push_handler (sv_server sv)"
  have h: "h_tokenPolicy ?h = ''required''" "h_tokenVerifier ?h = Some (Token_Verify demo_sdk [(''op'', start_key)])"
      "h_maxBody ?h = default_body_size" "h_verify ?h"
    using assms by (simp_all add: push_handler_def server_config_def read_tokens)
  have ne: "start_token \<noteq> []" by (simp add: start_token_def token_of_def)
  have adm: "token_admits ?h start_push 3 50"
    using h ne start_token_ok by (simp add: token_admits_def start_push_def)
  have "read_all_limited (default_body_size + 1) (stream_of demo_d) = (demo_d, None)"
    using read_all_limited_within [of default_body_size "stream_of demo_d"]
    by (simp add: demo_d_def max_int64_def)
  with h adm demo_length demo_parse_c show "push_admitted demo_sdk ?h 50 start_push demo_c demo_d"
    by (simp add: push_admitted_def start_push_def demo_d_def demo_c_def demo_cid_def parseCIDFromPath_def)
  show "\<not> kid_collides ?h start_push"
    by (rule no_collision [OF h(2) _ adm]) (simp add: tokenRejected_def)
qed

end
