(* ===== verification/Startup_Properties.thy ===== *)
theory Startup_Properties
  imports Demo_Start
begin

text \<open>
  From the environment to the running service: which settings load, what keys the upload
  verifier holds, what a started service admits, and when the watchdog ends.
\<close>

text \<open>
  C26. Loading the settings succeeds exactly when the backend, the mirror, the mirror mode,
  the token policy and the key service are known and the key service has its credentials;
  the result is what was read, with a body limit that is not positive replaced by 64 MiB.
\<close>

theorem load_exactly:
  "Load isp getenv = Inr c \<longleftrightarrow>
     config_ok (read_config getenv) \<and>
     c = (let r = read_config getenv in
          if sint (MaxBodySize r) \<le> 0 then r\<lparr>MaxBodySize := default_body_size\<rparr> else r)"
  using validate_None_iff [of isp "read_config getenv"] validate_result [of isp "read_config getenv"]
  unfolding Load_Inr_iff Let_def by metis

text \<open>
  C27. The verifier built at start-up is well typed: its kids are distinct, there is at least
  one, and every key, however it was written, is 32 bytes long, so the constructor that
  checks the sizes never refuses it.
\<close>

theorem verifier_keys_typed:
  assumes "buildUploadTokenVerifier k fs cfg = (Inr (Some keys), lg)"
  shows "keys \<noteq> [] \<and> distinct (map fst keys) \<and> list_all (\<lambda>p. length (snd p) = 32) keys"
  using assms
proof (cases rule: build_verifier_cases)
  case (keys ks)
  then show ?thesis by (auto simp: keys_ok_def list_all_iff PublicKeySize_def)
qed simp

theorem verifier_keys_typed_witness:
  "\<exists>keys lg. buildUploadTokenVerifier demo_sdk (ou_files (outside_of token_settings)) (read_config (env_of token_settings)) =
     (Inr (Some keys), lg) \<and> keys \<noteq> [] \<and> distinct (map fst keys) \<and> list_all (\<lambda>p. length (snd p) = 32) keys"
proof -
  obtain sv lg where s: "start demo_sdk map_store (outside_of token_settings) empty_side empty_side () = (Inr (sv, lg), ())"
      "sv_config sv = read_config (env_of token_settings)"
      "sv_server sv = server_config demo_sdk (sv_config sv) (Some [(''op'', start_key)])"
    using tokens_start by blast
  from s(1) obtain v vl where v: "buildUploadTokenVerifier demo_sdk (ou_files (outside_of token_settings)) (sv_config sv) = (Inr v, vl)"
      "sv_server sv = server_config demo_sdk (sv_config sv) v"
    by (rule start_cases)
  then have "v \<noteq> None" using s(3) by (cases v) (simp_all add: server_config_def)
  then obtain keys where "v = Some keys" by blast
  with v(1) s(2) have b: "buildUploadTokenVerifier demo_sdk (ou_files (outside_of token_settings))
      (read_config (env_of token_settings)) = (Inr (Some keys), vl)" by simp
  from verifier_keys_typed [OF b] b show ?thesis by blast
qed

text \<open>
  C28. Operator keys written inline are read back: a comma-separated list of entries, each a
  kid and a key in hexadecimal, base64 or PEM, parses to exactly those kids and keys, in
  order.
\<close>

theorem inline_keys_roundtrip:
  assumes "es \<noteq> []" "\<forall>e \<in> set es. entry_ok e" "distinct (map fst es)"
  shows "parseInlinePubKeys isp (join '','' (map entry_text es)) = Inr (map entry_key es)"
  using assms by (rule parseInlinePubKeys_join)

theorem inline_keys_roundtrip_witness:
  "parseInlinePubKeys (\<lambda>_. True)
     (join '','' (map entry_text [(''op'', KHex, start_key), (''ops-2'', KPem ''PUBLIC KEY'' [48, 42], start_key)])) =
   Inr [(''op'', start_key), (''ops-2'', start_key)]"
proof -
  let ?es = "[(''op'', KHex, start_key), (''ops-2'', KPem ''PUBLIC KEY'' [48, 42], start_key)]"
  have "\<forall>e \<in> set ?es. entry_ok e"
    by (simp add: start_key_def PublicKeySize_def ends_graphic_def graphic_def nl_def)
  from inline_keys_roundtrip [OF _ this, of "\<lambda>_. True"] show ?thesis by (simp add: entry_key_def)
qed

text \<open>
  C4. A process started with the policy \<open>required\<close> holds the operator keys it was
  configured with, and an upload changes its store only if it carries a token that one of
  these keys signed for this CID and length and that has not expired, and, unless
  verification was switched off, bytes that hash to the CID. The change is then that of the
  one backend push.
\<close>

theorem started_service_guards_uploads:
  assumes "start k ms ou p m w = (Inr (sv, lg), w')"
    and "RequireUploadToken (sv_config sv) = ''required''"
    and "Push_ServeHTTP k (push_handler (sv_server sv)) (sv_backend sv) now r s = (rp, lg', s')" "s' \<noteq> s"
  shows "\<exists>keys c d t. load_keys (sdk_IsPrint k) (ou_files ou) (sv_config sv) = Inr keys \<and>
     sdk_ParseCID k (claimed_cid r) = Inr c \<and>
     token_authorises k keys (upload_token r) (claimed_cid r) (of_nat (length d)) now t \<and>
     (VerifyOnPush (sv_config sv) \<longrightarrow> sdk_Verify k c d) \<and> s' = snd (bp_Push (sv_backend sv) c d s)"
proof -
  let ?h = "push_handler (sv_server sv)"
  obtain v vl where v: "buildUploadTokenVerifier k (ou_files ou) (sv_config sv) = (Inr v, vl)"
    and sv: "sv_server sv = server_config k (sv_config sv) v"
    using assms(1) by (rule start_cases)
  from v obtain keys where keys: "v = Some keys" "load_keys (sdk_IsPrint k) (ou_files ou) (sv_config sv) = Inr keys"
    using assms(2) by (cases rule: build_verifier_cases) auto
  have h: "h_tokenPolicy ?h = ''required''" "h_tokenVerifier ?h = Some (Token_Verify k keys)"
      "h_verify ?h = VerifyOnPush (sv_config sv)"
    using assms(2) sv keys(1) by (simp_all add: push_handler_def server_config_def)
  obtain c d where adm: "push_admitted k ?h now r c d"
    using push_not_admitted [of k ?h now r "sv_backend sv" s] assms(3,4) by auto
  have "\<not> kid_collides ?h r" using push_collision [OF adm, of "sv_backend sv" s] assms(3,4) by auto
  from push_admitted_outcome [OF adm this, of "sv_backend sv" s] assms(3)
  have s': "s' = snd (bp_Push (sv_backend sv) c d s)"
    by (cases "bp_Push (sv_backend sv) c d s") (auto simp: push_outcome_def split: option.splits)
  have "upload_token r \<noteq> []" "Token_Verify k keys (upload_token r) (claimed_cid r) (of_nat (length d)) now = None"
    using adm h by (auto simp: push_admitted_def token_admits_def split: if_splits)
  with adm keys(2) h(3) s' show ?thesis
    using Token_Verify_accepts unfolding push_admitted_def by metis
qed

theorem started_service_guards_uploads_witness:
  "\<exists>sv lg s'. start demo_sdk map_store (outside_of token_settings) empty_side empty_side () = (Inr (sv, lg), ()) \<and>
     snd (snd (Push_ServeHTTP demo_sdk (push_handler (sv_server sv)) (sv_backend sv) 50 start_push (sv_state sv))) = s' \<and>
     s' \<noteq> sv_state sv \<and>
     (\<exists>keys t. load_keys (sdk_IsPrint demo_sdk) (ou_files (outside_of token_settings)) (sv_config sv) = Inr keys \<and>
        (\<exists>d :: bytes. token_authorises demo_sdk keys start_token (sdk_String demo_sdk demo_c) (of_nat (length d)) 50 t))"
proof -
  obtain sv lg where s: "start demo_sdk map_store (outside_of token_settings) empty_side empty_side () = (Inr (sv, lg), ())"
      "sv_config sv = read_config (env_of token_settings)"
      "sv_server sv = server_config demo_sdk (sv_config sv) (Some [(''op'', start_key)])"
      "sv_backend sv = primary_only (on_memory (InMemoryBackend map_store))"
      "sv_state sv = \<lparr>mi_primary = empty_side, mi_mirror = empty_side, mi_log = []\<rparr>"
    using tokens_start by blast
  obtain rp lg' s' where p: "Push_ServeHTTP demo_sdk (push_handler (sv_server sv)) (sv_backend sv) 50 start_push (sv_state sv) =
      (rp, lg', s')" by (metis prod_cases3)
  have "sv_server sv = server_config demo_sdk (read_config (env_of token_settings)) (Some [(''op'', start_key)])"
    using s(2,3) by simp
  note a = start_push_admitted [OF this]
  have "(\<lambda>_. None)(demo_c := Some demo_d) \<noteq> (\<lambda>_ :: cid. None)" by (metis fun_upd_same option.distinct(1))
  then have ne: "s' \<noteq> sv_state sv"
    using push_admitted_outcome [OF a, of "sv_backend sv" "sv_state sv"] p s(4,5)
    by (auto simp: push_outcome_def primary_only_def on_memory_def InMemoryBackend_def map_store_def empty_side_def)
  have "RequireUploadToken (sv_config sv) = ''required''" using s(2) by (simp add: read_tokens)
  from started_service_guards_uploads [OF s(1) this p ne] obtain keys t and d :: bytes where
    k: "load_keys (sdk_IsPrint demo_sdk) (ou_files (outside_of token_settings)) (sv_config sv) = Inr keys"
      "token_authorises demo_sdk keys (upload_token start_push) (claimed_cid start_push) (of_nat (length d)) 50 t" by blast
  have up: "upload_token start_push = start_token" "claimed_cid start_push = sdk_String demo_sdk demo_c"
    by (simp_all only: start_push_def push_request_sel)
  have "snd (snd (Push_ServeHTTP demo_sdk (push_handler (sv_server sv)) (sv_backend sv) 50 start_push (sv_state sv))) = s'"
    using p by simp
  with s(1) ne k show ?thesis unfolding up by blast
qed

text \<open>
  C35. The watchdog ends when it should: it returns at once when verification is on or the
  process is not in production, and otherwise exactly when the context is cancelled; it
  warns once at start-up when verification is off, and once more for every tick before the
  cancellation.
\<close>

theorem watchdog_ends:
  "snd (runVerifyOnPushWatchdog cfg es) =
     (if VerifyOnPush cfg then True else if Env cfg = ''production'' then Done \<in> set es else True) \<and>
   fst (runVerifyOnPushWatchdog cfg es) =
     (if VerifyOnPush cfg then []
      else verify_warning cfg #
        (if Env cfg = ''production'' then replicate (length (takeWhile (\<lambda>e. e = Tick) es)) (verify_warning cfg)
         else []))"
  by (simp add: runVerifyOnPushWatchdog_def watchdog_loop_eq)

text \<open>
  C39. A process over GCS or RustFS can never hand out a retrieval credential: no setting
  reaches the URL signer of the backend \<open>main\<close> makes, so \<open>GET /v1/artifacts/{cid}/resolve\<close>
  is never answered 200, whatever the object store answers.
\<close>

theorem started_service_cannot_resolve:
  assumes "start k ms ou p m w = (Inr (sv, lg), w')" "Backend (sv_config sv) \<in> {''gcs'', ''rustfs''}"
  shows "rp_status (fst (Resolve_ServeHTTP k (sv_backend sv) (sc_DefaultExpiry (sv_server sv)) q cs s)) \<in> {400, 404, 500}"
proof -
  have "initBackend k ms (ou_client ou) (sv_config sv) p m = Inr (sv_backend sv, sv_state sv)"
    using assms(1) by (rule start_cases)
  from initBackend_resolve [OF this assms(2)] have
    r: "\<exists>e. bp_Resolve (sv_backend sv) c ex s = (Inl e, s) \<and> \<not> errors_is e ErrContentNotFound" for c ex s .
  show ?thesis
  proof (cases "parseCIDFromPath k cs")
    case (Inr c)
    obtain q1 s1 where x: "bp_Exists (sv_backend sv) c s = (q1, s1)" by fastforce
    from r [of c "requested_expiry (sc_DefaultExpiry (sv_server sv)) q" s1] Inr x show ?thesis
      by (cases q1) (auto simp: Resolve_ServeHTTP_def fail_with_def writeError_def json_reply_def)
  qed (simp add: Resolve_ServeHTTP_def fail_with_def writeError_def json_reply_def)
qed

theorem started_service_cannot_resolve_witness:
  "\<exists>sv lg. start demo_sdk map_store (outside_of gcs_settings) empty_side empty_side () = (Inr (sv, lg), ()) \<and>
     rp_status (fst (Resolve_ServeHTTP demo_sdk (sv_backend sv) (sc_DefaultExpiry (sv_server sv)) []
       (sdk_String demo_sdk demo_c) (sv_state sv))) \<in> {400, 404, 500}"
proof -
  obtain sv lg where s: "start demo_sdk map_store (outside_of gcs_settings) empty_side empty_side () = (Inr (sv, lg), ())"
      "Backend (sv_config sv) = ''gcs''" using gcs_start by blast
  from s(2) have "Backend (sv_config sv) \<in> {''gcs'', ''rustfs''}" by simp
  from started_service_cannot_resolve [OF s(1) this] s(1) show ?thesis by blast
qed

end
