(* ===== verification/Go_Float.thy ===== *)
theory Go_Float
  imports Go_Time "HOL-Library.Log_Nat"
begin

text \<open>
  The float64 arithmetic behind \<open>time.Duration.Seconds\<close>: rounding to 53 bits, to nearest and
  to even. The values here are far from the ends of the exponent range.
\<close>

definition pow2 :: "int \<Rightarrow> rat" where
  "pow2 e = (if 0 \<le> e then 2 ^ nat e else 1 / 2 ^ nat (- e))"

definition round_even :: "rat \<Rightarrow> int" where
  "round_even x =
     (let f = \<lfloor>x\<rfloor>; r = x - of_int f in
      if r < 1 / 2 then f else if r > 1 / 2 then f + 1 else if even f then f else f + 1)"

text \<open>The exponent of the binade of a positive number.\<close>

definition binade :: "rat \<Rightarrow> int" where
  "binade a =
     (let (p, q) = quotient_of a; k = int (floorlog 2 (nat p)) - int (floorlog 2 (nat q)) in
      if pow2 k \<le> a then k else k - 1)"

definition double :: "rat \<Rightarrow> rat" where
  "double x =
     (if x = 0 then 0
      else let u = pow2 (binade \<bar>x\<bar> - 52) in of_int (round_even (x / u)) * u)"

definition truncate :: "rat \<Rightarrow> int" where
  "truncate x = (if 0 \<le> x then \<lfloor>x\<rfloor> else \<lceil>x\<rceil>)"

text \<open>\<open>int(d.Seconds())\<close>.\<close>

definition duration_seconds :: "duration \<Rightarrow> int" where
  "duration_seconds d =
     (let sec = sgn (sint d) * (\<bar>sint d\<bar> div 1000000000); nsec = sint d - sec * 1000000000
      in truncate (double (of_int sec + double (of_int nsec / 1000000000))))"

lemma round_even_of_int [simp]: "round_even (of_int m) = m"
  by (simp add: round_even_def)

lemma double_of_int:
  assumes "\<bar>n\<bar> < 2 ^ 53"
  shows "double (of_int n) = of_int n"
proof (cases "n = 0")
  case False
  define N where "N = nat \<bar>n\<bar>"
  define L where "L = floorlog 2 N"
  have N: "0 < N" "int N = \<bar>n\<bar>" using False by (simp_all add: N_def)
  have le: "2 ^ (L - 1) \<le> N" using floorlog_bounds [of N 2] N(1) by (simp add: L_def)
  have "L \<noteq> 0" using N(1) by (simp add: L_def floorlog_eq_zero_iff)
  have "L \<le> 53"
  proof (rule ccontr)
    assume "\<not> L \<le> 53"
    then have "(2 :: nat) ^ 53 \<le> 2 ^ (L - 1)" by (intro power_increasing) simp_all
    with le have "(2 :: nat) ^ 53 \<le> N" by linarith
    then have "int (2 ^ 53) \<le> int N" by (simp only: of_nat_le_iff)
    then have "2 ^ 53 \<le> \<bar>n\<bar>" by (simp only: N(2) of_nat_power of_nat_numeral)
    then show False using assms by simp
  qed
  have one: "floorlog 2 (Suc 0) = 1" by (simp add: floorlog_def)
  have q: "quotient_of \<bar>of_int n :: rat\<bar> = (\<bar>n\<bar>, 1)"
    using quotient_of_int [of "\<bar>n\<bar>"] by (simp only: Rat.of_int_def of_int_abs)
  have "pow2 (int L - 1) \<le> \<bar>of_int n :: rat\<bar>"
  proof -
    have "pow2 (int L - 1) = 2 ^ (L - 1)" using \<open>L \<noteq> 0\<close> by (simp add: pow2_def nat_diff_distrib)
    also have "\<dots> = of_nat (2 ^ (L - 1))" by simp
    also have "\<dots> \<le> of_nat N" using le by (simp only: of_nat_le_iff)
    also have "\<dots> = \<bar>of_int n\<bar>" using N(2) by (metis of_int_abs of_int_of_nat_eq)
    finally show ?thesis .
  qed
  then have b: "binade \<bar>of_int n :: rat\<bar> = int L - 1"
    by (simp add: binade_def q one N_def [symmetric] L_def [symmetric])
  have u: "pow2 (int L - 53) = 1 / 2 ^ (53 - L)"
    using \<open>L \<le> 53\<close> by (auto simp: pow2_def nat_diff_distrib)
  have "of_int n / (1 / 2 ^ (53 - L)) = (of_int (n * 2 ^ (53 - L)) :: rat)" by simp
  then have "round_even (of_int n / (1 / 2 ^ (53 - L))) = n * 2 ^ (53 - L)"
    by (simp only: round_even_of_int)
  with False show ?thesis by (simp add: double_def b u Let_def)
qed (simp add: double_def)

text \<open>Whole seconds are exact.\<close>

lemma duration_seconds_whole:
  assumes "- max_seconds \<le> sint n" "sint n \<le> max_seconds"
  shows "duration_seconds (seconds n) = sint n"
proof -
  define m where "m = sint n"
  have s: "sint (seconds n) = m * 1000000000" using sint_seconds [OF assms] by (simp add: m_def)
  have sec: "sgn (m * 1000000000) * (\<bar>m * 1000000000\<bar> div 1000000000) = m"
    by (cases "m = 0") (auto simp: sgn_mult abs_mult sgn_mult_abs)
  have "double (of_int m) = of_int m"
    using assms by (intro double_of_int) (simp add: max_seconds_def abs_le_iff m_def)
  then show ?thesis
    by (simp add: duration_seconds_def Let_def s sec double_def [of 0] truncate_def m_def [symmetric])
qed

end
