(* ===== verification/Signers.thy ===== *)
theory Signers
  imports Cmd_Token Go_Sha256 Go_Float Backend_Rustfs
begin

text \<open>
  \<open>internal/signers\<close>: the AWS Signature Version 4 signer of requests and of GET URLs, the
  presigner bound to an endpoint, and the GCS V4 URL signer with the loading of its
  service-account file. The clock is the world's; the RSA signature and the parsing of DER
  keys are parameters.
\<close>

section \<open>Header names and escaped paths\<close>

text \<open>
  \<open>strings.ToLower\<close> on ASCII, which is what header names are, and
  \<open>textproto.CanonicalMIMEHeaderKey\<close>, through which \<open>Header.Get\<close> looks names up.
\<close>

definition lower_char :: "char \<Rightarrow> char" where
  "lower_char c = (if in_range 65 90 c then char_of (code c + 32) else c)"

definition to_lower :: "string \<Rightarrow> string" where
  "to_lower s = map lower_char s"

definition token_char :: "char \<Rightarrow> bool" where
  "token_char c = (is_alpha c \<or> is_digit c \<or> c \<in> set ''!#$%&*+-.^_|~'' \<or> code c = 39 \<or> code c = 96)"

fun canon_mime :: "bool \<Rightarrow> string \<Rightarrow> string" where
  "canon_mime up [] = []"
| "canon_mime up (c # s) =
     (if up then upper_char c else lower_char c) # canon_mime (c = CHR ''-'') s"

definition canonical_mime :: "string \<Rightarrow> string" where
  "canonical_mime s = (if list_all token_char s then canon_mime True s else s)"

definition go_header_get :: "header \<Rightarrow> string \<Rightarrow> string" where
  "go_header_get h k = header_get h (canonical_mime k)"

text \<open>\<open>URL.EscapedPath\<close>: the path as it was written when that is a valid encoding of it.\<close>

definition keep_path :: "char \<Rightarrow> bool" where
  "keep_path c = (unreserved c \<or> c \<in> set ''$&+,/:;=@'')"

definition escape_path :: "string \<Rightarrow> string" where
  "escape_path s = concat (map (\<lambda>c. if keep_path c then [c] else percent c) s)"

definition valid_encoded :: "string \<Rightarrow> bool" where
  "valid_encoded s = list_all (\<lambda>c. keep_path c \<or> c \<in> set ''!()*[]%'' \<or> code c = 39) s"

definition escaped_path :: "url \<Rightarrow> string" where
  "escaped_path u =
     (if u_rawpath u = escape_path (u_path u) \<or> valid_encoded (u_rawpath u) then u_rawpath u
      else if u_path u = ''*'' then ''*'' else escape_path (u_path u))"

section \<open>\<open>sigv4.go\<close>\<close>

record SigV4 =
  s4_AccessKey :: string
  s4_SecretKey :: string
  s4_Region :: string
  s4_Service :: string

definition hmacSHA256 :: "bytes \<Rightarrow> bytes \<Rightarrow> bytes" where
  "hmacSHA256 key msg = hmac_sha256 key msg"

text \<open>The keys of the header map come in any order; the list is one of them.\<close>

definition header_keys :: "http_request \<Rightarrow> string list" where
  "header_keys req =
     (let keys = map (to_lower \<circ> fst) (rq_header req) in
      sort (if ''Host'' \<in> fst ` set (rq_header req) then keys else keys @ [''host'']))"

definition header_value :: "http_request \<Rightarrow> string \<Rightarrow> string" where
  "header_value req k =
     (if k = ''host'' then
        let v = go_header_get (rq_header req) ''Host'' in if v = [] then u_host (rq_url req) else v
      else trim_space (go_header_get (rq_header req) k))"

definition canonicalizeHeaders :: "http_request \<Rightarrow> string \<times> string" where
  "canonicalizeHeaders req =
     (let keys = header_keys req in
      (join '';'' keys, concat (map (\<lambda>k. k @ '':'' @ header_value req k @ [nl]) keys)))"

definition aws_scope :: "SigV4 \<Rightarrow> string \<Rightarrow> string" where
  "aws_scope s dateStamp =
     dateStamp @ ''/'' @ s4_Region s @ ''/'' @ s4_Service s @ ''/aws4_request''"

definition canonical_request ::
  "string \<Rightarrow> string \<Rightarrow> string \<Rightarrow> string \<Rightarrow> string \<Rightarrow> string \<Rightarrow> string" where
  "canonical_request m path query headers names payload =
     join [nl] [m, path, query, headers, names, payload]"

definition string_to_sign :: "string \<Rightarrow> string \<Rightarrow> string \<Rightarrow> string \<Rightarrow> string" where
  "string_to_sign alg amzDate scope creq =
     join [nl] [alg, amzDate, scope, hex_encode (sha256 (str_bytes creq))]"

definition aws_signature :: "SigV4 \<Rightarrow> string \<Rightarrow> string \<Rightarrow> string" where
  "aws_signature s dateStamp sts =
     (let kDate = hmacSHA256 (str_bytes (''AWS4'' @ s4_SecretKey s)) (str_bytes dateStamp);
          kRegion = hmacSHA256 kDate (str_bytes (s4_Region s));
          kService = hmacSHA256 kRegion (str_bytes (s4_Service s));
          kSigning = hmacSHA256 kService (str_bytes ''aws4_request'')
      in hex_encode (hmacSHA256 kSigning (str_bytes sts)))"

text \<open>
  The headers set before signing. \<open>host\<close> is the request's \<open>Host\<close> field; \<open>body\<close> is its
  body, \<^const>\<open>None\<close> for nil and \<open>http.NoBody\<close>.
\<close>

definition sign_headers :: "string \<Rightarrow> string \<Rightarrow> string \<Rightarrow> http_request \<Rightarrow> http_request" where
  "sign_headers amzDate bodySha host req =
     set_header ''Host'' (if host \<noteq> [] then host else u_host (rq_url req))
       (set_header ''X-Amz-Content-Sha256'' bodySha (set_header ''X-Amz-Date'' amzDate req))"

definition aws_authorize :: "SigV4 \<Rightarrow> time \<Rightarrow> string \<Rightarrow> http_request \<Rightarrow> string" where
  "aws_authorize s now bodySha req =
     (let amzDate = format_amz now; dateStamp = format_date now;
          (names, canonHeaders) = canonicalizeHeaders req;
          path = (let p = escaped_path (rq_url req) in if p = [] then ''/'' else p);
          creq = canonical_request (rq_method req) path (u_rawquery (rq_url req)) canonHeaders names bodySha;
          scope = aws_scope s dateStamp;
          sts = string_to_sign ''AWS4-HMAC-SHA256'' amzDate scope creq
      in ''AWS4-HMAC-SHA256 Credential='' @ s4_AccessKey s @ ''/'' @ scope @ '', SignedHeaders='' @ names @
         '', Signature='' @ aws_signature s dateStamp sts)"

definition signAt ::
  "SigV4 \<Rightarrow> string \<Rightarrow> stream option \<Rightarrow> http_request \<Rightarrow> time \<Rightarrow> goerr + http_request" where
  "signAt s host body req now =
     (let finish = (\<lambda>req1 bodySha.
            let req2 = sign_headers (format_amz now) bodySha host req1
            in Inr (set_header ''Authorization'' (aws_authorize s now bodySha req2) req2))
      in case body of
           Some b \<Rightarrow>
             (case read_all b of
                (buf, Some e) \<Rightarrow> Inl (Errorf [Lit ''read body: '', Wrp e])
              | (buf, None) \<Rightarrow>
                  finish (req\<lparr>rq_body := Some buf, rq_content_length := int (length buf)\<rparr>)
                    (hex_encode (sha256 buf)))
         | None \<Rightarrow> finish req (hex_encode (sha256 [])))"

text \<open>
  \<open>SignRequest\<close> on a request made by \<open>http.NewRequest\<close>: its \<open>Host\<close> is the URL's, and an
  empty in-memory body is \<open>http.NoBody\<close>.
\<close>

definition SignRequest :: "SigV4 \<Rightarrow> 'w net \<Rightarrow> 'w request_signer" where
  "SignRequest s client req w =
     (signAt s (u_host (rq_url req))
        (case rq_body req of None \<Rightarrow> None | Some d \<Rightarrow> if d = [] then None else Some (stream_of d))
        req (net_now client w), w)"

text \<open>\<open>url.Values\<close> with one value per key, and its \<open>Encode\<close>.\<close>

type_synonym url_values = "(string \<times> string) list"

definition encode_pair :: "string \<times> string \<Rightarrow> string" where
  "encode_pair p = query_escape (fst p) @ ''='' @ query_escape (snd p)"

definition values_encode :: "url_values \<Rightarrow> string" where
  "values_encode q =
     join ''&'' (map (\<lambda>k. encode_pair (k, header_get q k)) (sort (map fst q)))"

definition presign_values :: "SigV4 \<Rightarrow> time \<Rightarrow> duration \<Rightarrow> url_values" where
  "presign_values s now expiry =
     [(''X-Amz-Algorithm'', ''AWS4-HMAC-SHA256''),
      (''X-Amz-Credential'', s4_AccessKey s @ ''/'' @ aws_scope s (format_date now)),
      (''X-Amz-Date'', format_amz now),
      (''X-Amz-Expires'', itoa (duration_seconds expiry)),
      (''X-Amz-SignedHeaders'', ''host'')]"

definition PresignGetObject ::
  "sdk \<Rightarrow> SigV4 \<Rightarrow> 'w net \<Rightarrow> string \<Rightarrow> string \<Rightarrow> string \<Rightarrow> duration \<Rightarrow> 'w \<Rightarrow> (goerr + string) \<times> 'w" where
  "PresignGetObject k s client endpoint bucket key expiry w =
     (if \<not> has_prefix endpoint ''http''
      then (Inl (Errorf [Lit (''endpoint must start with http(s)://: '' @ go_quote (sdk_IsPrint k) endpoint)]), w)
      else
        (let now = net_now client w;
             amzDate = format_amz now; dateStamp = format_date now;
             scope = aws_scope s dateStamp;
             host = trim_prefix (trim_prefix endpoint ''https://'') ''http://'';
             scheme = (if has_prefix endpoint ''http://'' then ''http'' else ''https'');
             path = ''/'' @ bucket @ ''/'' @ key;
             canonicalQuery = values_encode (presign_values s now expiry);
             creq = canonical_request ''GET'' path canonicalQuery (''host:'' @ host @ [nl]) ''host''
                      ''UNSIGNED-PAYLOAD'';
             sts = string_to_sign ''AWS4-HMAC-SHA256'' amzDate scope creq
         in (Inr (scheme @ ''://'' @ host @ path @ ''?'' @ canonicalQuery @ ''&X-Amz-Signature='' @
                  aws_signature s dateStamp sts), w)))"

section \<open>\<open>s3_presigner.go\<close>\<close>

record BoundS3Presigner =
  bp3_Signer :: SigV4
  bp3_Endpoint :: string

definition Bound_PresignGetObject ::
  "sdk \<Rightarrow> BoundS3Presigner \<Rightarrow> 'w net \<Rightarrow> string \<Rightarrow> string \<Rightarrow> duration \<Rightarrow> 'w \<Rightarrow> (goerr + string) \<times> 'w" where
  "Bound_PresignGetObject k b client bucket key expiry =
     PresignGetObject k (bp3_Signer b) client (bp3_Endpoint b) bucket key expiry"

section \<open>\<open>gcs.go\<close>\<close>

record GCSServiceAccount =
  sa_ClientEmail :: string
  sa_PrivateKey :: string

definition unmarshal_service_account :: "bytes \<Rightarrow> GCSServiceAccount option" where
  "unmarshal_service_account d =
     (case Option.bind (json_parse (bytes_str d)) json_members of
        None \<Rightarrow> None
      | Some kvs \<Rightarrow>
          (case (decode_str ''client_email'' kvs, decode_str ''private_key'' kvs) of
             (Some e, Some p) \<Rightarrow> Some \<lparr>sa_ClientEmail = e, sa_PrivateKey = p\<rparr>
           | _ \<Rightarrow> None))"

text \<open>A parsed key is an RSA key or one of another kind.\<close>

datatype 'k private_key = RSAKey 'k | OtherKey

record 'k x509 =
  x5_PKCS8 :: "bytes \<Rightarrow> goerr + 'k private_key"
  x5_PKCS1 :: "bytes \<Rightarrow> goerr + 'k"

record 'k GCSSigner =
  sg_email :: string
  sg_key :: 'k

definition LoadGCSServiceAccount ::
  "file_system \<Rightarrow> 'k x509 \<Rightarrow> string \<Rightarrow> goerr + 'k GCSSigner" where
  "LoadGCSServiceAccount fs x path =
     (case fs_ReadFile fs path of
        Inl e \<Rightarrow> Inl (Errorf [Lit (''read '' @ path @ '': ''), Wrp e])
      | Inr data \<Rightarrow>
          (case unmarshal_service_account data of
             None \<Rightarrow> Inl (Errorf [Lit (''parse '' @ path @ '': ''), Wrp (Foreign ''json.Unmarshal'')])
           | Some sa \<Rightarrow>
               if sa_ClientEmail sa = [] \<or> sa_PrivateKey sa = []
               then Inl (Errorf [Lit (path @ '': missing client_email or private_key'')])
               else (case pem_decode (sa_PrivateKey sa) of
                  None \<Rightarrow> Inl (Errorf [Lit (path @ '': private_key is not valid PEM'')])
                | Some block \<Rightarrow>
                    (case (case x5_PKCS8 x block of
                             Inr key \<Rightarrow> Inr key
                           | Inl _ \<Rightarrow> (case x5_PKCS1 x block of Inr r \<Rightarrow> Inr (RSAKey r) | Inl e \<Rightarrow> Inl e)) of
                       Inl e \<Rightarrow> Inl (Errorf [Lit (path @ '': parse private_key: ''), Wrp e])
                     | Inr OtherKey \<Rightarrow> Inl (Errorf [Lit (path @ '': private_key is not RSA'')])
                     | Inr (RSAKey r) \<Rightarrow> Inr \<lparr>sg_email = sa_ClientEmail sa, sg_key = r\<rparr>))))"

text \<open>\<open>encodeCanonical\<close>: the loop over the sorted keys.\<close>

definition encodeCanonical :: "url_values \<Rightarrow> string" where
  "encodeCanonical q =
     fst (fold (\<lambda>k (sb, i).
            (sb @ (if 0 < i then ''&'' else []) @ query_escape k @ ''='' @ query_escape (header_get q k),
             i + 1))
          (sort (map fst q)) ([], 0 :: nat))"

definition goog_values :: "string \<Rightarrow> time \<Rightarrow> duration \<Rightarrow> url_values" where
  "goog_values email now expiry =
     [(''X-Goog-Algorithm'', ''GOOG4-RSA-SHA256''),
      (''X-Goog-Credential'', email @ ''/'' @ format_date now @ ''/auto/storage/goog4_request''),
      (''X-Goog-Date'', format_amz now),
      (''X-Goog-Expires'', itoa (duration_seconds expiry)),
      (''X-Goog-SignedHeaders'', ''host'')]"

definition SignURL ::
  "('k \<Rightarrow> bytes \<Rightarrow> goerr + bytes) \<Rightarrow> 'k GCSSigner \<Rightarrow> 'w net \<Rightarrow> string \<Rightarrow> string \<Rightarrow> duration \<Rightarrow> 'w \<Rightarrow>
   (goerr + string) \<times> 'w" where
  "SignURL rsa_sign s client bucket object expiry w =
     (let now = net_now client w;
          amzDate = format_amz now; dateStamp = format_date now;
          alg = ''GOOG4-RSA-SHA256'';
          scope = dateStamp @ ''/auto/storage/goog4_request'';
          host = ''storage.googleapis.com'';
          path = ''/'' @ bucket @ ''/'' @ object;
          canonicalQuery = encodeCanonical (goog_values (sg_email s) now expiry);
          creq = canonical_request ''GET'' path canonicalQuery (''host:'' @ host @ [nl]) ''host''
                   ''UNSIGNED-PAYLOAD'';
          sts = string_to_sign alg amzDate scope creq
      in case rsa_sign (sg_key s) (sha256 (str_bytes sts)) of
           Inl e \<Rightarrow> (Inl (Errorf [Lit ''rsa sign: '', Wrp e]), w)
         | Inr sig \<Rightarrow>
             (Inr (''https://'' @ host @ path @ ''?'' @ canonicalQuery @ ''&X-Goog-Signature='' @
                   hex_encode sig), w))"

end
