(* ===== verification/Signed_Urls.thy ===== *)
theory Signed_Urls
  imports Signers Rustfs_Contract
begin

text \<open>
  Facts about the signers: what \<open>SignRequest\<close> does to a request, that it does not depend on
  the order of the header map, that the two query encoders agree, and how a signed URL is
  taken apart again.
\<close>

section \<open>Header maps\<close>

lemma map_of_mset:
  assumes "distinct (map fst a)" "mset a = mset b"
  shows "map_of a = map_of b"
proof -
  have "distinct (map fst b)" using assms by (metis mset_eq_imp_distinct_iff mset_map)
  moreover have "set a = set b" using assms(2) by (rule mset_eq_setD)
  ultimately show ?thesis using assms(1) by (metis map_of_inject_set)
qed

lemma canonicalizeHeaders_cong:
  assumes "distinct (map fst (rq_header a))" "mset (rq_header a) = mset (rq_header b)"
    "rq_url a = rq_url b"
  shows "canonicalizeHeaders a = canonicalizeHeaders b"
proof -
  have "mset (map (to_lower \<circ> fst) (rq_header a)) = mset (map (to_lower \<circ> fst) (rq_header b))"
    using assms(2) by simp
  moreover have "set (rq_header a) = set (rq_header b)" using assms(2) by (rule mset_eq_setD)
  ultimately have k: "header_keys a = header_keys b"
    unfolding header_keys_def Let_def by (intro properties_for_sort) (auto simp: sorted_sort)
  have "header_value a x = header_value b x" for x
    using map_of_mset [OF assms(1,2)] assms(3)
    by (simp add: header_value_def go_header_get_def header_get_def Let_def)
  with k show ?thesis by (simp add: canonicalizeHeaders_def)
qed

lemma keys_header_set:
  "map fst (header_set h k v) = k # filter (\<lambda>x. x \<noteq> k) (map fst h)"
  by (simp add: header_set_def filter_map comp_def)

lemma distinct_header_set: "distinct (map fst h) \<Longrightarrow> distinct (map fst (header_set h k v))"
  by (simp add: keys_header_set)

lemma mset_header_set: "mset h = mset h' \<Longrightarrow> mset (header_set h k v) = mset (header_set h' k v)"
  by (simp add: header_set_def)

lemma header_get_set: "header_get (header_set h k v) x = (if x = k then v else header_get h x)"
proof -
  have "map_of (filter (\<lambda>p. fst p \<noteq> k) h) x = map_of h x" if "x \<noteq> k"
    using that by (induction h) auto
  then show ?thesis by (simp add: header_get_def header_set_def)
qed

lemma rq_header_set_header [simp]: "rq_header (set_header k v r) = header_set (rq_header r) k v"
  by (simp add: set_header_def)

lemma set_header_body [simp]:
  "rq_content_length (set_header k v r) = rq_content_length r"
  by (simp add: set_header_def)

section \<open>Signing a request\<close>

definition payload :: "http_request \<Rightarrow> bytes" where
  "payload req = (case rq_body req of None \<Rightarrow> [] | Some d \<Rightarrow> d)"

definition prepared :: "SigV4 \<Rightarrow> time \<Rightarrow> http_request \<Rightarrow> http_request" where
  "prepared s now req =
     sign_headers (format_amz now) (hex_encode (sha256 (payload req))) (u_host (rq_url req))
       (if payload req = [] then req else req\<lparr>rq_content_length := int (length (payload req))\<rparr>)"

text \<open>The request signers never fail on the requests of the store.\<close>

lemma SignRequest_eq:
  "SignRequest s client req w =
     (let r = prepared s (net_now client w) req in
      (Inr (set_header ''Authorization''
              (aws_authorize s (net_now client w) (hex_encode (sha256 (payload req))) r) r), w))"
proof (cases "rq_body req")
  case None
  then show ?thesis by (simp add: SignRequest_def signAt_def prepared_def payload_def Let_def)
next
  case (Some d)
  then have eq: "req\<lparr>rq_body := Some d, rq_content_length := n\<rparr> = req\<lparr>rq_content_length := n\<rparr>" for n
    by (cases req) simp
  from Some show ?thesis
    by (simp add: SignRequest_def signAt_def prepared_def payload_def Let_def eq)
qed

lemma prepared_sel [simp]:
  "rq_method (prepared s now req) = rq_method req" "rq_url (prepared s now req) = rq_url req"
  "rq_body (prepared s now req) = rq_body req"
  "rq_header (prepared s now req) =
     header_set (header_set (header_set (rq_header req) ''X-Amz-Date'' (format_amz now))
       ''X-Amz-Content-Sha256'' (hex_encode (sha256 (payload req)))) ''Host'' (u_host (rq_url req))"
  by (simp_all add: prepared_def sign_headers_def)

lemma header_keys_prepared:
  "header_keys (prepared s now req) = sort (map (to_lower \<circ> fst) (rq_header (prepared s now req)))"
  by (simp add: header_keys_def keys_header_set flip: set_map)

lemma aws_authorize_cong:
  assumes "canonicalizeHeaders a = canonicalizeHeaders b" "rq_url a = rq_url b" "rq_method a = rq_method b"
  shows "aws_authorize s now h a = aws_authorize s now h b"
  using assms by (simp add: aws_authorize_def)

section \<open>Query strings\<close>

lemma encode_pair_chars:
  "x \<in> set (encode_pair p) \<Longrightarrow> x = CHR ''='' \<or> x = CHR ''%'' \<or> x = CHR ''+'' \<or> unreserved x"
  by (auto simp: encode_pair_def dest: query_escape_set)

lemma unreserved_query:
  "unreserved x \<Longrightarrow> plain_url_char x \<and> x \<noteq> CHR ''&'' \<and> x \<noteq> CHR '';'' \<and> x \<noteq> CHR ''=''"
  by (auto simp: unreserved_def is_alpha_def is_digit_def plain_url_char_def is_ctl_def Let_def)

lemma encode_pair_plain:
  "x \<in> set (encode_pair p) \<Longrightarrow> plain_url_char x \<and> x \<noteq> CHR ''&'' \<and> x \<noteq> CHR '';''"
  by (drule encode_pair_chars) (auto simp: plain_url_char_def is_ctl_def dest: unreserved_query)

lemma query_escape_no_eq: "CHR ''='' \<notin> set (query_escape s)"
  by (auto dest!: query_escape_set unreserved_query)

lemma query_pair_of:
  "(let (k, v) = (case cut_str ''='' (encode_pair p) of None \<Rightarrow> (encode_pair p, []) | Some x \<Rightarrow> x)
    in case (unescape True k, unescape True v) of (Some k', Some v') \<Rightarrow> Some (k', v') | _ \<Rightarrow> None) = Some p"
  using cut_str_first1 [OF query_escape_no_eq, of "fst p" "query_escape (snd p)"]
  by (simp add: encode_pair_def unescape_query_escape)

lemma query_pairs_encode: "query_pairs (join ''&'' (map encode_pair ps)) = ps"
proof (cases "ps = []")
  case True
  then show ?thesis by (simp add: query_pairs_def List.map_filter_def)
next
  case False
  have "split_byte CHR ''&'' (join ''&'' (map encode_pair ps)) = map encode_pair ps"
    using False encode_pair_plain by (intro split_byte_join) auto
  moreover have "encode_pair p \<noteq> [] \<and> CHR '';'' \<notin> set (encode_pair p)" for p
    using encode_pair_plain [of "CHR '';''" p] by (auto simp: encode_pair_def)
  ultimately show ?thesis
    unfolding query_pairs_def using query_pair_of
    by (simp add: List.map_filter_def comp_def)
qed

lemma join_plain:
  "\<forall>w \<in> set ws. list_all P w \<Longrightarrow> list_all P sep \<Longrightarrow> list_all P (join sep ws)"
  by (induction sep ws rule: join.induct) auto

lemma query_plain: "list_all plain_url_char (join ''&'' (map encode_pair ps))"
  using encode_pair_plain
  by (intro join_plain) (auto simp: list_all_iff plain_url_char_def is_ctl_def)

lemma join_snoc: "ws \<noteq> [] \<Longrightarrow> join sep (ws @ [w]) = join sep ws @ sep @ w"
  by (induction sep ws rule: join.induct) auto

text \<open>The loop of \<open>encodeCanonical\<close> writes what \<open>Values.Encode\<close> writes.\<close>

lemma encode_loop:
  "fst (fold (\<lambda>k (sb, i). (sb @ (if 0 < i then sep else []) @ f k, i + 1)) ks (sb, i)) =
     sb @ (if ks \<noteq> [] \<and> 0 < (i :: nat) then sep else []) @ join sep (map f ks)"
proof (induction ks arbitrary: sb i)
  case (Cons k ks)
  from Cons.IH [of "sb @ (if 0 < i then sep else []) @ f k" "Suc i"] show ?case
    by (simp add: join_Cons)
qed simp

lemma encodeCanonical_eq: "encodeCanonical q = values_encode q"
  using encode_loop [of "''&''" "\<lambda>k. encode_pair (k, header_get q k)" "sort (map fst q)" "[]" 0]
  by (simp add: encodeCanonical_def values_encode_def encode_pair_def)

text \<open>The parameters of a signed URL are listed in the order they sort in.\<close>

lemma presign_values_encode: "values_encode (presign_values s now d) = join ''&'' (map encode_pair (presign_values s now d))"
proof -
  have "sort [''X-Amz-Algorithm'', ''X-Amz-Credential'', ''X-Amz-Date'', ''X-Amz-Expires'', ''X-Amz-SignedHeaders''] =
     [''X-Amz-Algorithm'', ''X-Amz-Credential'', ''X-Amz-Date'', ''X-Amz-Expires'', ''X-Amz-SignedHeaders'']"
    by code_simp
  then show ?thesis by (simp add: values_encode_def presign_values_def header_get_def)
qed

lemma goog_values_encode: "values_encode (goog_values e now d) = join ''&'' (map encode_pair (goog_values e now d))"
proof -
  have "sort [''X-Goog-Algorithm'', ''X-Goog-Credential'', ''X-Goog-Date'', ''X-Goog-Expires'', ''X-Goog-SignedHeaders''] =
     [''X-Goog-Algorithm'', ''X-Goog-Credential'', ''X-Goog-Date'', ''X-Goog-Expires'', ''X-Goog-SignedHeaders'']"
    by code_simp
  then show ?thesis by (simp add: values_encode_def goog_values_def header_get_def)
qed

lemma query_escape_hex: "query_escape (hex_encode d) = hex_encode d"
proof -
  have "\<forall>c \<in> set hex_chars. unreserved c" by code_simp
  then have "unreserved c" if "c \<in> set (hex_encode d)" for c using that set_hex_encode [of d] by auto
  then have "map (\<lambda>c. if unreserved c then [c] else if c = CHR '' '' then ''+'' else percent c) (hex_encode d)
      = map (\<lambda>c. [c]) (hex_encode d)" by (intro map_cong) auto
  then show ?thesis by (simp only: query_escape_def concat_map_singleton map_ident)
qed

text \<open>A base, a plain path and a signed query make a URL that parses back into them.\<close>

lemma signed_url_parse:
  assumes "base_parts b sch auth host" "plain_key bucket" "plain_key obj"
  shows "parse_url (b @ (''/'' @ bucket @ ''/'' @ obj) @ CHR ''?'' # join ''&'' (map encode_pair ps)) =
    Some \<lparr>u_scheme = sch, u_host = host, u_path = ''/'' @ bucket @ ''/'' @ obj,
          u_rawpath = ''/'' @ bucket @ ''/'' @ obj, u_rawquery = join ''&'' (map encode_pair ps)\<rparr>"
proof -
  let ?p = "''/'' @ bucket @ ''/'' @ obj"
  have pk: "plain_key ?p" using assms(2,3) by (simp add: plain_key_def plain_url_char_def is_ctl_def)
  then have "CHR ''%'' \<notin> set ?p" "list_all plain_url_char ?p" by (auto simp: plain_key_def list_all_iff)
  then show ?thesis
    using parse_url_base [OF assms(1), of ?p ?p "join ''&'' (map encode_pair ps)" True]
      plain_url_string [OF query_plain [of ps]] unescape_plain [of ?p] by simp
qed

text \<open>The query of a signed URL, with the signature as its last parameter.\<close>

lemma signed_query:
  assumes "qs \<noteq> []" "query_escape name = name"
  shows "join ''&'' (map encode_pair qs) @ ''&'' @ name @ ''='' @ hex_encode sig =
    join ''&'' (map encode_pair (qs @ [(name, hex_encode sig)]))"
  using assms join_snoc [of "map encode_pair qs" "''&''" "encode_pair (name, hex_encode sig)"]
  by (simp add: encode_pair_def query_escape_hex)

lemma query_escape_name:
  "query_escape ''X-Amz-Signature'' = ''X-Amz-Signature''" "query_escape ''X-Goog-Signature'' = ''X-Goog-Signature''"
  by code_simp+

lemma presign_url_shape:
  assumes "base_parts e sch auth host" "sch = ''http'' \<or> sch = ''https''"
  shows "\<exists>sig. PresignGetObject k s client e bucket key d w =
    (Inr (e @ (''/'' @ bucket @ ''/'' @ key) @ ''?'' @ values_encode (presign_values s (net_now client w) d) @
          ''&X-Amz-Signature='' @ hex_encode sig), w)"
proof -
  have e: "e = sch @ ''://'' @ auth" and "CHR ''/'' \<notin> set auth" using assms(1) by (auto simp: base_parts_def)
  have "\<not> has_prefix auth ''http://''"
  proof
    assume "has_prefix auth ''http://''"
    then have "set ''http://'' \<subseteq> set auth" by (metis has_prefixD set_append sup_ge1)
    with \<open>CHR ''/'' \<notin> set auth\<close> show False by simp
  qed
  then have t: "trim_prefix auth ''http://'' = auth" by (simp add: trim_prefix_def)
  have "has_prefix e ''http''" using assms(2) by (auto simp: e)
  moreover have "trim_prefix (trim_prefix e ''https://'') ''http://'' = auth"
    using assms(2) t trim_prefix_append [of "''https://''" auth] trim_prefix_append [of "''http://''" auth]
    by (auto simp: e trim_prefix_def [of "CHR ''h'' # _" "''https://''"])
  moreover have "(if has_prefix e ''http://'' then ''http'' else ''https'') = sch" using assms(2) by (auto simp: e)
  ultimately show ?thesis
    by (auto simp: PresignGetObject_def Let_def aws_signature_def e)
qed

section \<open>Service-account files\<close>

lemma googleapis_base:
  "base_parts ''https://storage.googleapis.com'' ''https'' ''storage.googleapis.com'' ''storage.googleapis.com''"
  by code_simp

text \<open>Both signers' URLs, taken apart.\<close>

lemma presigned_parse:
  assumes "base_parts e sch auth host" "sch = ''http'' \<or> sch = ''https''" "plain_key bucket" "plain_key key"
  obtains u q sig where "PresignGetObject k s client e bucket key d w = (Inr u, w)"
    "parse_url u = Some \<lparr>u_scheme = sch, u_host = host, u_path = ''/'' @ bucket @ ''/'' @ key,
       u_rawpath = ''/'' @ bucket @ ''/'' @ key, u_rawquery = q\<rparr>"
    "query_pairs q = presign_values s (net_now client w) d @ [(''X-Amz-Signature'', sig)]"
proof -
  let ?pv = "presign_values s (net_now client w) d" and ?path = "''/'' @ bucket @ ''/'' @ key"
  obtain sig where sig: "PresignGetObject k s client e bucket key d w =
      (Inr (e @ ?path @ ''?'' @ values_encode ?pv @ ''&X-Amz-Signature='' @ hex_encode sig), w)"
    using presign_url_shape [OF assms(1,2), of k s client bucket key d w] by blast
  let ?q = "join ''&'' (map encode_pair (?pv @ [(''X-Amz-Signature'', hex_encode sig)]))"
  have "values_encode ?pv @ ''&X-Amz-Signature='' @ hex_encode sig = ?q"
    using signed_query [of "?pv" "''X-Amz-Signature''" sig] presign_values_encode
    by (simp add: presign_values_def query_escape_name)
  with sig have u: "PresignGetObject k s client e bucket key d w = (Inr (e @ ?path @ CHR ''?'' # ?q), w)" by simp
  show thesis by (rule that [OF u signed_url_parse [OF assms(1,3,4)] query_pairs_encode])
qed

lemma gcs_signed_parse:
  assumes "rsa_sign (sg_key sg) (sha256 (str_bytes sts)) = Inr sig" "plain_key bucket" "plain_key obj"
    and "sts = string_to_sign ''GOOG4-RSA-SHA256'' (format_amz (net_now client w))
       (format_date (net_now client w) @ ''/auto/storage/goog4_request'')
       (canonical_request ''GET'' (''/'' @ bucket @ ''/'' @ obj) (encodeCanonical (goog_values (sg_email sg) (net_now client w) d))
          (''host:storage.googleapis.com'' @ [nl]) ''host'' ''UNSIGNED-PAYLOAD'')"
  obtains u q where "SignURL rsa_sign sg client bucket obj d w = (Inr u, w)"
    "parse_url u = Some \<lparr>u_scheme = ''https'', u_host = ''storage.googleapis.com'', u_path = ''/'' @ bucket @ ''/'' @ obj,
       u_rawpath = ''/'' @ bucket @ ''/'' @ obj, u_rawquery = q\<rparr>"
    "query_pairs q = goog_values (sg_email sg) (net_now client w) d @ [(''X-Goog-Signature'', hex_encode sig)]"
proof -
  let ?gv = "goog_values (sg_email sg) (net_now client w) d" and ?path = "''/'' @ bucket @ ''/'' @ obj"
  let ?q = "join ''&'' (map encode_pair (?gv @ [(''X-Goog-Signature'', hex_encode sig)]))"
  have "encodeCanonical ?gv @ ''&X-Goog-Signature='' @ hex_encode sig = ?q"
    using signed_query [of ?gv "''X-Goog-Signature''" sig] goog_values_encode
    by (simp add: goog_values_def query_escape_name encodeCanonical_eq)
  then have u: "SignURL rsa_sign sg client bucket obj d w =
      (Inr (''https://storage.googleapis.com'' @ ?path @ CHR ''?'' # ?q), w)"
    using assms(1,4) by (simp add: SignURL_def Let_def)
  show thesis by (rule that [OF u signed_url_parse [OF googleapis_base assms(2,3)] query_pairs_encode])
qed

definition account_json :: "string \<Rightarrow> string \<Rightarrow> json" where
  "account_json email pem =
     JObj [(''type'', JStr ''service_account''), (''client_email'', JStr email), (''private_key'', JStr pem)]"

text \<open>The file Google issues, less the members that are not read.\<close>

definition account_file :: "string \<Rightarrow> string \<Rightarrow> bytes \<Rightarrow> bytes" where
  "account_file email ty der = str_bytes (json_encode (account_json email (pem_text ty der)))"

lemma ascii_pem_text: "ascii ty \<Longrightarrow> ascii (pem_text ty der)"
  using ascii_b64 [of der] by (simp add: pem_text_def ascii_def code_def nl_def del: ascii_b64)

lemma unmarshal_account_file:
  assumes "ascii email" "ascii ty"
  shows "unmarshal_service_account (account_file email ty der) =
    Some \<lparr>sa_ClientEmail = email, sa_PrivateKey = pem_text ty der\<rparr>"
proof -
  let ?j = "account_json email (pem_text ty der)"
  have "json_plain ?j" "json_depth ?j \<le> 10000"
    using assms(1) ascii_pem_text [OF assms(2), of der] by (simp_all add: account_json_def ascii_def code_def)
  then have p: "json_parse (json_encode ?j) = Some ?j" using json_parse_encode by blast
  have f: "json_fold ''client_email'' = ''CLIENT_EMAIL''" "json_fold ''private_key'' = ''PRIVATE_KEY''"
      "json_fold ''type'' = ''TYPE''"
    by (simp_all add: json_fold_eval)
  show ?thesis
    unfolding unmarshal_service_account_def account_file_def str_bytes_inverse p
    by (simp add: json_members_def account_json_def decode_str_def f)
qed

end
