(* ===== verification/Signing_Properties.thy ===== *)
theory Signing_Properties
  imports Signed_Urls Instances
begin

text \<open>
  What the signers guarantee: what is signed in a request, that the result does not depend
  on the order of the header map, and that signed URLs come apart into the parameters they
  were made from.
\<close>

definition demo_signer :: SigV4 where
  "demo_signer = \<lparr>s4_AccessKey = ''AKIA'', s4_SecretKey = ''secret'', s4_Region = ''us-east-1'', s4_Service = ''s3''\<rparr>"

definition demo_put_request :: http_request where
  "demo_put_request =
     \<lparr>rq_method = ''PUT'', rq_url = \<lparr>u_scheme = ''http'', u_host = ''rustfs'', u_path = ''/a/b'', u_rawpath = ''/a/b'', u_rawquery = []\<rparr>,
      rq_header = [(''Content-Type'', ''text/plain''), (''X-Trace'', ''1'')], rq_body = Some [1, 2], rq_content_length = 2\<rparr>"

definition signing_rustfs :: "S3Fake RustFSBackend" where
  "signing_rustfs =
     demo_rustfs\<lparr>r_cfg := (r_cfg demo_rustfs)\<lparr>rf_URLSigner := Some (Bound_PresignGetObject demo_sdk
       \<lparr>bp3_Signer = demo_signer, bp3_Endpoint = ''http://rustfs''\<rparr> (s3_fake_net 0))\<rparr>\<rparr>"





text \<open>
  C34. The signature does not depend on the iteration order of Go's header map: two requests
  that differ only in the order of their headers are signed with the same headers.
\<close>

theorem sign_request_order_irrelevant:
  assumes "distinct (map fst (rq_header a))" "mset h = mset (rq_header a)"
  shows "\<exists>ra rb. SignRequest s client a w = (Inr ra, w) \<and> SignRequest s client (a\<lparr>rq_header := h\<rparr>) w = (Inr rb, w) \<and>
     header_get (rq_header ra) = header_get (rq_header rb)"
proof -
  let ?now = "net_now client w" and ?b = "a\<lparr>rq_header := h\<rparr>"
  let ?pa = "prepared s ?now a" and ?pb = "prepared s ?now ?b"
  have b: "rq_header ?b = h" "rq_url ?b = rq_url a" by simp_all
  have pl: "payload ?b = payload a" by (simp add: payload_def)
  have d: "distinct (map fst (rq_header ?pa))" using assms(1) by (simp add: distinct_header_set)
  have m: "mset (rq_header ?pa) = mset (rq_header ?pb)"
    unfolding prepared_sel pl b by (intro mset_header_set) (simp add: assms(2))
  have "canonicalizeHeaders ?pa = canonicalizeHeaders ?pb" by (rule canonicalizeHeaders_cong [OF d m]) simp
  then have au: "aws_authorize s ?now x ?pa = aws_authorize s ?now x ?pb" for x by (rule aws_authorize_cong) simp_all
  have "header_get (rq_header ?pa) = header_get (rq_header ?pb)"
    using map_of_mset [OF d m] by (simp add: header_get_def fun_eq_iff)
  then have "header_get (header_set (rq_header ?pa) k v) = header_get (header_set (rq_header ?pb) k v)" for k v
    by (simp only: fun_eq_iff header_get_set simp_thms)
  then show ?thesis unfolding SignRequest_eq Let_def pl using au by simp
qed

theorem sign_request_order_irrelevant_witness:
  "\<exists>ra rb. SignRequest demo_signer (s3_fake_net 0) demo_put_request NewS3Fake = (Inr ra, NewS3Fake) \<and>
     SignRequest demo_signer (s3_fake_net 0)
       (demo_put_request\<lparr>rq_header := [(''X-Trace'', ''1''), (''Content-Type'', ''text/plain'')]\<rparr>) NewS3Fake = (Inr rb, NewS3Fake) \<and>
     header_get (rq_header ra) = header_get (rq_header rb)"
proof (rule sign_request_order_irrelevant)
  show "distinct (map fst (rq_header demo_put_request))" by (simp add: demo_put_request_def)
  show "mset [(''X-Trace'', ''1''), (''Content-Type'', ''text/plain'')] = mset (rq_header demo_put_request)"
    by (simp add: demo_put_request_def)
qed

text \<open>
  C31. Presigned URLs over RustFS: a backend with the bound presigner answers \<open>Resolve\<close> with
  a credential whose URL names the endpoint's host and the object's path, carries exactly
  the five parameters and the signature over them, expires after the requested number of
  seconds, and the credential says so.
\<close>

theorem presigned_url_roundtrip:
  assumes "rf_URLSigner (r_cfg b) = Some (Bound_PresignGetObject k bs (r_client b))"
    and "base_parts (bp3_Endpoint bs) sch auth host" "sch = ''http'' \<or> sch = ''https''"
    and "plain_key (rf_Bucket (r_cfg b))" "plain_key (rf_Prefix (r_cfg b) @ sdk_String k c)"
    and "0 \<le> sint n" "sint n \<le> max_seconds"
  shows "\<exists>cred q sig. RustFS_Resolve k b c (seconds n) w = (Inr cred, w) \<and>
     parse_url (rc_URL cred) = Some \<lparr>u_scheme = sch, u_host = host,
       u_path = ''/'' @ rf_Bucket (r_cfg b) @ ''/'' @ rf_Prefix (r_cfg b) @ sdk_String k c,
       u_rawpath = ''/'' @ rf_Bucket (r_cfg b) @ ''/'' @ rf_Prefix (r_cfg b) @ sdk_String k c, u_rawquery = q\<rparr> \<and>
     query_pairs q = presign_values (bp3_Signer bs) (net_now (r_client b) w) (seconds n) @ [(''X-Amz-Signature'', sig)] \<and>
     parse_int64 (query_get q ''X-Amz-Expires'') = Some n \<and>
     rc_Expiry cred = Some (net_now (r_client b) w + sint n * 1000000000)"
proof -
  let ?key = "rf_Prefix (r_cfg b) @ sdk_String k c"
  obtain u q sig where u: "PresignGetObject k (bp3_Signer bs) (r_client b) (bp3_Endpoint bs) (rf_Bucket (r_cfg b)) ?key (seconds n) w = (Inr u, w)"
    "parse_url u = Some \<lparr>u_scheme = sch, u_host = host, u_path = ''/'' @ rf_Bucket (r_cfg b) @ ''/'' @ ?key,
       u_rawpath = ''/'' @ rf_Bucket (r_cfg b) @ ''/'' @ ?key, u_rawquery = q\<rparr>"
    "query_pairs q = presign_values (bp3_Signer bs) (net_now (r_client b) w) (seconds n) @ [(''X-Amz-Signature'', sig)]"
    by (rule presigned_parse [OF assms(2-5)])
  have "query_get q ''X-Amz-Expires'' = itoa (sint n)"
    using duration_seconds_whole [of n] assms(6,7) u(3)
    by (simp add: query_get_def presign_values_def max_seconds_def)
  then have "parse_int64 (query_get q ''X-Amz-Expires'') = Some n" by (simp only: parse_int64_itoa)
  moreover have "time_add t (seconds n) = t + sint n * 1000000000" for t
    using sint_seconds [of n] assms(6,7) by (simp add: time_add_def max_seconds_def)
  ultimately show ?thesis
    using u assms(1) by (simp add: RustFS_Resolve_def Bound_PresignGetObject_def)
qed

theorem presigned_url_roundtrip_witness:
  "\<exists>cred q. RustFS_Resolve demo_sdk signing_rustfs demo_c (seconds 300) NewS3Fake = (Inr cred, NewS3Fake) \<and>
     (\<exists>u. parse_url (rc_URL cred) = Some u \<and> u_host u = ''rustfs'' \<and> u_rawquery u = q) \<and>
     parse_int64 (query_get q ''X-Amz-Expires'') = Some 300"
proof -
  let ?bs = "\<lparr>bp3_Signer = demo_signer, bp3_Endpoint = ''http://rustfs''\<rparr>"
  have s: "rf_URLSigner (r_cfg signing_rustfs) = Some (Bound_PresignGetObject demo_sdk ?bs (r_client signing_rustfs))"
    by (simp add: signing_rustfs_def demo_rustfs_def)
  have b: "base_parts (bp3_Endpoint ?bs) ''http'' ''rustfs'' ''rustfs''" using demo_base_rustfs by simp
  have "rf_Bucket (r_cfg signing_rustfs) = ''artifacts''" "rf_Prefix (r_cfg signing_rustfs) = ''v1/''"
    by (simp_all add: signing_rustfs_def demo_rustfs_def)
  then have k: "plain_key (rf_Bucket (r_cfg signing_rustfs))"
      "plain_key (rf_Prefix (r_cfg signing_rustfs) @ sdk_String demo_sdk demo_c)"
    using demo_plain_keys plain_cidsD [OF demo_plain_cids demo_reg_c] by (simp_all only: plain_key_append simp_thms)
  have n: "0 \<le> sint (300 :: int64)" "sint (300 :: int64) \<le> max_seconds" by (simp_all add: max_seconds_def)
  from presigned_url_roundtrip [OF s b _ k n, of NewS3Fake] show ?thesis by force
qed



end
