(* ===== verification/Cmd_Lifecycle.thy ===== *)
theory Cmd_Lifecycle
  imports Demo_Start
begin

text \<open>
  \<open>main\<close> from the call that serves to the end of the process: the goroutine that waits for
  a signal, the HTTP server, the requests in flight and the main goroutine, as one step
  relation. \<open>ListenAndServe\<close> and \<open>Shutdown\<close> are those of \<open>net/http\<close>: once \<open>Shutdown\<close> is
  called the first returns \<open>ErrServerClosed\<close>, while the second waits for the requests in
  flight, or for its context. The relation starts after the line that says the store is
  starting; a signal that is handled before that line is outside it.
\<close>

datatype main_pc = Listening | Exited nat

text \<open>
  The signal goroutine: at the receive, past the log line, inside \<open>Shutdown\<close>, or past its
  \<open>cancel\<close>. Until \<open>Shutdown\<close> is called the server is open.
\<close>

datatype signal_pc = Waiting | Signalled | InShutdown | Cancelled

fun srv_open :: "signal_pc \<Rightarrow> bool" where
  "srv_open Waiting = True"
| "srv_open Signalled = True"
| "srv_open InShutdown = False"
| "srv_open Cancelled = False"

record process =
  pr_main :: main_pc
  pr_signal :: signal_pc
  pr_inflight :: nat
  pr_watchdog :: bool
  pr_log :: "log_record list"

definition launched :: "('s, 'w) service \<Rightarrow> log_record list \<Rightarrow> process" where
  "launched sv lg =
     \<lparr>pr_main = Listening, pr_signal = Waiting, pr_inflight = 0,
      pr_watchdog = (\<not> snd (runVerifyOnPushWatchdog (sv_config sv) [])), pr_log = lg\<rparr>"

definition shutting_down :: "string \<Rightarrow> log_record" where
  "shutting_down sig = info ''shutting down'' [(''signal'', AStr sig)]"

definition stopped :: log_record where
  "stopped = info ''artifact store stopped'' []"

text \<open>
  The end of the process cancels the context (the deferred call) and stops every goroutine,
  so no rule applies to a process that has exited.
\<close>

inductive proc_step :: "process \<Rightarrow> process \<Rightarrow> bool" where
  accepts: "pr_main p = Listening \<Longrightarrow> srv_open (pr_signal p) \<Longrightarrow>
     proc_step p (p\<lparr>pr_inflight := Suc (pr_inflight p)\<rparr>)"
| answers: "pr_main p = Listening \<Longrightarrow> pr_inflight p = Suc n \<Longrightarrow> proc_step p (p\<lparr>pr_inflight := n\<rparr>)"
| signalled: "pr_main p = Listening \<Longrightarrow> pr_signal p = Waiting \<Longrightarrow>
     proc_step p (p\<lparr>pr_signal := Signalled, pr_log := pr_log p @ [shutting_down sig]\<rparr>)"
| shuts_down: "pr_main p = Listening \<Longrightarrow> pr_signal p = Signalled \<Longrightarrow>
     proc_step p (p\<lparr>pr_signal := InShutdown\<rparr>)"
| drained: "pr_main p = Listening \<Longrightarrow> pr_signal p = InShutdown \<Longrightarrow> pr_inflight p = 0 \<or> timeout \<Longrightarrow>
     proc_step p (p\<lparr>pr_signal := Cancelled, pr_watchdog := False\<rparr>)"
| closed: "pr_main p = Listening \<Longrightarrow> \<not> srv_open (pr_signal p) \<Longrightarrow>
     proc_step p (p\<lparr>pr_main := Exited 0, pr_watchdog := False, pr_log := pr_log p @ [stopped]\<rparr>)"
| serve_failed: "pr_main p = Listening \<Longrightarrow> srv_open (pr_signal p) \<Longrightarrow>
     proc_step p (p\<lparr>pr_main := Exited 1, pr_watchdog := False, pr_log := pr_log p @ [fatal ''server failed'' e]\<rparr>)"

inductive_cases proc_stepE: "proc_step p q"

inductive proc_reach :: "process \<Rightarrow> process \<Rightarrow> bool" where
  refl: "proc_reach p p"
| step: "proc_reach p q \<Longrightarrow> proc_step q r \<Longrightarrow> proc_reach p r"

section \<open>Invariants\<close>

text \<open>
  What holds throughout: an exit with status 0 was preceded by a signal, no goroutine of the
  watchdog outlives the process, and the log ends with what the exit says.
\<close>

definition proc_ok :: "process \<Rightarrow> bool" where
  "proc_ok p \<longleftrightarrow>
     (case pr_main p of
        Listening \<Rightarrow> True
      | Exited n \<Rightarrow>
          \<not> pr_watchdog p \<and> pr_log p \<noteq> [] \<and>
          (if n = 0 then last (pr_log p) = stopped \<and> \<not> srv_open (pr_signal p)
           else n = 1 \<and> (\<exists>e. last (pr_log p) = fatal ''server failed'' e) \<and> srv_open (pr_signal p))) \<and>
     (if pr_signal p = Waiting then True else (\<exists>sig. shutting_down sig \<in> set (pr_log p)))"

lemma proc_ok_step: "proc_step p q \<Longrightarrow> proc_ok p \<Longrightarrow> proc_ok q"
  by (erule proc_stepE) (auto simp: proc_ok_def)

lemma proc_ok_reach: "proc_reach p q \<Longrightarrow> proc_ok p \<Longrightarrow> proc_ok q"
  by (induction rule: proc_reach.induct) (auto intro: proc_ok_step)

lemma launched_ok: "proc_ok (launched sv lg)"
  by (simp add: proc_ok_def launched_def)

text \<open>Once \<open>Shutdown\<close> is called no request is taken: the number in flight only falls.\<close>

lemma no_accept_after_shutdown:
  "proc_reach p q \<Longrightarrow> \<not> srv_open (pr_signal p) \<Longrightarrow> pr_inflight q \<le> pr_inflight p \<and> \<not> srv_open (pr_signal q)"
  by (induction rule: proc_reach.induct) (auto elim!: proc_stepE)

section \<open>Requests in flight\<close>




end
