(* ===== verification/Test_Support.thy ===== *)
theory Test_Support
  imports Store_Types Go_Sha256 "HOL-Library.AList" "HOL-Library.Char_ord" "HOL-Library.List_Lexorder"
begin

text \<open>
  \<open>internal/testutil\<close>: the capturing log handler that the repository's tests read the audit
  trail with, and the known CID vectors. A log record of the model is what \<open>slog\<close> hands to
  the handler; its mutex is not modelled, each method being one critical section.
\<close>

section \<open>\<open>slogcapture.go\<close>\<close>

text \<open>Attributes are a map: a later value for a key replaces an earlier one.\<close>

record CapturedRecord =
  cr_Level :: level
  cr_Message :: string
  cr_Attrs :: "(string \<times> attr) list"

type_synonym SlogCapture = "CapturedRecord list"

definition NewSlogCapture :: SlogCapture where
  "NewSlogCapture = []"

definition Capture_Enabled :: "level \<Rightarrow> bool" where
  "Capture_Enabled l = True"

definition captured :: "log_record \<Rightarrow> CapturedRecord" where
  "captured r =
     \<lparr>cr_Level = lr_level r, cr_Message = lr_msg r,
      cr_Attrs = fold (\<lambda>(k, v). AList.update k v) (lr_attrs r) []\<rparr>"

definition Capture_Handle :: "log_record \<Rightarrow> SlogCapture \<Rightarrow> SlogCapture" where
  "Capture_Handle r c = c @ [captured r]"

definition Capture_WithAttrs :: "(string \<times> attr) list \<Rightarrow> SlogCapture \<Rightarrow> SlogCapture" where
  "Capture_WithAttrs as c = c"

definition Capture_WithGroup :: "string \<Rightarrow> SlogCapture \<Rightarrow> SlogCapture" where
  "Capture_WithGroup g c = c"

definition Capture_Records :: "SlogCapture \<Rightarrow> CapturedRecord list" where
  "Capture_Records c = c"

definition Capture_Len :: "SlogCapture \<Rightarrow> nat" where
  "Capture_Len c = length c"

definition Capture_Reset :: "SlogCapture \<Rightarrow> SlogCapture" where
  "Capture_Reset c = []"

text \<open>The \<open>%v\<close> verb on the values the handlers log.\<close>

definition sprint_v :: "(goerr \<Rightarrow> string) \<Rightarrow> attr \<Rightarrow> string" where
  "sprint_v txt a =
     (case a of
        AStr s \<Rightarrow> s
      | AInt i \<Rightarrow> itoa i
      | ABool b \<Rightarrow> if b then ''true'' else ''false''
      | AErr e \<Rightarrow> error_text txt e
      | AMsg m \<Rightarrow> message_text txt m
      | AStrs ss \<Rightarrow> ''['' @ join '' '' ss @ '']'')"

definition attrsMatch :: "(goerr \<Rightarrow> string) \<Rightarrow> (string \<times> attr) list \<Rightarrow> (string \<times> attr) list \<Rightarrow> bool" where
  "attrsMatch txt got want =
     list_all (\<lambda>(k, wv). case map_of got k of
                            None \<Rightarrow> False
                          | Some gv \<Rightarrow> sprint_v txt gv = sprint_v txt wv) want"

definition level_string :: "level \<Rightarrow> string" where
  "level_string l = (case l of LevelInfo \<Rightarrow> ''INFO'' | LevelWarn \<Rightarrow> ''WARN'' | LevelError \<Rightarrow> ''ERROR'')"

definition sprint_map :: "(goerr \<Rightarrow> string) \<Rightarrow> (string \<times> attr) list \<Rightarrow> string" where
  "sprint_map txt m =
     ''map['' @ join '' '' (map (\<lambda>k. k @ '':'' @ (case map_of m k of None \<Rightarrow> [] | Some v \<Rightarrow> sprint_v txt v))
       (sort (map fst m))) @ '']''"

definition formatRecords :: "(nat \<Rightarrow> bool) \<Rightarrow> (goerr \<Rightarrow> string) \<Rightarrow> CapturedRecord list \<Rightarrow> string" where
  "formatRecords isp txt rs =
     (let b = concat (map (\<lambda>(i, r).
            ''  ['' @ itoa (int i) @ ''] level='' @ level_string (cr_Level r) @ '' msg='' @
            go_quote isp (cr_Message r) @ '' attrs='' @ sprint_map txt (cr_Attrs r) @ [newline])
          (List.enumerate 0 rs))
      in if b = [] then ''  (none)'' @ [newline] else b)"

text \<open>The two assertions: \<^const>\<open>None\<close> passes, \<^const>\<open>Some\<close> is the message of \<open>t.Fatalf\<close>.\<close>

definition AssertContains ::
  "(nat \<Rightarrow> bool) \<Rightarrow> (goerr \<Rightarrow> string) \<Rightarrow> level \<Rightarrow> string \<Rightarrow> (string \<times> attr) list \<Rightarrow> SlogCapture \<Rightarrow> string option" where
  "AssertContains isp txt l msgSubstr wantAttrs c =
     (let records = Capture_Records c in
      if list_ex (\<lambda>r. cr_Level r = l \<and> contains (cr_Message r) msgSubstr \<and> attrsMatch txt (cr_Attrs r) wantAttrs) records
      then None
      else Some (''no captured record matched level='' @ level_string l @ '' msg~='' @ go_quote isp msgSubstr @ '' attrs='' @
             sprint_map txt wantAttrs @ [newline] @ ''records:'' @ [newline] @ formatRecords isp txt records))"

definition AssertNoWarnings :: "(nat \<Rightarrow> bool) \<Rightarrow> (goerr \<Rightarrow> string) \<Rightarrow> SlogCapture \<Rightarrow> string option" where
  "AssertNoWarnings isp txt c =
     (case find (\<lambda>r. cr_Level r \<in> {LevelWarn, LevelError}) (Capture_Records c) of
        None \<Rightarrow> None
      | Some r \<Rightarrow> Some (''unexpected warn/error record: level='' @ level_string (cr_Level r) @ '' msg='' @
          go_quote isp (cr_Message r) @ '' attrs='' @ sprint_map txt (cr_Attrs r)))"

section \<open>\<open>hash.go\<close> and \<open>cidvectors.go\<close>\<close>

definition hashSHA256 :: "bytes \<Rightarrow> bytes" where
  "hashSHA256 d = sha256 d"

record KnownVector =
  kv_Name :: string
  kv_Plaintext :: bytes
  kv_DigestHex :: string

definition KnownVectors_literal :: "KnownVector list" where
  "KnownVectors_literal =
     [\<lparr>kv_Name = ''empty'', kv_Plaintext = [],
       kv_DigestHex = ''e3b0c44298fc1c149afbf4c8996fb92427ae41e4649b934ca495991b7852b855''\<rparr>,
      \<lparr>kv_Name = ''single-byte-zero'', kv_Plaintext = [0],
       kv_DigestHex = ''6e340b9cffb37a989ca544e6bb780a2c78901d3fb33738768511a30617afa01d''\<rparr>,
      \<lparr>kv_Name = ''single-byte-ff'', kv_Plaintext = [255],
       kv_DigestHex = ''a8100ae6aa1940d0b663bb31cd466142ebbdbd5187131b92d93818987832eb89''\<rparr>,
      \<lparr>kv_Name = ''ascii-hello'', kv_Plaintext = str_bytes ''hello'',
       kv_DigestHex = ''2cf24dba5fb0a30e26e83b2ac5b9e29e1b161e5c1fa7425e73043362938b9824''\<rparr>,
      \<lparr>kv_Name = ''ortholog-preamble'', kv_Plaintext = str_bytes ''ortholog-artifact-store-wave-1'', kv_DigestHex = []\<rparr>]"

text \<open>After the package's \<open>init\<close>.\<close>

definition KnownVectors :: "KnownVector list" where
  "KnownVectors =
     map (\<lambda>v. if kv_DigestHex v = [] then v\<lparr>kv_DigestHex := hex_encode (hashSHA256 (kv_Plaintext v))\<rparr> else v)
       KnownVectors_literal"

definition MustDigestBytes :: "(goerr \<Rightarrow> string) \<Rightarrow> KnownVector \<Rightarrow> bytes outcome" where
  "MustDigestBytes txt v =
     (case hex_decode (kv_DigestHex v) of
        None \<Rightarrow> Panics (''malformed KnownVector.DigestHex for '' @ kv_Name v @ '': '' @ txt (Foreign ''hex.DecodeString''))
      | Some b \<Rightarrow> Returns b)"

definition Vector_ComputeCID :: "sdk \<Rightarrow> KnownVector \<Rightarrow> cid" where
  "Vector_ComputeCID k v = sdk_Compute k (kv_Plaintext v)"

section \<open>What the helpers guarantee\<close>

lemma fold_update_map_of:
  "map_of (fold (\<lambda>(k, v). AList.update k v) as m) = map_of m ++ map_of (rev as)"
proof (induction as arbitrary: m)
  case (Cons a as)
  obtain k v where a: "a = (k, v)" by fastforce
  from Cons [of "AList.update k v m"] show ?case
    by (auto simp: a update_conv' fun_eq_iff map_add_def split: option.splits)
qed simp

lemma fold_handle: "fold Capture_Handle rs c = c @ map captured rs"
  by (induction rs arbitrary: c) (simp_all add: Capture_Handle_def)

text \<open>
  A record that was handled is found by its level, any part of its message and any of its
  attributes; and the happy-path assertion fails exactly when a warning was handled.
\<close>

lemma handled_is_found:
  assumes "r \<in> set rs" "distinct (map fst (lr_attrs r))" "set want \<subseteq> set (lr_attrs r)" "lr_msg r = a @ sub @ b"
  shows "AssertContains isp txt (lr_level r) sub want (fold Capture_Handle rs c) = None"
proof -
  have "map_of (cr_Attrs (captured r)) k = Some v" if "(k, v) \<in> set want" for k v
    using that assms(2,3) map_of_is_SomeI [of "rev (lr_attrs r)" k v]
    by (auto simp: captured_def fold_update_map_of rev_map [symmetric])
  then have "attrsMatch txt (cr_Attrs (captured r)) want" by (fastforce simp: attrsMatch_def list_all_iff)
  moreover have "contains (cr_Message (captured r)) sub" using assms(4) contains_append by (simp add: captured_def)
  moreover have "cr_Level (captured r) = lr_level r" by (simp add: captured_def)
  ultimately show ?thesis
    using assms(1) by (auto simp: AssertContains_def Let_def Capture_Records_def list_ex_iff fold_handle)
qed

lemma no_warnings_iff:
  "AssertNoWarnings isp txt (fold Capture_Handle rs NewSlogCapture) = None \<longleftrightarrow> (\<forall>r \<in> set rs. lr_level r = LevelInfo)"
proof -
  have "find P xs = None \<longleftrightarrow> (\<forall>x \<in> set xs. \<not> P x)" for P and xs :: "CapturedRecord list"
    by (auto simp: find_None_iff)
  moreover have "l \<notin> {LevelWarn, LevelError} \<longleftrightarrow> l = LevelInfo" for l by (cases l) simp_all
  ultimately show ?thesis
    by (simp add: AssertNoWarnings_def Capture_Records_def fold_handle NewSlogCapture_def captured_def option.case_eq_if
        split: option.splits)
qed

lemma known_vectors_decode: "v \<in> set KnownVectors \<Longrightarrow> \<exists>b. MustDigestBytes txt v = Returns b \<and> length b = 32"
proof -
  have lit: "list_all (\<lambda>v. kv_DigestHex v = [] \<or> map_option length (hex_decode (kv_DigestHex v)) = Some 32) KnownVectors_literal"
    by code_simp
  assume "v \<in> set KnownVectors"
  then obtain u where u: "u \<in> set KnownVectors_literal"
      "v = (if kv_DigestHex u = [] then u\<lparr>kv_DigestHex := hex_encode (hashSHA256 (kv_Plaintext u))\<rparr> else u)"
    by (auto simp: KnownVectors_def)
  with lit show ?thesis
    by (cases "kv_DigestHex u = []") (auto simp: MustDigestBytes_def hashSHA256_def list_all_iff)
qed

end
