(* ===== verification/Conformance.thy ===== *)
theory Conformance
  imports Backend_Contract Test_Support
begin

text \<open>
  The backend conformance suite of the repository (\<open>tests/conformance\<close>): its lifecycle,
  resolve, error, concurrency and integrity groups as executable functions of a backend, and
  the proof that every store that meets a strengthening of \<open>reliable_store\<close> passes them.
\<close>

section \<open>Tests\<close>

text \<open>
  A test runs on the state of a fresh backend. \<^const>\<open>None\<close> is a pass, \<^const>\<open>Some\<close> is the
  literal part of the message of the \<open>t.Fatal\<close> that ended it.
\<close>

type_synonym 's test = "'s \<Rightarrow> string option"

definition pass :: "'s test" where
  "pass s = None"

definition must :: "string \<Rightarrow> ('s \<Rightarrow> goerr option \<times> 's) \<Rightarrow> 's test \<Rightarrow> 's test" where
  "must msg call rest s = (case call s of (Some e, s1) \<Rightarrow> Some msg | (None, s1) \<Rightarrow> rest s1)"

definition must_get :: "string \<Rightarrow> ('s \<Rightarrow> (goerr + 'a) \<times> 's) \<Rightarrow> ('a \<Rightarrow> 's test) \<Rightarrow> 's test" where
  "must_get msg call rest s = (case call s of (Inl e, s1) \<Rightarrow> Some msg | (Inr v, s1) \<Rightarrow> rest v s1)"

definition require :: "string \<Rightarrow> bool \<Rightarrow> 's test \<Rightarrow> 's test" where
  "require msg b rest s = (if b then rest s else Some msg)"

text \<open>\<open>errors.Is\<close> on a result that may be nil.\<close>

definition nil_is :: "goerr option \<Rightarrow> sentinel \<Rightarrow> bool" where
  "nil_is e x = (case e of None \<Rightarrow> False | Some e \<Rightarrow> errors_is e x)"

text \<open>\<open>suite.go\<close>: a factory is the backend it makes, the fresh state and the test's clock.\<close>

record 's Factory =
  f_backend :: "'s BackendProvider"
  f_new :: 's
  f_now :: "'s \<Rightarrow> time"

record Capabilities =
  SupportsDelete :: bool
  SupportsExpiry :: bool
  ExpectedResolveMethod :: string

section \<open>\<open>scenarios_lifecycle.go\<close>\<close>

definition fetch_equal :: "string \<Rightarrow> string \<Rightarrow> 's BackendProvider \<Rightarrow> cid \<Rightarrow> bytes \<Rightarrow> 's test" where
  "fetch_equal ferr msg b c d = must_get ferr (bp_Fetch b c) (\<lambda>got. require msg (got = d) pass)"

definition exists_is :: "string \<Rightarrow> 's BackendProvider \<Rightarrow> cid \<Rightarrow> bool \<Rightarrow> string \<Rightarrow> 's test" where
  "exists_is err b c want msg = must_get err (bp_Exists b c) (\<lambda>ex. require msg (ex = want) pass)"

definition vector_round_trip :: "sdk \<Rightarrow> 's Factory \<Rightarrow> KnownVector \<Rightarrow> string option" where
  "vector_round_trip k f v =
     (let c = Vector_ComputeCID k v in
      case MustDigestBytes (sdk_ErrorText k) v of
        Panics m \<Rightarrow> Some m
      | Returns want \<Rightarrow>
          require ''SDK digest drift'' (Digest c = want)
            (must ''Push failed'' (bp_Push (f_backend f) c (kv_Plaintext v))
               (fetch_equal ''Fetch failed'' ''round-trip mismatch'' (f_backend f) c (kv_Plaintext v))) (f_new f))"

definition runLifecycle :: "sdk \<Rightarrow> 's Factory \<Rightarrow> Capabilities \<Rightarrow> (string \<times> string option) list" where
  "runLifecycle k f caps =
     (let b = f_backend f; new = f_new f; cid = (\<lambda>t. sdk_Compute k (str_bytes t)) in
      [(''push_then_fetch_returns_same_bytes'',
        must ''Push failed'' (bp_Push b (cid ''lifecycle-test-payload'') (str_bytes ''lifecycle-test-payload''))
          (fetch_equal ''Fetch failed'' ''Fetch returned wrong bytes'' b (cid ''lifecycle-test-payload'')
             (str_bytes ''lifecycle-test-payload'')) new),
       (''exists_false_before_push'',
        exists_is ''Exists failed'' b (cid ''not-yet-pushed'') False ''Exists returned true for CID that was never pushed'' new),
       (''exists_true_after_push'',
        must ''Push failed'' (bp_Push b (cid ''exists-after-push'') (str_bytes ''exists-after-push''))
          (exists_is ''Exists failed'' b (cid ''exists-after-push'') True ''Exists returned false for CID that was just pushed'') new),
       (''push_is_idempotent'',
        must ''first Push failed'' (bp_Push b (cid ''idempotent'') (str_bytes ''idempotent''))
          (must ''second Push (idempotent) failed'' (bp_Push b (cid ''idempotent'') (str_bytes ''idempotent''))
             (fetch_equal ''Fetch after idempotent Push failed'' ''bytes corrupted after idempotent push''
                b (cid ''idempotent'') (str_bytes ''idempotent''))) new),
       (''pin_on_existing_object_succeeds'',
        must ''Push failed'' (bp_Push b (cid ''pin-me'') (str_bytes ''pin-me''))
          (must ''Pin failed'' (bp_Pin b (cid ''pin-me'')) pass) new),
       (''pin_is_idempotent'',
        must ''Push failed'' (bp_Push b (cid ''pin-twice'') (str_bytes ''pin-twice''))
          (must ''first Pin failed'' (bp_Pin b (cid ''pin-twice''))
             (must ''second Pin (idempotent) failed'' (bp_Pin b (cid ''pin-twice'')) pass)) new)] @
      (if SupportsDelete caps then
         [(''delete_removes_object'',
           must ''Push failed'' (bp_Push b (cid ''delete-me'') (str_bytes ''delete-me''))
             (must ''Delete failed'' (bp_Delete b (cid ''delete-me''))
                (exists_is ''Exists after Delete failed'' b (cid ''delete-me'') False ''Exists returned true after Delete'')) new),
          (''fetch_after_delete_returns_not_found'',
           must ''Push failed'' (bp_Push b (cid ''delete-then-fetch'') (str_bytes ''delete-then-fetch''))
             (must ''Delete failed'' (bp_Delete b (cid ''delete-then-fetch''))
                (\<lambda>s. require ''Fetch after Delete: want ErrContentNotFound''
                   (case bp_Fetch b (cid ''delete-then-fetch'') s of
                      (Inl e, s1) \<Rightarrow> errors_is e ErrContentNotFound | (Inr d, s1) \<Rightarrow> False) pass s)) new)]
       else
         [(''delete_returns_not_supported'',
           must ''Push failed'' (bp_Push b (cid ''no-delete-here'') (str_bytes ''no-delete-here''))
             (\<lambda>s. require ''Delete: want ErrNotSupported''
                (nil_is (fst (bp_Delete b (cid ''no-delete-here'') s)) ErrNotSupported) pass s) new)]) @
      map (\<lambda>v. (''known_vectors_round_trip/'' @ kv_Name v, vector_round_trip k f v)) KnownVectors)"

section \<open>\<open>scenarios_resolve.go\<close>\<close>

definition push_resolve ::
  "sdk \<Rightarrow> 's Factory \<Rightarrow> string \<Rightarrow> (time \<Rightarrow> RetrievalCredential \<Rightarrow> string option) \<Rightarrow> string option" where
  "push_resolve k f t check =
     (let b = f_backend f; c = sdk_Compute k (str_bytes t) in
      must ''Push failed'' (bp_Push b c (str_bytes t))
        (\<lambda>s. must_get ''Resolve failed'' (bp_Resolve b c (seconds 3600)) (\<lambda>cred _. check (f_now f s) cred) s)
        (f_new f))"

definition runResolve :: "sdk \<Rightarrow> 's Factory \<Rightarrow> Capabilities \<Rightarrow> (string \<times> string option) list" where
  "runResolve k f caps =
     (let b = f_backend f; cid = (\<lambda>t. sdk_Compute k (str_bytes t)) in
      [(''resolve_returns_expected_method'',
        push_resolve k f ''resolve-method-check'' (\<lambda>before cred.
          if rc_Method cred \<noteq> ExpectedResolveMethod caps then Some ''Resolve.Method''
          else if rc_URL cred = [] then Some ''Resolve.URL is empty'' else None))] @
      (if SupportsExpiry caps then
         [(''resolve_returns_non_nil_expiry'',
           push_resolve k f ''resolve-expiry'' (\<lambda>before cred.
             case rc_Expiry cred of
               None \<Rightarrow> Some ''Resolve.Expiry is nil for a backend that claims to support expiry''
             | Some t \<Rightarrow> if t < time_add before (seconds 3500) then Some ''Resolve.Expiry too early'' else None)),
          (''resolve_different_cids_produce_different_urls'',
           must ''Push A failed'' (bp_Push b (cid ''resolve-a'') (str_bytes ''resolve-a''))
             (must ''Push B failed'' (bp_Push b (cid ''resolve-b'') (str_bytes ''resolve-b''))
                (must_get ''Resolve A failed'' (bp_Resolve b (cid ''resolve-a'') (seconds 3600)) (\<lambda>credA.
                   must_get ''Resolve B failed'' (bp_Resolve b (cid ''resolve-b'') (seconds 3600)) (\<lambda>credB.
                     require ''different CIDs produced the same Resolve URL'' (rc_URL credA \<noteq> rc_URL credB) pass))))
             (f_new f))]
       else
         [(''resolve_returns_nil_expiry'',
           push_resolve k f ''no-expiry'' (\<lambda>before cred.
             if rc_Expiry cred \<noteq> None then Some ''Resolve.Expiry should be nil for this backend'' else None))]))"

section \<open>\<open>scenarios_errors.go\<close>\<close>

definition runErrors :: "sdk \<Rightarrow> 's Factory \<Rightarrow> Capabilities \<Rightarrow> (string \<times> string option) list" where
  "runErrors k f caps =
     (let b = f_backend f; new = f_new f; cid = (\<lambda>t. sdk_Compute k (str_bytes t)) in
      [(''fetch_missing_returns_not_found'',
        require ''Fetch missing: want ErrContentNotFound''
          (case bp_Fetch b (cid ''definitely-not-pushed'') new of
             (Inl e, s1) \<Rightarrow> errors_is e ErrContentNotFound | (Inr d, s1) \<Rightarrow> False) pass new),
       (''pin_missing_returns_not_found_or_is_tolerant'',
        (let e = fst (bp_Pin b (cid ''pin-missing'') new) in
         if e \<noteq> None \<and> \<not> nil_is e ErrContentNotFound then Some ''Pin missing: want nil or ErrContentNotFound''
         else None))] @
      (if SupportsDelete caps
       then [(''delete_missing_does_not_panic'', (case bp_Delete b (cid ''delete-missing'') new of (e, s1) \<Rightarrow> None))]
       else []) @
      [(''healthy_returns_nil_for_working_backend'',
        (case fst (bp_Healthy b new) of
           Panics m \<Rightarrow> Some m
         | Returns None \<Rightarrow> None
         | Returns (Some e) \<Rightarrow> Some ''Healthy on working backend returned error''))])"

section \<open>\<open>scenarios_concurrent.go\<close>\<close>

text \<open>
  Goroutines that make one backend call each, in the order the calls happen; the results go
  to the slot of the goroutine, and \<open>wg.Wait\<close> is the end of the list. A schedule gives the
  order for every number of goroutines.
\<close>

fun parallel :: "(nat \<Rightarrow> 's \<Rightarrow> 'r \<times> 's) \<Rightarrow> nat list \<Rightarrow> 's \<Rightarrow> (nat \<rightharpoonup> 'r) \<times> 's" where
  "parallel call [] s = (Map.empty, s)"
| "parallel call (i # is) s =
     (let (r, s1) = call i s; (m, s2) = parallel call is s1 in (m(i \<mapsto> r), s2))"

type_synonym schedule = "nat \<Rightarrow> nat list"

definition fair :: "schedule \<Rightarrow> bool" where
  "fair sch \<longleftrightarrow> (\<forall>n. distinct (sch n) \<and> set (sch n) = {..<n})"

definition push_all :: 
  "'s BackendProvider \<Rightarrow> (nat \<Rightarrow> cid) \<Rightarrow> (nat \<Rightarrow> bytes) \<Rightarrow> schedule \<Rightarrow> nat \<Rightarrow> string \<Rightarrow> 's test \<Rightarrow> 's test" where
  "push_all b c d sch n msg rest s =
     (let (errs, s1) = parallel (\<lambda>i. bp_Push b (c i) (d i)) (sch n) s in
      require msg (list_all (\<lambda>i. case errs i of Some (Some e) \<Rightarrow> False | _ \<Rightarrow> True) [0..<n]) rest s1)"

fun fetch_each :: "'s BackendProvider \<Rightarrow> (nat \<Rightarrow> cid) \<Rightarrow> (nat \<Rightarrow> bytes) \<Rightarrow> nat list \<Rightarrow> 's test" where
  "fetch_each b c d [] s = None"
| "fetch_each b c d (i # is) s =
     must_get ''Fetch failed'' (bp_Fetch b (c i)) (\<lambda>got.
       require ''Fetch wrong bytes'' (got = d i) (fetch_each b c d is)) s"

definition parallel_payload :: "nat \<Rightarrow> bytes" where
  "parallel_payload i = str_bytes (''parallel-push-'' @ itoa (int i))"

definition runConcurrent :: "sdk \<Rightarrow> schedule \<Rightarrow> 's Factory \<Rightarrow> (string \<times> string option) list" where
  "runConcurrent k sch f =
     (let b = f_backend f; new = f_new f in
      [(''parallel_push_distinct_cids'',
        (let c = (\<lambda>i. sdk_Compute k (parallel_payload i)) in
         push_all b c parallel_payload sch 32 ''parallel Push failed''
           (fetch_each b c parallel_payload [0..<32]) new)),
       (''parallel_push_same_cid_idempotent'',
        (let d = str_bytes ''parallel-same-cid''; c = sdk_Compute k d in
         push_all b (\<lambda>_. c) (\<lambda>_. d) sch 16 ''idempotent parallel Push failed''
           (fetch_equal ''Fetch failed'' ''bytes corrupted after idempotent parallel push'' b c d) new)),
       (''parallel_fetch_is_safe'',
        (let d = str_bytes ''parallel-fetch''; c = sdk_Compute k d in
         must ''Push failed'' (bp_Push b c d)
           (\<lambda>s. let (res, s1) = parallel (\<lambda>_. bp_Fetch b c) (sch 64) s in
              require ''Fetch failed'' (list_all (\<lambda>i. res i = Some (Inr d)) [0..<64]) pass s1) new))])"

section \<open>\<open>scenarios_integrity.go\<close>\<close>

definition suite_sizes :: "nat list" where
  "suite_sizes = [0, 1, 32, 1024, 65535, 65536, 1048576]"

text \<open>The bodies come from \<open>DeterministicBytes\<close>, which is the parameter \<open>det\<close>.\<close>

definition runIntegrity :: "sdk \<Rightarrow> (nat \<Rightarrow> nat \<Rightarrow> bytes) \<Rightarrow> 's Factory \<Rightarrow> (string \<times> string option) list" where
  "runIntegrity k det f =
     map (\<lambda>sz. (''size_'' @ itoa (int sz),
       (let d = det sz sz in
        must ''Push'' (bp_Push (f_backend f) (sdk_Compute k d) d)
          (fetch_equal ''Fetch'' ''byte mismatch'' (f_backend f) (sdk_Compute k d) d) (f_new f)))) suite_sizes"

section \<open>\<open>suite.go\<close>\<close>

text \<open>
  The first five groups of \<open>RunBackendConformance\<close>. The other five are about the SDK's CIDs
  and the JSON of credentials more than about the backend, and are not modelled.
\<close>

definition run_backend_groups ::
  "sdk \<Rightarrow> (nat \<Rightarrow> nat \<Rightarrow> bytes) \<Rightarrow> schedule \<Rightarrow> string \<Rightarrow> 's Factory \<Rightarrow> Capabilities \<Rightarrow> (string \<times> string option) list" where
  "run_backend_groups k det sch name f caps =
     concat (map (\<lambda>(grp, rs). map (\<lambda>(n, r). (name @ grp @ n, r)) rs)
       [(''/Lifecycle/'', runLifecycle k f caps), (''/Resolve/'', runResolve k f caps),
        (''/Errors/'', runErrors k f caps), (''/Concurrent/'', runConcurrent k sch f),
        (''/Integrity/'', runIntegrity k det f)])"

definition all_pass :: "(string \<times> string option) list \<Rightarrow> bool" where
  "all_pass rs = list_all (\<lambda>(n, r). r = None) rs"

section \<open>A contract that passes\<close>

text \<open>What the SDK has to do for the suite to mean anything.\<close>

definition suite_payloads :: "bytes set" where
  "suite_payloads = parallel_payload ` {..<32} \<union> {str_bytes ''resolve-a'', str_bytes ''resolve-b''}"

definition suite_sdk_ok :: "sdk \<Rightarrow> (cid \<Rightarrow> bool) \<Rightarrow> bool" where
  "suite_sdk_ok k okcid \<longleftrightarrow>
     (\<forall>d. okcid (sdk_Compute k d)) \<and> inj_on (sdk_Compute k) suite_payloads \<and>
     list_all (\<lambda>v. MustDigestBytes (sdk_ErrorText k) v = Returns (Digest (Vector_ComputeCID k v))) KnownVectors"

lemma suite_sdkD:
  assumes "suite_sdk_ok k okcid"
  shows "okcid (sdk_Compute k d)"
    "i < 32 \<Longrightarrow> j < 32 \<Longrightarrow> sdk_Compute k (parallel_payload i) = sdk_Compute k (parallel_payload j) \<longleftrightarrow>
       parallel_payload i = parallel_payload j"
    "sdk_Compute k (str_bytes ''resolve-a'') \<noteq> sdk_Compute k (str_bytes ''resolve-b'')"
    "v \<in> set KnownVectors \<Longrightarrow> MustDigestBytes (sdk_ErrorText k) v = Returns (Digest (Vector_ComputeCID k v))"
proof -
  have inj: "inj_on (sdk_Compute k) suite_payloads" using assms by (simp add: suite_sdk_ok_def)
  show "okcid (sdk_Compute k d)" using assms by (simp add: suite_sdk_ok_def)
  show "sdk_Compute k (parallel_payload i) = sdk_Compute k (parallel_payload j) \<longleftrightarrow>
      parallel_payload i = parallel_payload j" if "i < 32" "j < 32"
    by (rule inj_on_eq_iff [OF inj]) (use that in \<open>simp_all add: suite_payloads_def\<close>)
  have ab: "str_bytes ''resolve-a'' \<in> suite_payloads" "str_bytes ''resolve-b'' \<in> suite_payloads"
    by (simp_all add: suite_payloads_def)
  have "str_bytes ''resolve-a'' \<noteq> str_bytes ''resolve-b''" by code_simp
  then show "sdk_Compute k (str_bytes ''resolve-a'') \<noteq> sdk_Compute k (str_bytes ''resolve-b'')"
    using inj_on_eq_iff [OF inj ab] by simp
  show "v \<in> set KnownVectors \<Longrightarrow> MustDigestBytes (sdk_ErrorText k) v = Returns (Digest (Vector_ComputeCID k v))"
    using assms by (auto simp: suite_sdk_ok_def list_all_iff)
qed

text \<open>
  A store of the reliable kind that also answers \<open>Healthy\<close> with nil, refuses to pin what it
  does not hold with \<open>ErrContentNotFound\<close>, and resolves what it holds to a credential of the
  declared method, with a URL of its own per CID and an expiry of an hour from now.
\<close>

locale conforming_store = reliable_store bp inv contents okcid
  for bp :: "'s BackendProvider" and inv contents okcid +
  fixes now :: "'s \<Rightarrow> time" and meth :: string and url :: "'s \<Rightarrow> cid \<Rightarrow> string"
  assumes pin_missing: "inv s \<Longrightarrow> okcid c \<Longrightarrow> contents s c = None \<Longrightarrow> bp_Pin bp c s = (Some e, s') \<Longrightarrow>
      errors_is e ErrContentNotFound"
    and healthy_nil: "inv s \<Longrightarrow> fst (bp_Healthy bp s) = Returns None"
    and resolve_cred: "inv s \<Longrightarrow> okcid c \<Longrightarrow> contents s c \<noteq> None \<Longrightarrow>
      bp_Resolve bp c (seconds 3600) s =
        (Inr \<lparr>rc_Method = meth, rc_URL = url s c, rc_Expiry = Some (now s + 3600 * 1000000000)\<rparr>, s)"
    and url_nonempty: "inv s \<Longrightarrow> okcid c \<Longrightarrow> url s c \<noteq> []"
    and url_distinct: "inv s \<Longrightarrow> okcid c \<Longrightarrow> okcid c' \<Longrightarrow> url s c = url s c' \<Longrightarrow> c = c'"
begin

text \<open>The store holds the map \<open>m\<close>.\<close>

definition at :: "'s \<Rightarrow> (cid \<Rightarrow> bytes option) \<Rightarrow> bool" where
  "at s m \<longleftrightarrow> inv s \<and> agree okcid (contents s) m"

lemma at_contents: "at s m \<Longrightarrow> okcid c \<Longrightarrow> contents s c = m c"
  by (simp add: at_def agree_def)

lemma at_inv: "at s m \<Longrightarrow> inv s"
  by (simp add: at_def)

lemma at_same: "at s m \<Longrightarrow> inv s' \<and> agree okcid (contents s') (contents s) \<Longrightarrow> at s' m"
  by (simp add: at_def agree_def)

lemma at_upd: "at s m \<Longrightarrow> inv s' \<and> agree okcid (contents s') ((contents s)(c := x)) \<Longrightarrow> at s' (m(c := x))"
  by (simp add: at_def agree_def)

lemma push_at:
  assumes "at s m" "okcid c"
  obtains s' where "bp_Push bp c d s = (None, s')" "at s' (m(c := Some d))"
proof -
  obtain q s' where f: "bp_Push bp c d s = (q, s')" by fastforce
  note ok = push_ok [OF at_inv [OF assms(1)] assms(2) f]
  show thesis by (rule that [of s'], use ok f in simp, rule at_upd [OF assms(1)], use ok in blast)
qed

lemma fetch_at:
  assumes "at s m" "okcid c"
  obtains s' where "bp_Fetch bp c s = (case m c of None \<Rightarrow> Inl (Sentinel ErrContentNotFound) | Some d \<Rightarrow> Inr d, s')" "at s' m"
proof -
  obtain q s' where f: "bp_Fetch bp c s = (q, s')" by fastforce
  note ok = fetch_ok [OF at_inv [OF assms(1)] assms(2) f, unfolded at_contents [OF assms]]
  show thesis by (rule that [of s'], use ok f in simp, rule at_same [OF assms(1)], use ok in blast)
qed

lemma exists_at:
  assumes "at s m" "okcid c"
  obtains s' where "bp_Exists bp c s = (Inr (m c \<noteq> None), s')" "at s' m"
proof -
  obtain q s' where f: "bp_Exists bp c s = (q, s')" by fastforce
  note ok = exists_ok [OF at_inv [OF assms(1)] assms(2) f, unfolded at_contents [OF assms]]
  show thesis by (rule that [of s'], use ok f in simp, rule at_same [OF assms(1)], use ok in blast)
qed

lemma pin_at:
  assumes "at s m" "okcid c" "m c \<noteq> None"
  obtains s' where "bp_Pin bp c s = (None, s')" "at s' m"
proof -
  obtain q s' where f: "bp_Pin bp c s = (q, s')" by fastforce
  note ok = pin_ok [OF at_inv [OF assms(1)] assms(2) f, unfolded at_contents [OF assms(1,2)]]
  show thesis by (rule that [of s'], use ok f assms(3) in simp, rule at_same [OF assms(1)], use ok in blast)
qed

lemma delete_at:
  assumes "at s m" "okcid c" "m c \<noteq> None"
  obtains s' where "bp_Delete bp c s = (None, s')" "at s' (m(c := None))"
proof -
  obtain q s' where f: "bp_Delete bp c s = (q, s')" by fastforce
  note ok = delete_ok [OF at_inv [OF assms(1)] assms(2) f, unfolded at_contents [OF assms(1,2)]]
  show thesis by (rule that [of s'], use ok f assms(3) in simp, rule at_upd [OF assms(1)], use ok in blast)
qed

text \<open>One rule per step of a test: what is left to show after it.\<close>

lemma must_push: "at s m \<Longrightarrow> okcid c \<Longrightarrow> (\<And>s'. at s' (m(c := Some d)) \<Longrightarrow> rest s' = None) \<Longrightarrow>
    must msg (bp_Push bp c d) rest s = None"
  by (erule (1) push_at [of s m c d]) (simp add: must_def)

lemma must_pin: "at s m \<Longrightarrow> okcid c \<Longrightarrow> m c \<noteq> None \<Longrightarrow> (\<And>s'. at s' m \<Longrightarrow> rest s' = None) \<Longrightarrow>
    must msg (bp_Pin bp c) rest s = None"
  by (erule (2) pin_at) (simp add: must_def)

lemma must_delete: "at s m \<Longrightarrow> okcid c \<Longrightarrow> m c \<noteq> None \<Longrightarrow> (\<And>s'. at s' (m(c := None)) \<Longrightarrow> rest s' = None) \<Longrightarrow>
    must msg (bp_Delete bp c) rest s = None"
  by (erule (2) delete_at) (simp add: must_def)

lemma must_fetch: "at s m \<Longrightarrow> okcid c \<Longrightarrow> m c = Some d \<Longrightarrow> (\<And>s'. at s' m \<Longrightarrow> rest d s' = None) \<Longrightarrow>
    must_get msg (bp_Fetch bp c) rest s = None"
  by (erule (1) fetch_at) (simp add: must_get_def)

lemma must_resolve:
  assumes "at s m" "okcid c" "m c \<noteq> None"
    "rest \<lparr>rc_Method = meth, rc_URL = url s c, rc_Expiry = Some (now s + 3600 * 1000000000)\<rparr> s = None"
  shows "must_get msg (bp_Resolve bp c (seconds 3600)) rest s = None"
  using assms resolve_cred [of s c] by (auto simp: at_def agree_def must_get_def)

lemma exists_is_at: "at s m \<Longrightarrow> okcid c \<Longrightarrow> want = (m c \<noteq> None) \<Longrightarrow> exists_is err bp c want msg s = None"
  by (erule (1) exists_at) (simp add: exists_is_def must_get_def require_def pass_def)

lemma fetch_equal_at: "at s m \<Longrightarrow> okcid c \<Longrightarrow> m c = Some d \<Longrightarrow> fetch_equal ferr msg bp c d s = None"
  unfolding fetch_equal_def by (erule (2) must_fetch) (simp add: require_def pass_def)

lemma require_at: "b \<Longrightarrow> rest s = None \<Longrightarrow> require msg b rest s = None"
  by (simp add: require_def)

lemma missing_at: "at s m \<Longrightarrow> okcid c \<Longrightarrow> m c = None \<Longrightarrow>
    (case bp_Fetch bp c s of (Inl e, s1) \<Rightarrow> errors_is e ErrContentNotFound | (Inr d, s1) \<Rightarrow> False)"
  by (erule (1) fetch_at) simp

text \<open>Goroutines: the calls happen in some order, and each finds the invariant.\<close>

lemma parallel_push:
  assumes "at s m" "\<And>i. i \<in> set is \<Longrightarrow> okcid (c i)" "parallel (\<lambda>i. bp_Push bp (c i) (d i)) is s = (errs, s')"
  shows "at s' (fold (\<lambda>i m. m(c i := Some (d i))) is m) \<and> (\<forall>i r. errs i = Some r \<longrightarrow> r = None)"
  using assms
proof (induction "is" arbitrary: s m errs)
  case (Cons i "is")
  obtain s1 where p: "bp_Push bp (c i) (d i) s = (None, s1)" "at s1 (m(c i := Some (d i)))"
    using push_at [OF Cons.prems(1), of "c i" "d i"] Cons.prems(2) by auto
  obtain errs1 where q: "parallel (\<lambda>i. bp_Push bp (c i) (d i)) is s1 = (errs1, s')" "errs = errs1(i \<mapsto> None)"
    using Cons.prems(3) p(1) by (auto split: prod.splits)
  from Cons.IH [OF p(2) _ q(1)] Cons.prems(2) q(2) show ?case by simp
qed simp

lemma parallel_fetch:
  assumes "at s m" "okcid c" "m c = Some d" "parallel (\<lambda>_. bp_Fetch bp c) is s = (res, s')"
  shows "at s' m \<and> (\<forall>i \<in> set is. res i = Some (Inr d))"
  using assms
proof (induction "is" arbitrary: s res)
  case (Cons i "is")
  obtain s1 where p: "bp_Fetch bp c s = (Inr d, s1)" "at s1 m"
    using fetch_at [OF Cons.prems(1,2)] Cons.prems(3) by auto
  obtain res1 where q: "parallel (\<lambda>_. bp_Fetch bp c) is s1 = (res1, s')" "res = res1(i \<mapsto> Inr d)"
    using Cons.prems(4) p(1) by (auto split: prod.splits)
  from Cons.IH [OF p(2) Cons.prems(2,3) q(1)] q(2) show ?case by simp
qed simp

lemma fold_upd_at:
  assumes "i \<in> set is" "\<And>j. j \<in> set is \<Longrightarrow> c j = c i \<Longrightarrow> d j = d i"
  shows "fold (\<lambda>i m. m(c i := Some (d i))) is m (c i) = Some (d i)"
  using assms
proof (induction "is" rule: rev_induct)
  case (snoc j "is")
  let ?f = "\<lambda>i m. m(c i := Some (d i))"
  have f: "fold ?f (is @ [j]) m = (fold ?f is m)(c j := Some (d j))"
    by (simp only: fold_append fold_simps comp_apply)
  show ?case
  proof (cases "c j = c i")
    case True
    then have "d j = d i" using snoc.prems(2) [of j] by simp
    with True f show ?thesis by (simp only: fun_upd_same)
  next
    case False
    then have "i \<in> set is" using snoc.prems(1) by auto
    then have "fold ?f is m (c i) = Some (d i)" by (rule snoc.IH) (rule snoc.prems(2), simp_all)
    with False f show ?thesis by (simp only: fun_upd_other [OF False [symmetric]])
  qed
qed simp

lemma push_all_at:
  assumes "at s m" "fair sch" "\<And>i. okcid (c i)"
    "\<And>s'. at s' (fold (\<lambda>i m. m(c i := Some (d i))) (sch n) m) \<Longrightarrow> rest s' = None"
  shows "push_all bp c d sch n msg rest s = None"
proof -
  obtain errs s' where p: "parallel (\<lambda>i. bp_Push bp (c i) (d i)) (sch n) s = (errs, s')" by (rule prod.exhaust)
  note pp = parallel_push [OF assms(1) assms(3) p]
  from conjunct2 [OF pp] have "list_all (\<lambda>i. case errs i of Some (Some e) \<Rightarrow> False | _ \<Rightarrow> True) [0..<n]"
    by (auto simp: list_all_iff split: option.splits)
  with p assms(4) [OF conjunct1 [OF pp]] show ?thesis by (simp add: push_all_def require_def)
qed

lemma fetch_each_at:
  assumes "at s m" "\<And>i. i \<in> set is \<Longrightarrow> okcid (c i) \<and> m (c i) = Some (d i)"
  shows "fetch_each bp c d is s = None"
  using assms
proof (induction "is" arbitrary: s)
  case (Cons i "is")
  have "okcid (c i)" "m (c i) = Some (d i)" using Cons.prems(2) by simp_all
  from must_fetch [OF Cons.prems(1) this] Cons show ?case by (simp add: require_def)
qed simp

section \<open>The groups\<close>

lemma push_fetch_at: "at s m \<Longrightarrow> okcid c \<Longrightarrow> must msg (bp_Push bp c d) (fetch_equal fe ms bp c d) s = None"
  by (erule (1) must_push) (erule fetch_equal_at, simp_all)

lemma pass_at: "pass s = None"
  by (simp add: pass_def)

lemma not_found_at:
  "at s m \<Longrightarrow> okcid c \<Longrightarrow> m c = None \<Longrightarrow>
     require msg (case bp_Fetch bp c s of (Inl e, s1) \<Rightarrow> errors_is e ErrContentNotFound | (Inr d, s1) \<Rightarrow> False) pass s = None"
  using missing_at [of s m c] by (simp add: require_def pass_def)

lemma vector_at:
  assumes "suite_sdk_ok k okcid" "at (f_new f) m" "f_backend f = bp" "v \<in> set KnownVectors"
  shows "vector_round_trip k f v = None"
  using push_fetch_at [OF assms(2) suite_sdkD(1) [OF assms(1)]]
  by (simp add: vector_round_trip_def suite_sdkD(4) [OF assms(1,4)] assms(3) Vector_ComputeCID_def require_def Let_def)

lemma lifecycle_passes:
  assumes "suite_sdk_ok k okcid" "at (f_new f) Map.empty" "f_backend f = bp" "SupportsDelete caps"
  shows "all_pass (runLifecycle k f caps)"
proof -
  note ok = suite_sdkD(1) [OF assms(1)] and new = assms(2)
  have ex: "must msg (bp_Push bp c d) (exists_is err bp c True ms) (f_new f) = None" if "okcid c" for msg c d err ms
    by (rule must_push [OF new that], erule exists_is_at [OF _ that]) simp
  have idem: "must msg (bp_Push bp c d) (must msg' (bp_Push bp c d) (fetch_equal fe ms bp c d)) (f_new f) = None"
    if "okcid c" for msg msg' c d fe ms
    by (rule must_push [OF new that], erule push_fetch_at [OF _ that])
  have pin: "must msg (bp_Push bp c d) (must msg' (bp_Pin bp c) pass) (f_new f) = None" if "okcid c" for msg msg' c d
    by (rule must_push [OF new that], erule must_pin [OF _ that]) (simp_all add: pass_at)
  have pins: "must msg (bp_Push bp c d) (must msg' (bp_Pin bp c) (must msg'' (bp_Pin bp c) pass)) (f_new f) = None"
    if "okcid c" for msg msg' msg'' c d
    by (rule must_push [OF new that], erule must_pin [OF _ that], simp, erule must_pin [OF _ that]) (simp_all add: pass_at)
  have del: "must msg (bp_Push bp c d) (must msg' (bp_Delete bp c) (exists_is err bp c False ms)) (f_new f) = None"
    if "okcid c" for msg msg' c d err ms
    by (rule must_push [OF new that], erule must_delete [OF _ that], simp, erule exists_is_at [OF _ that]) simp
  have gone: "must msg (bp_Push bp c d) (must msg' (bp_Delete bp c) (\<lambda>s. require ms
      (case bp_Fetch bp c s of (Inl e, s1) \<Rightarrow> errors_is e ErrContentNotFound | (Inr d, s1) \<Rightarrow> False) pass s)) (f_new f) = None"
    if "okcid c" for msg msg' c d ms
    by (rule must_push [OF new that], erule must_delete [OF _ that], simp, erule not_found_at [OF _ that]) simp
  note facts = push_fetch_at [OF new ok] exists_is_at [OF new ok] ex [OF ok] idem [OF ok] pin [OF ok] pins [OF ok]
    del [OF ok] gone [OF ok] vector_at [OF assms(1) new assms(3)]
  show ?thesis
    unfolding runLifecycle_def all_pass_def Let_def assms(3)
    using assms(4) by (simp add: facts list_all_iff)
qed

lemma push_resolve_at:
  assumes "suite_sdk_ok k okcid" "at (f_new f) m" "f_backend f = bp" "f_now f = now"
    "\<And>s c. at s (m(c := Some (str_bytes t))) \<Longrightarrow> okcid c \<Longrightarrow>
       check (now s) \<lparr>rc_Method = meth, rc_URL = url s c, rc_Expiry = Some (now s + 3600 * 1000000000)\<rparr> = None"
  shows "push_resolve k f t check = None"
  unfolding push_resolve_def Let_def assms(3,4)
proof (rule must_push [OF assms(2) suite_sdkD(1) [OF assms(1)]])
  let ?c = "sdk_Compute k (str_bytes t)"
  fix s assume s: "at s (m(?c := Some (str_bytes t)))"
  show "must_get ''Resolve failed'' (bp_Resolve bp ?c (seconds 3600)) (\<lambda>cred _. check (now s) cred) s = None"
    by (rule must_resolve [OF s suite_sdkD(1) [OF assms(1)]], simp, rule assms(5) [OF s suite_sdkD(1) [OF assms(1)]])
qed

lemma resolve_passes:
  assumes "suite_sdk_ok k okcid" "at (f_new f) Map.empty" "f_backend f = bp" "f_now f = now"
    and "SupportsExpiry caps" "ExpectedResolveMethod caps = meth"
  shows "all_pass (runResolve k f caps)"
proof -
  note ok = suite_sdkD(1) [OF assms(1)]
  let ?a = "sdk_Compute k (str_bytes ''resolve-a'')" and ?b = "sdk_Compute k (str_bytes ''resolve-b'')"
  have meth: "push_resolve k f t (\<lambda>before cred.
      if rc_Method cred \<noteq> ExpectedResolveMethod caps then Some x
      else if rc_URL cred = [] then Some y else None) = None" for t x y
    by (rule push_resolve_at [OF assms(1-4)]) (use url_nonempty assms(6) in \<open>simp add: at_def\<close>)
  have expiry: "push_resolve k f t (\<lambda>before cred.
      case rc_Expiry cred of None \<Rightarrow> Some x
      | Some e \<Rightarrow> if e < time_add before (seconds 3500) then Some y else None) = None" for t x y
    by (rule push_resolve_at [OF assms(1-4)]) (use sint_seconds [of 3500] in \<open>simp add: time_add_def max_seconds_def\<close>)
  have urls: "must m1 (bp_Push bp ?a d1) (must m2 (bp_Push bp ?b d2)
      (must_get m3 (bp_Resolve bp ?a (seconds 3600)) (\<lambda>credA.
        must_get m4 (bp_Resolve bp ?b (seconds 3600)) (\<lambda>credB.
          require m5 (rc_URL credA \<noteq> rc_URL credB) pass)))) (f_new f) = None" for m1 m2 m3 m4 m5 d1 d2
  proof (rule must_push [OF assms(2) ok], erule must_push [OF _ ok])
    fix s assume s: "at s (Map.empty(?a \<mapsto> d1, ?b \<mapsto> d2))"
    have "url s ?a \<noteq> url s ?b"
      using url_distinct [OF at_inv [OF s] ok ok] suite_sdkD(3) [OF assms(1)] by blast
    then show "must_get m3 (bp_Resolve bp ?a (seconds 3600)) (\<lambda>credA.
        must_get m4 (bp_Resolve bp ?b (seconds 3600)) (\<lambda>credB.
          require m5 (rc_URL credA \<noteq> rc_URL credB) pass)) s = None"
      by (intro must_resolve [OF s ok]) (simp_all add: require_def pass_def)
  qed
  show ?thesis
    unfolding runResolve_def all_pass_def Let_def assms(3)
    using assms(5) meth expiry urls by simp
qed

lemma errors_passes:
  assumes "suite_sdk_ok k okcid" "at (f_new f) Map.empty" "f_backend f = bp" "SupportsDelete caps"
  shows "all_pass (runErrors k f caps)"
proof -
  note ok = suite_sdkD(1) [OF assms(1)]
  have pin: "\<not> (fst (bp_Pin bp c (f_new f)) \<noteq> None \<and> \<not> nil_is (fst (bp_Pin bp c (f_new f))) ErrContentNotFound)"
    if "okcid c" for c
    using pin_missing [OF at_inv [OF assms(2)] that] at_contents [OF assms(2) that]
    by (cases "bp_Pin bp c (f_new f)") (auto simp: nil_is_def split: option.splits)
  have del: "(case bp_Delete bp c s of (e, s1) \<Rightarrow> None) = None" for c s
    by (simp add: split_beta)
  show ?thesis
    unfolding runErrors_def all_pass_def Let_def assms(3)
    using assms(4) by (simp add: not_found_at [OF assms(2) ok] pin [OF ok, simplified] del healthy_nil [OF at_inv [OF assms(2)]])
qed

lemma concurrent_passes:
  assumes "suite_sdk_ok k okcid" "at (f_new f) Map.empty" "f_backend f = bp" "fair sch"
  shows "all_pass (runConcurrent k sch f)"
proof -
  note ok = suite_sdkD(1) [OF assms(1)]
  have sch: "set (sch n) = {..<n}" for n using assms(4) by (simp add: fair_def)
  let ?c = "\<lambda>i. sdk_Compute k (parallel_payload i)"
  have one: "push_all bp ?c parallel_payload sch 32 msg (fetch_each bp ?c parallel_payload [0..<32]) (f_new f) = None" for msg
  proof (rule push_all_at [OF assms(2,4) ok], erule fetch_each_at)
    fix i assume "i \<in> set [0..<32]"
    then have i: "i < 32" by simp
    have "fold (\<lambda>i m. m(?c i := Some (parallel_payload i))) (sch 32) Map.empty (?c i) = Some (parallel_payload i)"
      by (rule fold_upd_at) (use i sch suite_sdkD(2) [OF assms(1)] in auto)
    with ok show "okcid (?c i) \<and>
        fold (\<lambda>i m. m(?c i := Some (parallel_payload i))) (sch 32) Map.empty (?c i) = Some (parallel_payload i)" by blast
  qed
  have two: "push_all bp (\<lambda>_. c) (\<lambda>_. d) sch 16 msg (fetch_equal fe ms bp c d) (f_new f) = None" if "okcid c" for c d msg fe ms
  proof (rule push_all_at [OF assms(2,4) that], erule fetch_equal_at [OF _ that])
    show "fold (\<lambda>i m. m(c := Some d)) (sch 16) Map.empty c = Some d"
      using fold_upd_at [of 0 "sch 16" "\<lambda>_. c" "\<lambda>_. d" Map.empty] sch [of 16] by simp
  qed
  have three: "must msg (bp_Push bp c d) (\<lambda>s. let (res, s1) = parallel (\<lambda>_. bp_Fetch bp c) (sch 64) s in
      require ms (list_all (\<lambda>i. res i = Some (Inr d)) [0..<64]) pass s1) (f_new f) = None" if "okcid c" for c d msg ms
  proof (rule must_push [OF assms(2) that])
    fix s assume s: "at s (Map.empty(c \<mapsto> d))"
    obtain res s1 where p: "parallel (\<lambda>_. bp_Fetch bp c) (sch 64) s = (res, s1)" by (rule prod.exhaust)
    have "list_all (\<lambda>i. res i = Some (Inr d)) [0..<64]"
      using parallel_fetch [OF s that _ p] sch [of 64] by (auto simp: list_all_iff)
    with p show "(let (res, s1) = parallel (\<lambda>_. bp_Fetch bp c) (sch 64) s in
      require ms (list_all (\<lambda>i. res i = Some (Inr d)) [0..<64]) pass s1) = None"
      by (simp add: require_def pass_def)
  qed
  show ?thesis
    unfolding runConcurrent_def all_pass_def Let_def assms(3)
    using one two [OF ok] three [OF ok] by (simp add: Let_def)
qed

lemma integrity_passes:
  assumes "suite_sdk_ok k okcid" "at (f_new f) Map.empty" "f_backend f = bp"
  shows "all_pass (runIntegrity k det f)"
  by (auto simp: all_pass_def runIntegrity_def Let_def assms(3) list_all_iff
      intro!: push_fetch_at [OF assms(2) suite_sdkD(1) [OF assms(1)]])

lemma suite_passes:
  assumes "suite_sdk_ok k okcid" "inv s" "\<And>c. okcid c \<Longrightarrow> contents s c = None" "fair sch"
  shows "all_pass (run_backend_groups k det sch name \<lparr>f_backend = bp, f_new = s, f_now = now\<rparr>
     \<lparr>SupportsDelete = True, SupportsExpiry = True, ExpectedResolveMethod = meth\<rparr>)"
proof -
  let ?f = "\<lparr>f_backend = bp, f_new = s, f_now = now\<rparr>"
  let ?caps = "\<lparr>SupportsDelete = True, SupportsExpiry = True, ExpectedResolveMethod = meth\<rparr>"
  have new: "at (f_new ?f) Map.empty" using assms(2,3) by (simp add: at_def agree_def)
  have "all_pass (runLifecycle k ?f ?caps)" by (rule lifecycle_passes [OF assms(1) new]) simp_all
  moreover have "all_pass (runResolve k ?f ?caps)" by (rule resolve_passes [OF assms(1) new]) simp_all
  moreover have "all_pass (runErrors k ?f ?caps)" by (rule errors_passes [OF assms(1) new]) simp_all
  moreover have "all_pass (runConcurrent k sch ?f)" by (rule concurrent_passes [OF assms(1) new _ assms(4)]) simp
  moreover have "all_pass (runIntegrity k det ?f)" by (rule integrity_passes [OF assms(1) new]) simp
  ultimately show ?thesis
    by (auto simp: run_backend_groups_def all_pass_def list_all_iff)
qed

end

end
