(* ===== verification/Conformance_Runs.thy ===== *)
theory Conformance_Runs
  imports Conformance Signed_Urls Instances
begin

text \<open>
  The backend groups of the conformance suite on the backends the service ships with, wired with the signers of
  the repository and the fake servers: RustFS with the SigV4 request signer and presigner,
  GCS with the service-account signer, and the mirrored store over the two.
\<close>

lemma reliable_store_and:
  assumes "reliable_store bp I contents ok"
  shows "reliable_store bp (\<lambda>s. I s \<and> P) contents ok"
proof (unfold_locales, goal_cases)
  case (1 s c d r s')
  then show ?case using reliable_store.push_ok [OF assms, of s c d r s'] by blast
next
  case (2 s c q s')
  then show ?case using reliable_store.fetch_ok [OF assms, of s c q s'] by blast
next
  case (3 s c b s')
  then show ?case using reliable_store.exists_ok [OF assms, of s c b s'] by blast
next
  case (4 s c r s')
  then show ?case using reliable_store.pin_ok [OF assms, of s c r s'] by blast
next
  case (5 s c r s')
  then show ?case using reliable_store.delete_ok [OF assms, of s c r s'] by blast
next
  case (6 s c e v s')
  then show ?case using reliable_store.resolve_ok [OF assms, of s c e v s'] by blast
next
  case (7 s h s')
  then show ?case using reliable_store.healthy_ok [OF assms, of s h s'] by blast
qed

lemma hour: "time_add t (seconds 3600) = t + 3600 * 1000000000"
  using sint_seconds [of 3600] by (simp add: time_add_def max_seconds_def)

lemma parse_url_empty: "map_option u_path (parse_url []) = Some []"
  by code_simp

section \<open>RustFS\<close>

definition rustfs_deployed ::
  "sdk \<Rightarrow> (cid \<Rightarrow> bool) \<Rightarrow> SigV4 \<Rightarrow> BoundS3Presigner \<Rightarrow> S3Fake RustFSBackend \<Rightarrow> bool" where
  "rustfs_deployed k reg sg bs b \<longleftrightarrow>
     plain_cids k reg \<and> (\<exists>now. r_client b = s3_fake_net now) \<and>
     (\<exists>sch auth host. base_parts (rf_Endpoint (r_cfg b)) sch auth host) \<and>
     (\<exists>sch auth host. base_parts (bp3_Endpoint bs) sch auth host \<and> (sch = ''http'' \<or> sch = ''https'')) \<and>
     plain_key (rf_Bucket (r_cfg b)) \<and> rf_Bucket (r_cfg b) \<noteq> [] \<and> CHR ''/'' \<notin> set (rf_Bucket (r_cfg b)) \<and>
     plain_key (rf_Prefix (r_cfg b)) \<and> rf_PathStyle (r_cfg b) \<and>
     rf_RequestSigner (r_cfg b) = Some (SignRequest sg (r_client b)) \<and>
     rf_URLSigner (r_cfg b) = Some (Bound_PresignGetObject k bs (r_client b))"

lemma SignRequest_pure:
  "\<exists>r'. SignRequest s client r w = (Inr r', w) \<and> rq_method r' = rq_method r \<and> rq_url r' = rq_url r \<and> rq_body r' = rq_body r"
  by (simp add: SignRequest_eq Let_def)

lemma presign_pure: "snd (PresignGetObject k s client e bucket key d w) = w"
  by (simp add: PresignGetObject_def Let_def)

lemma rustfs_deployed_wired:
  assumes "rustfs_deployed k reg sg bs b"
  shows "rustfs_wired b" "rustfs_sign_ok b"
proof -
  have "snd (SignRequest sg client r w) = w \<and> \<not> isl (fst (SignRequest sg client r w)) \<and>
      (\<forall>r'. fst (SignRequest sg client r w) = Inr r' \<longrightarrow>
        rq_method r' = rq_method r \<and> rq_url r' = rq_url r \<and> rq_body r' = rq_body r)" for client :: "S3Fake net" and r w
    using SignRequest_pure [of sg client r w] by auto
  then show "rustfs_wired b" "rustfs_sign_ok b"
    using assms unfolding rustfs_deployed_def rustfs_wired_def rustfs_sign_ok_def
    by (simp_all add: Bound_PresignGetObject_def presign_pure)
qed

lemma rustfs_deployed_up:
  "rustfs_deployed k reg sg bs b \<Longrightarrow> sf_overrides f = [0, 0, 0, 0, 0, 0] \<Longrightarrow> rustfs_up k reg b f"
  using rustfs_deployed_wired [of k reg sg bs b] unfolding rustfs_up_def
  by (simp add: rustfs_deployed_def)

definition rustfs_url :: "sdk \<Rightarrow> BoundS3Presigner \<Rightarrow> S3Fake RustFSBackend \<Rightarrow> S3Fake \<Rightarrow> cid \<Rightarrow> string" where
  "rustfs_url k bs b f c =
     projr (fst (Bound_PresignGetObject k bs (r_client b) (rf_Bucket (r_cfg b)) (rustfs_key k b c) (seconds 3600) f))"

lemma rustfs_url_parse:
  assumes "rustfs_deployed k reg sg bs b" "reg c"
  shows "Bound_PresignGetObject k bs (r_client b) (rf_Bucket (r_cfg b)) (rustfs_key k b c) (seconds 3600) f =
      (Inr (rustfs_url k bs b f c), f)"
    and "\<exists>u. parse_url (rustfs_url k bs b f c) = Some u \<and>
      u_path u = ''/'' @ rf_Bucket (r_cfg b) @ ''/'' @ rustfs_key k b c"
proof -
  note dep = assms(1) [unfolded rustfs_deployed_def]
  from dep obtain sch auth host where base: "base_parts (bp3_Endpoint bs) sch auth host" "sch = ''http'' \<or> sch = ''https''" by blast
  have bk: "plain_key (rf_Bucket (r_cfg b))" using dep by blast
  have "plain_key (sdk_String k c)" "plain_key (rf_Prefix (r_cfg b))"
    using dep plain_cidsD [of k reg c] assms(2) by blast+
  then have ky: "plain_key (rustfs_key k b c)" by (simp add: rustfs_key_def)
  show "Bound_PresignGetObject k bs (r_client b) (rf_Bucket (r_cfg b)) (rustfs_key k b c) (seconds 3600) f =
      (Inr (rustfs_url k bs b f c), f)"
    "\<exists>u. parse_url (rustfs_url k bs b f c) = Some u \<and> u_path u = ''/'' @ rf_Bucket (r_cfg b) @ ''/'' @ rustfs_key k b c"
    by (rule presigned_parse [OF base bk ky, of k "bp3_Signer bs" "r_client b" "seconds 3600" f],
        simp add: rustfs_url_def Bound_PresignGetObject_def)+
qed

interpretation rustfs_conf: conforming_store "RustFS_provider k b"
  "\<lambda>f. rustfs_up k reg b f \<and> rustfs_deployed k reg sg bs b" "rustfs_contents k b" reg
  "net_now (r_client b)" "sdk_MethodSignedURL k" "rustfs_url k bs b" for k reg sg bs b
proof (intro conforming_store.intro reliable_store_and rustfs.reliable_store_axioms conforming_store_axioms.intro, goal_cases)
  case (1 s c e s')
  then have up: "rustfs_up k reg b s" by blast
  note kc = plain_cidsD [OF rustfs_upD(2) [OF up] 1(2)]
  from 1 have "RustFS_Pin k b c s = (Some e, s')" by simp
  from RustFS_Pin_step [OF rustfs_upD(1) [OF up] conjunct1 [OF kc] conjunct2 [OF kc] this] 1(3) rustfs_upD [OF up]
  show ?case by simp
next
  case (2 s)
  then have up: "rustfs_up k reg b s" and ps: "rf_PathStyle (r_cfg b)" by (simp_all add: rustfs_deployed_def)
  note D = rustfs_upD [OF up]
  obtain h s' where h: "RustFS_Healthy k b s = (h, s')" by fastforce
  have "plain_key (sdk_String k zero_cid)" using D(2) by (simp add: plain_cids_def)
  from RustFS_Healthy_step(2) [OF D(1) this h ps D(3)] D(9) h show ?case by simp
next
  case (3 s c)
  then have dep: "rustfs_deployed k reg sg bs b" by blast
  then have "rf_URLSigner (r_cfg b) = Some (Bound_PresignGetObject k bs (r_client b))" by (simp add: rustfs_deployed_def)
  then show ?case
    using rustfs_url_parse(1) [OF dep 3(2), of s] by (simp add: RustFS_Resolve_def rustfs_key_def hour)
next
  case (4 s c)
  then show ?case using rustfs_url_parse(2) [of k reg sg bs b c s] parse_url_empty by auto
next
  case (5 s c c')
  then have dep: "rustfs_deployed k reg sg bs b" by blast
  have "rustfs_key k b c = rustfs_key k b c'"
    using rustfs_url_parse(2) [OF dep 5(2), of s] rustfs_url_parse(2) [OF dep 5(3), of s] 5(4) by auto
  then have "sdk_String k c = sdk_String k c'" by (simp add: rustfs_key_def)
  moreover have "cid_codec k reg" using dep by (simp add: rustfs_deployed_def plain_cids_def)
  ultimately show ?case using cid_codec_inject 5(2,3) by blast
qed

section \<open>GCS\<close>

definition gcs_deployed ::
  "sdk \<Rightarrow> (cid \<Rightarrow> bool) \<Rightarrow> ('k \<Rightarrow> bytes \<Rightarrow> goerr + bytes) \<Rightarrow> 'k GCSSigner \<Rightarrow> GCSFake GCSBackend \<Rightarrow> bool" where
  "gcs_deployed k reg rsa_sign sg g \<longleftrightarrow>
     plain_cids k reg \<and> (\<exists>now. g_client g = gcs_fake_net now) \<and>
     (\<exists>sch auth host. base_parts (GCS_baseURL g) sch auth host) \<and>
     list_all unreserved (gc_Bucket (g_cfg g)) \<and> plain_key (gc_Prefix (g_cfg g)) \<and>
     (\<forall>f. gc_TokenFunc (g_cfg g) = Some f \<longrightarrow> (\<forall>w. snd (f w) = w \<and> \<not> isl (fst (f w)))) \<and>
     (\<forall>h. \<not> isl (rsa_sign (sg_key sg) h)) \<and>
     gc_URLSigner (g_cfg g) = Some (SignURL rsa_sign sg (g_client g))"

lemma SignURL_pure: "snd (SignURL rsa_sign sg client bucket obj d w) = w"
  by (simp add: SignURL_def Let_def split: sum.splits)

lemma gcs_deployed_up:
  assumes "gcs_deployed k reg rsa_sign sg g" "gf_overrides f = [0, 0, 0, 0, 0, 0]"
  shows "gcs_up k reg g f"
proof -
  have "gcs_wired g" "gcs_token_ok g" "cid_codec k reg"
    using assms(1) unfolding gcs_deployed_def gcs_wired_def gcs_token_ok_def plain_cids_def
    by (simp_all add: SignURL_pure)
  with assms(2) show ?thesis by (simp add: gcs_up_def)
qed

definition gcs_url ::
  "sdk \<Rightarrow> ('k \<Rightarrow> bytes \<Rightarrow> goerr + bytes) \<Rightarrow> 'k GCSSigner \<Rightarrow> GCSFake GCSBackend \<Rightarrow> GCSFake \<Rightarrow> cid \<Rightarrow> string" where
  "gcs_url k rsa_sign sg g f c =
     projr (fst (SignURL rsa_sign sg (g_client g) (gc_Bucket (g_cfg g)) (GCS_objectPath k g c) (seconds 3600) f))"

lemma unreserved_plain_key: "list_all unreserved s \<Longrightarrow> plain_key s"
  by (auto simp: plain_key_def list_all_iff unreserved_def plain_url_char_def is_ctl_def is_alpha_def is_digit_def)

lemma gcs_url_parse:
  assumes "gcs_deployed k reg rsa_sign sg g" "reg c"
  shows "SignURL rsa_sign sg (g_client g) (gc_Bucket (g_cfg g)) (GCS_objectPath k g c) (seconds 3600) f =
      (Inr (gcs_url k rsa_sign sg g f c), f)"
    and "\<exists>u. parse_url (gcs_url k rsa_sign sg g f c) = Some u \<and>
      u_path u = ''/'' @ gc_Bucket (g_cfg g) @ ''/'' @ GCS_objectPath k g c"
proof -
  note dep = assms(1) [unfolded gcs_deployed_def]
  have bk: "plain_key (gc_Bucket (g_cfg g))" using dep unreserved_plain_key by blast
  have "plain_key (sdk_String k c)" "plain_key (gc_Prefix (g_cfg g))"
    using dep plain_cidsD [of k reg c] assms(2) by blast+
  then have ky: "plain_key (GCS_objectPath k g c)" by (simp add: GCS_objectPath_def)
  have rsa: "\<exists>sig. rsa_sign (sg_key sg) h = Inr sig" for h using dep by (metis sum.collapse(2))
  have "\<exists>u q. SignURL rsa_sign sg (g_client g) (gc_Bucket (g_cfg g)) (GCS_objectPath k g c) (seconds 3600) f = (Inr u, f) \<and>
      parse_url u = Some \<lparr>u_scheme = ''https'', u_host = ''storage.googleapis.com'',
        u_path = ''/'' @ gc_Bucket (g_cfg g) @ ''/'' @ GCS_objectPath k g c,
        u_rawpath = ''/'' @ gc_Bucket (g_cfg g) @ ''/'' @ GCS_objectPath k g c, u_rawquery = q\<rparr>"
    using gcs_signed_parse [of rsa_sign sg _ _ _ _ "g_client g" f "seconds 3600", OF _ bk ky refl] rsa by metis
  then show "SignURL rsa_sign sg (g_client g) (gc_Bucket (g_cfg g)) (GCS_objectPath k g c) (seconds 3600) f =
      (Inr (gcs_url k rsa_sign sg g f c), f)"
    "\<exists>u. parse_url (gcs_url k rsa_sign sg g f c) = Some u \<and>
      u_path u = ''/'' @ gc_Bucket (g_cfg g) @ ''/'' @ GCS_objectPath k g c"
    by (auto simp: gcs_url_def)
qed

interpretation gcs_conf: conforming_store "GCS_provider k g"
  "\<lambda>f. gcs_up k reg g f \<and> gcs_deployed k reg rsa_sign sg g" "gcs_contents k g" reg
  "net_now (g_client g)" "sdk_MethodSignedURL k" "gcs_url k rsa_sign sg g" for k reg rsa_sign sg g
proof (intro conforming_store.intro reliable_store_and gcs.reliable_store_axioms conforming_store_axioms.intro, goal_cases)
  case (1 s c e s')
  then have up: "gcs_up k reg g s" by blast
  from 1 have "GCS_Pin k g c s = (Some e, s')" by simp
  from GCS_Pin_step [OF gcs_upD(1) [OF up] this] 1(3) gcs_upD [OF up] show ?case by simp
next
  case (2 s)
  then have up: "gcs_up k reg g s" by blast
  note D = gcs_upD [OF up]
  obtain h s' where h: "GCS_Healthy g s = (h, s')" by fastforce
  from GCS_Healthy_step [OF D(1) h] D(3,9) h show ?case by simp
next
  case (3 s c)
  then have dep: "gcs_deployed k reg rsa_sign sg g" by blast
  then have "gc_URLSigner (g_cfg g) = Some (SignURL rsa_sign sg (g_client g))" by (simp add: gcs_deployed_def)
  then show ?case
    using gcs_url_parse(1) [OF dep 3(2), of s] by (simp add: GCS_Resolve_def hour)
next
  case (4 s c)
  then show ?case using gcs_url_parse(2) [of k reg rsa_sign sg g c s] parse_url_empty by auto
next
  case (5 s c c')
  then have dep: "gcs_deployed k reg rsa_sign sg g" by blast
  have "GCS_objectPath k g c = GCS_objectPath k g c'"
    using gcs_url_parse(2) [OF dep 5(2), of s] gcs_url_parse(2) [OF dep 5(3), of s] 5(4) by auto
  then have "sdk_String k c = sdk_String k c'" by (simp add: GCS_objectPath_def)
  moreover have "cid_codec k reg" using dep by (simp add: gcs_deployed_def plain_cids_def)
  ultimately show ?case using cid_codec_inject 5(2,3) by blast
qed

section \<open>Mirrored\<close>

locale mirrored_conforming =
  p: conforming_store pbp pinv pcontents okcid pnow pmeth purl + m: conforming_store mbp minv mcontents okcid mnow mmeth murl
  for pbp :: "'p BackendProvider" and pinv pcontents pnow pmeth purl
    and mbp :: "'m BackendProvider" and minv mcontents mnow mmeth murl and okcid

sublocale mirrored_conforming \<subseteq> mr: mirrored_reliable pbp pinv pcontents mbp minv mcontents okcid
  by (intro mirrored_reliable.intro p.reliable_store_axioms m.reliable_store_axioms)

sublocale mirrored_conforming \<subseteq> st: conforming_store "MirroredStore k pbp mbp"
  "\<lambda>s. pinv (mi_primary s) \<and> minv (mi_mirror s) \<and>
       agree okcid (pcontents (mi_primary s)) (mcontents (mi_mirror s))"
  "\<lambda>s. pcontents (mi_primary s)" okcid "\<lambda>s. pnow (mi_primary s)" pmeth "\<lambda>s. purl (mi_primary s)" for k
proof (intro conforming_store.intro mr.st.reliable_store_axioms conforming_store_axioms.intro, goal_cases)
  case (1 s c e s')
  obtain r p1 where "bp_Pin pbp c (mi_primary s) = (r, p1)" by fastforce
  with 1 p.pin_missing [of "mi_primary s" c] show ?case
    by (auto simp: Mirrored_Pin_def split: prod.splits option.splits)
next
  case (2 s)
  with p.healthy_nil [of "mi_primary s"] m.healthy_nil [of "mi_mirror s"] show ?case
    by (cases "bp_Healthy pbp (mi_primary s)", cases "bp_Healthy mbp (mi_mirror s)") (simp add: Mirrored_Healthy_def)
next
  case (3 s c)
  with p.resolve_cred [of "mi_primary s" c] show ?case by (simp add: Mirrored_Resolve_def)
next
  case (4 s c)
  with p.url_nonempty show ?case by blast
next
  case (5 s c c')
  with p.url_distinct [of "mi_primary s" c c'] show ?case by blast
qed

interpretation gr_conf: mirrored_conforming "GCS_provider k g"
  "\<lambda>f. gcs_up k reg g f \<and> gcs_deployed k reg rsa_sign gs g" "gcs_contents k g"
  "net_now (g_client g)" "sdk_MethodSignedURL k" "gcs_url k rsa_sign gs g"
  "RustFS_provider k b" "\<lambda>f. rustfs_up k reg b f \<and> rustfs_deployed k reg sg bs b" "rustfs_contents k b"
  "net_now (r_client b)" "sdk_MethodSignedURL k" "rustfs_url k bs b" reg for k reg rsa_sign gs g sg bs b
  by (intro mirrored_conforming.intro gcs_conf.conforming_store_axioms rustfs_conf.conforming_store_axioms)

section \<open>The suite passes\<close>

definition object_store_caps :: "sdk \<Rightarrow> Capabilities" where
  "object_store_caps k = \<lparr>SupportsDelete = True, SupportsExpiry = True, ExpectedResolveMethod = sdk_MethodSignedURL k\<rparr>"

text \<open>
  An SDK for the suite: the known vectors have their digests, and any other body is its own
  digest. With it, the two backends with signers of their own.
\<close>

definition suite_digest :: "bytes \<Rightarrow> bytes" where
  "suite_digest d =
     (case map_of (map (\<lambda>v. (kv_Plaintext v, MustDigestBytes (\<lambda>_. []) v)) KnownVectors) d of
        Some (Returns b) \<Rightarrow> b | _ \<Rightarrow> d)"

definition suite_sdk :: sdk where
  "suite_sdk = demo_sdk\<lparr>sdk_Compute := \<lambda>d. demo_cid (suite_digest d)\<rparr>"

lemma vector_plaintexts: "map kv_Plaintext KnownVectors = map kv_Plaintext KnownVectors_literal"
  by (simp add: KnownVectors_def comp_def if_distrib)

lemma suite_digest_payload: "d \<in> suite_payloads \<Longrightarrow> suite_digest d = d"
proof -
  have "list_all (\<lambda>d. d \<notin> set (map kv_Plaintext KnownVectors_literal))
      (map parallel_payload [0..<32] @ [str_bytes ''resolve-a'', str_bytes ''resolve-b''])" by code_simp
  then have l: "\<forall>d \<in> set (map parallel_payload [0..<32] @ [str_bytes ''resolve-a'', str_bytes ''resolve-b'']).
      d \<notin> set (map kv_Plaintext KnownVectors)"
    unfolding list_all_iff vector_plaintexts .
  have "suite_payloads \<subseteq> set (map parallel_payload [0..<32] @ [str_bytes ''resolve-a'', str_bytes ''resolve-b''])"
    by (auto simp: suite_payloads_def)
  with l have "d \<in> suite_payloads \<Longrightarrow> d \<notin> set (map kv_Plaintext KnownVectors)" for d by blast
  then have "d \<in> suite_payloads \<Longrightarrow> map_of (map (\<lambda>v. (kv_Plaintext v, MustDigestBytes (\<lambda>_. []) v)) KnownVectors) d = None" for d
    by (auto simp: map_of_eq_None_iff image_image)
  then show "d \<in> suite_payloads \<Longrightarrow> suite_digest d = d" by (simp add: suite_digest_def)
qed

lemma suite_digest_vector:
  assumes "v \<in> set KnownVectors"
  shows "MustDigestBytes txt v = Returns (suite_digest (kv_Plaintext v))"
proof -
  have "distinct (map kv_Plaintext KnownVectors_literal)" by code_simp
  then have d: "distinct (map kv_Plaintext KnownVectors)" by (simp only: vector_plaintexts)
  obtain b where b: "MustDigestBytes txt v = Returns b" using known_vectors_decode [OF assms] by blast
  then have b': "MustDigestBytes (\<lambda>_. []) v = Returns b" by (simp add: MustDigestBytes_def split: option.splits)
  have "map_of (map (\<lambda>v. (kv_Plaintext v, MustDigestBytes (\<lambda>_. []) v)) KnownVectors) (kv_Plaintext v) = Some (Returns b)"
    by (rule map_of_is_SomeI) (use d assms b' in \<open>auto simp: comp_def image_iff intro: bexI [of _ v]\<close>)
  with b show ?thesis by (simp add: suite_digest_def)
qed

lemma suite_sdk_sel [simp]: "sdk_Compute suite_sdk d = demo_cid (suite_digest d)"
  by (simp add: suite_sdk_def)

lemma suite_sdk_ok_demo: "suite_sdk_ok suite_sdk demo_reg"
proof -
  have "inj_on (sdk_Compute suite_sdk) suite_payloads"
    by (rule inj_onI) (simp add: suite_digest_payload demo_cid_def)
  moreover have "Digest (demo_cid d) = d" for d by (simp add: demo_cid_def)
  ultimately show ?thesis
    by (simp add: suite_sdk_ok_def list_all_iff Vector_ComputeCID_def suite_digest_vector)
qed

lemma suite_plain_cids: "plain_cids suite_sdk demo_reg"
  using demo_plain_cids by (simp add: plain_cids_def cid_codec_def suite_sdk_def)

definition suite_presigner :: BoundS3Presigner where
  "suite_presigner =
     \<lparr>bp3_Signer = \<lparr>s4_AccessKey = ''AKIA'', s4_SecretKey = ''secret'', s4_Region = ''us-east-1'', s4_Service = ''s3''\<rparr>,
      bp3_Endpoint = ''http://rustfs''\<rparr>"

definition suite_rustfs :: "S3Fake RustFSBackend" where
  "suite_rustfs =
     demo_rustfs\<lparr>r_cfg := (r_cfg demo_rustfs)\<lparr>
       rf_RequestSigner := Some (SignRequest (bp3_Signer suite_presigner) (s3_fake_net 0)),
       rf_URLSigner := Some (Bound_PresignGetObject suite_sdk suite_presigner (s3_fake_net 0))\<rparr>\<rparr>"

abbreviation suite_rsa :: "bytes \<Rightarrow> bytes \<Rightarrow> goerr + bytes" where
  "suite_rsa key h \<equiv> Inr (key @ h)"

definition suite_gcs_signer :: "bytes GCSSigner" where
  "suite_gcs_signer = \<lparr>sg_email = ''sa@example.iam'', sg_key = [1]\<rparr>"

definition suite_gcs :: "GCSFake GCSBackend" where
  "suite_gcs =
     demo_gcs\<lparr>g_cfg := (g_cfg demo_gcs)\<lparr>gc_URLSigner := Some (SignURL suite_rsa suite_gcs_signer (gcs_fake_net 0))\<rparr>\<rparr>"

lemma suite_rustfs_deployed:
  "rustfs_deployed suite_sdk demo_reg (bp3_Signer suite_presigner) suite_presigner suite_rustfs"
proof -
  have "bp3_Endpoint suite_presigner = ''http://rustfs''" by (simp add: suite_presigner_def)
  moreover have "rf_Endpoint (r_cfg suite_rustfs) = ''http://rustfs''" by (simp add: suite_rustfs_def demo_rustfs_def)
  ultimately have "\<exists>sch auth host. base_parts (rf_Endpoint (r_cfg suite_rustfs)) sch auth host"
    "\<exists>sch auth host. base_parts (bp3_Endpoint suite_presigner) sch auth host \<and> (sch = ''http'' \<or> sch = ''https'')"
    using demo_base_rustfs by metis+
  then show ?thesis
    using suite_plain_cids demo_plain_keys unfolding rustfs_deployed_def
    by (simp add: suite_rustfs_def demo_rustfs_def) blast
qed

lemma suite_gcs_deployed: "gcs_deployed suite_sdk demo_reg suite_rsa suite_gcs_signer suite_gcs"
proof -
  have "GCS_baseURL suite_gcs = ''http://gcs''" by (simp add: GCS_baseURL_def suite_gcs_def demo_gcs_def)
  then have "\<exists>sch auth host. base_parts (GCS_baseURL suite_gcs) sch auth host" using demo_base_gcs by metis
  moreover have "plain_key ''a b/''" by code_simp
  ultimately show ?thesis
    using suite_plain_cids demo_unreserved unfolding gcs_deployed_def
    by (simp add: suite_gcs_def demo_gcs_def) blast
qed

abbreviation in_order :: schedule where
  "in_order n \<equiv> [0..<n]"

lemma in_order_fair: "fair in_order"
  by (auto simp: fair_def)

text \<open>
  C14. The RustFS backend passes the backend groups of the repository's conformance suite. Wired with the SigV4
  request signer and the bound presigner, over the S3 fake, every scenario of the lifecycle,
  resolve, error, concurrency and integrity groups passes, in whatever order the goroutines
  of the concurrent scenarios reach the server.
\<close>

theorem rustfs_passes_conformance:
  assumes "rustfs_deployed k reg sg bs b" "suite_sdk_ok k reg" "fair sch"
  shows "all_pass (run_backend_groups k det sch ''rustfs''
     \<lparr>f_backend = RustFS_provider k b, f_new = NewS3Fake, f_now = net_now (r_client b)\<rparr> (object_store_caps k))"
proof -
  have "rustfs_up k reg b NewS3Fake"
    by (rule rustfs_deployed_up [OF assms(1)]) (simp add: NewS3Fake_def sf_overrides_def)
  moreover have "rustfs_contents k b NewS3Fake c = None" for c by (simp add: rustfs_contents_def NewS3Fake_def)
  ultimately show ?thesis
    unfolding object_store_caps_def
    by (intro rustfs_conf.suite_passes [OF assms(2) _ _ assms(3)]) (use assms(1) in simp_all)
qed

theorem rustfs_passes_conformance_witness:
  "all_pass (run_backend_groups suite_sdk (\<lambda>seed n. replicate n 7) in_order ''rustfs''
     \<lparr>f_backend = RustFS_provider suite_sdk suite_rustfs, f_new = NewS3Fake, f_now = net_now (r_client suite_rustfs)\<rparr>
     (object_store_caps suite_sdk))"
  by (rule rustfs_passes_conformance [OF suite_rustfs_deployed suite_sdk_ok_demo in_order_fair])

text \<open>
  C13. The mirrored deployment passes them too: a GCS primary with the service-account URL
  signer and a RustFS mirror, each over its fake.
\<close>

theorem mirrored_passes_conformance:
  assumes "gcs_deployed k reg rsa_sign gs g" "rustfs_deployed k reg sg bs b" "suite_sdk_ok k reg" "fair sch"
  shows "all_pass (run_backend_groups k det sch ''mirrored''
     \<lparr>f_backend = MirroredStore k (GCS_provider k g) (RustFS_provider k b),
      f_new = NewMirroredStore MirrorModeSync NewGCSFake NewS3Fake,
      f_now = (\<lambda>s. net_now (g_client g) (mi_primary s))\<rparr> (object_store_caps k))"
proof -
  let ?s = "NewMirroredStore MirrorModeSync NewGCSFake NewS3Fake"
  have "gcs_up k reg g (mi_primary ?s)" "rustfs_up k reg b (mi_mirror ?s)"
    by (rule gcs_deployed_up [OF assms(1)], simp add: NewMirroredStore_def NewGCSFake_def gf_overrides_def)
      (rule rustfs_deployed_up [OF assms(2)], simp add: NewMirroredStore_def NewS3Fake_def sf_overrides_def)
  moreover have "gcs_contents k g (mi_primary ?s) c = None" "rustfs_contents k b (mi_mirror ?s) c = None" for c
    by (simp_all add: rustfs_contents_def NewS3Fake_def gcs_contents_def NewGCSFake_def NewMirroredStore_def)
  ultimately show ?thesis
    unfolding object_store_caps_def
    by (intro gr_conf.st.suite_passes [OF assms(3) _ _ assms(4)]) (use assms(1,2) in \<open>simp_all add: agree_def\<close>)
qed

theorem mirrored_passes_conformance_witness:
  "all_pass (run_backend_groups suite_sdk (\<lambda>seed n. replicate n 7) (\<lambda>n. rev [0..<n]) ''mirrored''
     \<lparr>f_backend = MirroredStore suite_sdk (GCS_provider suite_sdk suite_gcs) (RustFS_provider suite_sdk suite_rustfs),
      f_new = NewMirroredStore MirrorModeSync NewGCSFake NewS3Fake,
      f_now = (\<lambda>s. net_now (g_client suite_gcs) (mi_primary s))\<rparr> (object_store_caps suite_sdk))"
proof (rule mirrored_passes_conformance [OF suite_gcs_deployed suite_rustfs_deployed suite_sdk_ok_demo])
  show "fair (\<lambda>n. rev [0..<n])" by (auto simp: fair_def)
qed

end
