(* ===== verification/Spec2Isabelle.thy ===== *)
theory Spec2Isabelle
  imports Key_Properties Startup_Properties Signing_Properties Cmd_Lifecycle Conformance_Runs
begin

text \<open>
  The artifact store of the Ortholog project: an HTTP service that keeps opaque, already
  encrypted artifacts under their content identifier (CID), in Google Cloud Storage, in an
  S3 server (RustFS), in both, or in memory; and the key services that hold the data keys
  of those artifacts, in HashiCorp Vault, in Google Cloud KMS with Firestore, or on a
  PKCS\#11 token. Source files are named relative to \<open>src/\<close>.

  \<^bold>\<open>The parts and how they interact.\<close> \<open>main\<close> (\<open>cmd/artifact-store\<close>) reads the settings
  (\<open>config\<close>), loads the operator keys that upload tokens are checked against, builds a
  backend (\<open>backends\<close>) and a key service (\<open>keyservice\<close>), and serves the routes of \<open>api\<close>. An
  upload passes the size limit, the CID header, the token check and the digest check before
  it reaches the backend; the other handlers translate one backend call each into a
  response. The backends speak HTTP to an object store; the signers (\<open>internal/signers\<close>)
  authenticate their requests and make the URLs that a resolve hands out.

  \<^bold>\<open>Which theory models what.\<close>

  \<^item> Go itself. \<open>Go_Prelude\<close> has bytes, 64-bit integers as words, errors with the walk of
    \<open>errors.Is\<close>; \<open>Go_Strings\<close>, \<open>Go_Encoding\<close>, \<open>Go_Url\<close>, \<open>Go_Time\<close>, \<open>Go_Float\<close>, \<open>Go_Json\<close>,
    \<open>Go_Fmt\<close>, \<open>Go_Pem\<close> and \<open>Go_Sha256\<close> have what the source uses of the standard library,
    each with its inversion lemmas (hex, base64, percent escapes, query strings, RFC 3339
    times, JSON, PEM).
  \<^item> \<open>Store_Types\<close>: CIDs, credentials, HTTP messages, log records, the record of functions
    \<open>BackendProvider\<close> for the interface of \<open>backends/backend.go\<close>, and the SDK as a record
    of parameters.
  \<^item> \<open>Api_Token\<close> (\<open>api/token.go\<close>), \<open>Api_Push\<close> (\<open>push.go\<close>, \<open>helpers.go\<close>), \<open>Api_Handlers\<close>
    (\<open>fetch.go\<close>, \<open>exists.go\<close>, \<open>pin.go\<close>, \<open>delete.go\<close>, \<open>resolve.go\<close>, \<open>wire.go\<close>, \<open>health.go\<close>),
    \<open>Api_Server\<close> (\<open>server.go\<close>): every handler as a function from the request and the state of
    the backend to the response, the audit records and the new state. \<open>serve\<close> runs requests
    one by one; the inductive \<open>trace\<close> interleaves the backend calls of any requests.
  \<^item> \<open>Backend_Gcs\<close>, \<open>Backend_Rustfs\<close>, \<open>Backend_Mirrored\<close>, \<open>Backend_Memory\<close> (\<open>backends\<close>,
    \<open>internal/testutil/notsupported_backend.go\<close>) and \<open>Http_Fakes\<close>
    (\<open>internal/testutil/httpfakes.go\<close>): the backends over a network that is a parameter,
    and the two servers of the repository as that network.
  \<^item> \<open>Config\<close> (\<open>config/config.go\<close>), \<open>Cmd_Token\<close> (\<open>token.go\<close> of the command), \<open>Cmd_Main\<close>
    (\<open>main.go\<close> up to the call that serves, and \<open>keyservice.go\<close>), \<open>Cmd_Lifecycle\<close> (the rest of
    \<open>main\<close>, as a step relation over the main goroutine, the signal goroutine, the server and
    the requests in flight).
  \<^item> \<open>Ks_Internals\<close>, \<open>Ks_Vault\<close>, \<open>Ks_Gcpkms\<close>, \<open>Ks_Pkcs11\<close> (\<open>keyservice\<close>): every operation with
    every call to its server or module in the order of the code, and the path cache that
    Vault and GCP keep in the process.
  \<^item> \<open>Signers\<close> (\<open>internal/signers\<close>) and \<open>Test_Support\<close> (\<open>slogcapture.go\<close>, \<open>cidvectors.go\<close>,
    \<open>hash.go\<close> of \<open>internal/testutil\<close>).
  \<^item> \<open>Conformance\<close> (\<open>tests/conformance\<close>): the five groups of the repository's suite that exercise
    a backend, as functions from a backend to the result of each scenario; goroutines make
    their calls in the order of a schedule, over which the theorems quantify.
  \<^item> \<open>Instances\<close> and \<open>Demo_Keys\<close>, \<open>Demo_Start\<close>, \<open>Demo_Vault\<close>, \<open>Demo_Gcp\<close>, \<open>Demo_Hsm\<close>: a value
    for each parameter, on which the hypotheses of the properties hold.

  \<^bold>\<open>Interfaces.\<close> \<open>Backend_Contract\<close> states what the handlers need of a backend:
  \<open>object_store\<close> (no call makes an object appear that was not pushed, a fetch returns what is
  held) holds even when the server refuses calls; \<open>reliable_store\<close> is a map from CIDs to bytes
  that every call updates as its name says, and gives the first. \<open>Backend_Memory\<close>,
  \<open>Gcs_Contract\<close> and \<open>Rustfs_Contract\<close> interpret them; the locales of \<open>Backend_Mirrored\<close>
  derive them for a pair of backends and for one side down, and \<open>Mirrored_Deployment\<close>
  interprets those on GCS with RustFS. \<open>conforming_store\<close> in \<open>Conformance\<close> adds what the suite
  needs of pins, health and credentials and proves once that it passes; \<open>Conformance_Runs\<close>
  interprets it on RustFS and GCS with the signers of the repository and on the mirrored
  store over them. \<open>Key_Custody\<close> does the same for key services:
  \<open>key_custody\<close> says which calls may add or remove the key of a CID, whatever the server
  answers, and \<open>key_custody_up\<close> what happens when it answers; \<open>Vault_Custody\<close>, \<open>Gcp_Custody\<close>
  and \<open>P11_Custody\<close> interpret both on the three services.

  \<^bold>\<open>What the theorems show.\<close> This theory has the properties of the service: bytes served
  with 200 hash to their CID under any interleaving, and were authorised by a token when the
  policy says so; pushes, reads and deletes behave as a map on each deployment, with either
  side of the mirror down as far as the code allows; the verifier accepts exactly the tokens
  that authorise the upload; every refusal has one audit record; bodies and credentials
  parse back. \<open>Key_Properties\<close>: a deleted key stays deleted, a rotation that stops anywhere
  leaves one of the two ciphertexts readable, encryption round-trips, and the token of the
  PKCS\#11 service stays well formed. \<open>Startup_Properties\<close>: which settings load, that the
  keys at start-up have the type the verifier needs, that a started service guards its
  uploads, and when the watchdog ends. \<open>Signing_Properties\<close>: signed URLs come apart into the
  parameters they were made from, and a signed request covers its headers whatever the
  order of the header map. \<open>Conformance_Runs\<close>: the backends, signers and fakes together pass
  the suite, in every order of the concurrent calls.

  \<^bold>\<open>What the code does not do.\<close> Proved here or in the theories named: an operator key named
  like the sentinel of \<open>checkUploadToken\<close> swallows uploads; a size limit of the largest
  \<open>int64\<close> stores empty bodies; a delete that the mirror refuses is reported as success and
  the object stays readable; no setting reaches the URL signers, so a started service
  never resolves over GCS or RustFS; the exit after a signal drops the requests in flight.

  \<^bold>\<open>Bounds and fuel.\<close> Integers of the source are words of their width. The JSON parser has
  fuel of twice the length of its input plus one, a unit per value and per member, each of
  which consumes a character; the nesting limit is that of the library, 10000. Everything
  else recurses on its data. The hypotheses on CIDs (\<open>cid_codec\<close>) are that the SDK's
  \<open>String\<close> and \<open>ParseCID\<close> are inverse on the registered ones; those on the key services are
  that the ciphers open what they sealed and that random draws do not repeat.

  \<^bold>\<open>Not modelled.\<close> The SDK, AES-GCM, ECIES, RSA, Ed25519, DER, the PKCS\#11 module, Vault,
  Cloud KMS and Firestore are parameters, with the laws a property needs as its hypotheses.
  Network transport, TLS, timeouts of the server and of clients, and the mutexes of the
  backends and fakes are left out: a backend call is one step. \<open>strings.ToLower\<close> is the
  lower case of ASCII. \<open>DeterministicBytes\<close> (the generator of \<open>math/rand\<close>), the
  goroutine-leak check, the five conformance groups about the SDK's CIDs and the JSON of
  credentials, and the integration and staging tests are left out as test drivers. A signal
  that arrives before the store has logged that it starts is outside \<open>Cmd_Lifecycle\<close>.
\<close>

section \<open>What the service stores and serves\<close>

abbreviation mirrored_bp ::
  "sdk \<Rightarrow> GCSFake GCSBackend \<Rightarrow> S3Fake RustFSBackend \<Rightarrow> gcs_rustfs BackendProvider" where
  "mirrored_bp k g b \<equiv> MirroredStore k (GCS_provider k g) (RustFS_provider k b)"






text \<open>
  C5. Round trip over GCS. An admitted upload to a service over a GCS backend (any prefix,
  any CID string) is answered 200 with the CID and the size, and a later GET of the CID is
  answered 200 with exactly the uploaded bytes.
\<close>

theorem gcs_push_then_get:
  assumes "gcs_up k reg g s" "segment_cid (sdk_String k c)"
    and "push_admitted k (push_handler cfg) now (push_request cs tk d) c d"
    and "\<not> kid_collides (push_handler cfg) (push_request cs tk d)"
    and "serve k cfg (GCS_provider k g) now (push_request cs tk d) s = (rp1, lg1, s1)"
    and "serve k cfg (GCS_provider k g) now' (artifact_request ''GET'' (sdk_String k c) [] q) s1 = (rp2, lg2, s2)"
  shows "rp1 = Returns (ok_push k c d) \<and> rp2 = Returns (ok_fetch d)"
  using gcs.push_then_get [OF assms(1) gcs_upD(2) [OF assms(1)] assms(3,4,2,5,6)] .

theorem gcs_push_then_get_witness:
  "\<exists>lg1 s1 lg2 s2.
     serve demo_sdk demo_cfg (GCS_provider demo_sdk demo_gcs) 50 demo_push NewGCSFake =
       (Returns (ok_push demo_sdk demo_c demo_d), lg1, s1) \<and>
     serve demo_sdk demo_cfg (GCS_provider demo_sdk demo_gcs) 60
       (artifact_request ''GET'' (sdk_String demo_sdk demo_c) [] []) s1 = (Returns (ok_fetch demo_d), lg2, s2)"
proof -
  obtain rp1 lg1 s1 where 1: "serve demo_sdk demo_cfg (GCS_provider demo_sdk demo_gcs) 50
      (push_request (sdk_String demo_sdk demo_c) (token_for ''op'') demo_d) NewGCSFake = (rp1, lg1, s1)"
    by (metis prod_cases3)
  obtain rp2 lg2 s2 where 2: "serve demo_sdk demo_cfg (GCS_provider demo_sdk demo_gcs) 60
      (artifact_request ''GET'' (sdk_String demo_sdk demo_c) [] []) s1 = (rp2, lg2, s2)"
    by (metis prod_cases3)
  have "rp1 = Returns (ok_push demo_sdk demo_c demo_d) \<and> rp2 = Returns (ok_fetch demo_d)"
    using gcs_push_then_get [OF demo_gcs_up demo_segment demo_push_admitted [unfolded demo_push_eq]
        demo_no_collision [unfolded demo_push_eq] 1 2] .
  with 1 2 show ?thesis unfolding demo_push_eq by blast
qed

text \<open>
  C6. Round trip and deletion over the mirrored store. With both servers up and in step, a
  GET after a DELETE of a CID is answered 404, and a GET after an admitted upload is
  answered with the uploaded bytes.
\<close>

theorem mirrored_push_delete_get:
  assumes "gcs_up k reg g (mi_primary s)" "rustfs_up k reg b (mi_mirror s)"
    and "agree reg (gcs_contents k g (mi_primary s)) (rustfs_contents k b (mi_mirror s))"
    and "segment_cid (sdk_String k c)"
    and "push_admitted k (push_handler cfg) now (push_request cs tk d) c d"
    and "\<not> kid_collides (push_handler cfg) (push_request cs tk d)"
    and "serve k cfg (mirrored_bp k g b) now (push_request cs tk d) s = (rp1, lg1, s1)"
    and "serve k cfg (mirrored_bp k g b) t2 (artifact_request ''GET'' (sdk_String k c) [] q) s1 = (rp2, lg2, s2)"
    and "serve k cfg (mirrored_bp k g b) t3 (artifact_request ''DELETE'' (sdk_String k c) [] q) s1 = (rp3, lg3, s3)"
    and "serve k cfg (mirrored_bp k g b) t4 (artifact_request ''GET'' (sdk_String k c) [] q) s3 = (rp4, lg4, s4)"
  shows "rp1 = Returns (ok_push k c d) \<and> rp2 = Returns (ok_fetch d) \<and>
         rp3 = Returns (status_only 200) \<and> rp4 = Returns (writeError 404 ''not found'')"
proof -
  have up: "gcs_up k reg g (mi_primary s) \<and> rustfs_up k reg b (mi_mirror s) \<and>
      agree reg (gcs_contents k g (mi_primary s)) (rustfs_contents k b (mi_mirror s))"
    using assms(1-3) by blast
  note codec = gcs_upD(2) [OF assms(1)]
  have reg: "reg c" using codec assms(5) by (auto simp: push_admitted_def cid_codec_def)
  note p = gr.st.serve_push [OF up codec assms(5-7)]
  have up1: "gcs_up k reg g (mi_primary s1) \<and> rustfs_up k reg b (mi_mirror s1) \<and>
      agree reg (gcs_contents k g (mi_primary s1)) (rustfs_contents k b (mi_mirror s1))"
    using p by blast
  have "gcs_contents k g (mi_primary s1) c = Some d"
    using p agreeD [of reg "gcs_contents k g (mi_primary s1)" _ c] reg by fastforce
  then show ?thesis
    using p gr.st.push_then_get [OF up codec assms(5,6,4,7,8)]
      gr.st.serve_delete(2) [OF up1 codec reg assms(4,9)]
      gr.st.delete_then_get [OF up1 codec reg assms(4,9,10)] by simp
qed

theorem mirrored_push_delete_get_witness:
  "\<exists>s1 s2 s3 s4 lg1 lg2 lg3 lg4.
     serve demo_sdk demo_cfg demo_bp 50 demo_push
       \<lparr>mi_primary = NewGCSFake, mi_mirror = NewS3Fake, mi_log = []\<rparr> =
       (Returns (ok_push demo_sdk demo_c demo_d), lg1, s1) \<and>
     serve demo_sdk demo_cfg demo_bp 60 (artifact_request ''GET'' (sdk_String demo_sdk demo_c) [] []) s1 =
       (Returns (ok_fetch demo_d), lg2, s2) \<and>
     serve demo_sdk demo_cfg demo_bp 60 (artifact_request ''DELETE'' (sdk_String demo_sdk demo_c) [] []) s1 =
       (Returns (status_only 200), lg3, s3) \<and>
     serve demo_sdk demo_cfg demo_bp 70 (artifact_request ''GET'' (sdk_String demo_sdk demo_c) [] []) s3 =
       (Returns (writeError 404 ''not found''), lg4, s4)"
proof -
  let ?s = "\<lparr>mi_primary = NewGCSFake, mi_mirror = NewS3Fake, mi_log = []\<rparr> :: gcs_rustfs"
  have up: "gcs_up demo_sdk demo_reg demo_gcs (mi_primary ?s)" "rustfs_up demo_sdk demo_reg demo_rustfs (mi_mirror ?s)"
    using demo_gcs_up demo_rustfs_up by simp_all
  have ag: "agree demo_reg (gcs_contents demo_sdk demo_gcs (mi_primary ?s))
      (rustfs_contents demo_sdk demo_rustfs (mi_mirror ?s))"
    by (simp add: agree_def demo_mirror_empty gcs_contents_def NewGCSFake_def)
  obtain rp1 lg1 s1 where 1: "serve demo_sdk demo_cfg demo_bp 50
      (push_request (sdk_String demo_sdk demo_c) (token_for ''op'') demo_d) ?s = (rp1, lg1, s1)"
    by (metis prod_cases3)
  obtain rp2 lg2 s2 where 2: "serve demo_sdk demo_cfg demo_bp 60
      (artifact_request ''GET'' (sdk_String demo_sdk demo_c) [] []) s1 = (rp2, lg2, s2)"
    by (metis prod_cases3)
  obtain rp3 lg3 s3 where 3: "serve demo_sdk demo_cfg demo_bp 60
      (artifact_request ''DELETE'' (sdk_String demo_sdk demo_c) [] []) s1 = (rp3, lg3, s3)"
    by (metis prod_cases3)
  obtain rp4 lg4 s4 where 4: "serve demo_sdk demo_cfg demo_bp 70
      (artifact_request ''GET'' (sdk_String demo_sdk demo_c) [] []) s3 = (rp4, lg4, s4)"
    by (metis prod_cases3)
  show ?thesis
    using mirrored_push_delete_get [OF up ag demo_segment demo_push_admitted [unfolded demo_push_eq]
        demo_no_collision [unfolded demo_push_eq] 1 2 3 4] 1 2 3 4
    unfolding demo_push_eq by blast
qed

section \<open>The upload handler\<close>


text \<open>
  C21. The audit trail is complete: a response other than 200 comes with exactly one warning
  record, with the event \<open>artifact.push.rejected\<close> and one of the documented reasons, and
  the reason determines the status; a 200 comes with no record.
\<close>

theorem push_audited:
  "case Push_ServeHTTP k h bp now r s of
     (rp, lg, s') \<Rightarrow> rp_status rp = 200 \<and> lg = [] \<or> audited rp lg"
  using push_audit_trail [of k h bp now r s] by (cases "Push_ServeHTTP k h bp now r s") auto

text \<open>
  C22. The size limit: for a limit that is not the largest \<open>int64\<close>, a body longer than the
  limit is answered 413 and the backend is not called, however long the body is.
\<close>

theorem push_too_large:
  assumes "0 \<le> sint (h_maxBody h)" "sint (h_maxBody h) < max_int64"
    and "sint (h_maxBody h) < int (length (st_data (sr_body r)))"
    and "claimed_cid r \<noteq> []" "sdk_ParseCID k (claimed_cid r) = Inr c"
  shows "\<exists>lg. Push_ServeHTTP k h bp now r s =
           (writeError 413 (''body size exceeds '' @ itoa (sint (h_maxBody h)) @ '' bytes''), lg, s)"
  using assms by (rule push_oversized)

theorem push_too_large_witness:
  "\<exists>lg. Push_ServeHTTP demo_sdk \<lparr>h_verify = False, h_maxBody = 2, h_tokenVerifier = None, h_tokenPolicy = ''off''\<rparr>
          (InMemoryBackend map_store) 0 demo_push (\<lambda>_. None) =
          (writeError 413 (''body size exceeds '' @ itoa 2 @ '' bytes''), lg, \<lambda>_. None)"
proof -
  let ?h = "\<lparr>h_verify = False, h_maxBody = 2, h_tokenVerifier = None, h_tokenPolicy = ''off''\<rparr>"
  have "0 \<le> sint (h_maxBody ?h)" "sint (h_maxBody ?h) < max_int64"
    "sint (h_maxBody ?h) < int (length (st_data (sr_body demo_push)))"
    by (simp_all add: max_int64_def demo_push_eq demo_d_def)
  moreover have "claimed_cid demo_push \<noteq> []" "sdk_ParseCID demo_sdk (claimed_cid demo_push) = Inr demo_c"
    using demo_parse_c by (simp_all add: demo_push_eq parseCIDFromPath_def)
  ultimately show ?thesis
    using push_too_large [of ?h demo_push demo_sdk demo_c "InMemoryBackend map_store" 0 "\<lambda>_. None"] by simp
qed

text \<open>
  C37. The limit wraps: at \<open>MaxInt64\<close> the sum with one is negative, the reader yields
  nothing, and an upload of any body is admitted with an empty body in its place (a request
  whose CID parses, with verification and tokens off).
\<close>

theorem push_limit_overflow:
  assumes "sint (h_maxBody h) = max_int64" "\<not> h_verify h" "h_tokenPolicy h = ''off''"
    and "claimed_cid r \<noteq> []" "sdk_ParseCID k (claimed_cid r) = Inr c"
  shows "Push_ServeHTTP k h bp now r s = push_outcome k r c [] (bp_Push bp c [] s)"
proof (rule push_admitted_outcome)
  show "push_admitted k h now r c []"
    using assms push_limit_wraps [OF assms(1), of r]
    by (simp add: push_admitted_def token_admits_def max_int64_def)
  show "\<not> kid_collides h r" using assms(3) by (simp add: kid_collides_def)
qed

theorem push_limit_overflow_witness:
  "Push_ServeHTTP demo_sdk
     \<lparr>h_verify = False, h_maxBody = 9223372036854775807, h_tokenVerifier = None, h_tokenPolicy = ''off''\<rparr>
     (InMemoryBackend map_store) 0 demo_push (\<lambda>_. None) =
     (ok_push demo_sdk demo_c [], [], (\<lambda>_. None)(demo_c := Some []))"
proof -
  let ?h = "\<lparr>h_verify = False, h_maxBody = 9223372036854775807, h_tokenVerifier = None, h_tokenPolicy = ''off''\<rparr>"
  have h: "sint (h_maxBody ?h) = max_int64" "\<not> h_verify ?h" "h_tokenPolicy ?h = ''off''"
    by (simp_all add: max_int64_def)
  have c: "claimed_cid demo_push \<noteq> []" "sdk_ParseCID demo_sdk (claimed_cid demo_push) = Inr demo_c"
    using demo_parse_c by (simp_all add: demo_push_eq parseCIDFromPath_def)
  show ?thesis
    using push_limit_overflow [OF h c, of "InMemoryBackend map_store" 0 "\<lambda>_. None"]
    by (simp add: InMemoryBackend_def map_store_def push_outcome_def ok_push_def)
qed

section \<open>Upload tokens\<close>

text \<open>
  C16. Acceptance, exactly: the verifier accepts a token if and only if it splits at its
  first dot into two non-empty base64url parts, the first decodes to a JSON payload whose
  kid names a registered key, the second is that key's signature of the payload bytes, and
  the claims name this CID and size and an expiry that is set and not past.
\<close>

theorem token_accepted_iff:
  "Token_Verify k keys token cidstr sz now = None \<longleftrightarrow>
     (\<exists>p. token_authorises k keys token cidstr sz now p)"
  by (rule Token_Verify_accepts)

text \<open>
  C17. Minted tokens are accepted: the token made from a payload struct (its JSON encoding,
  raw base64url) and a valid signature verifies for its own CID and size until it expires.
\<close>

theorem minted_token_accepted:
  assumes "ascii (p_CID p)" "ascii (p_Kid p)" "sig \<noteq> []" "map_of keys (p_Kid p) = Some pk"
    and "sdk_VerifyEd25519 k pk (marshal_payload p) sig = None"
    and "p_Exp p \<noteq> 0" "unix now \<le> sint (p_Exp p)"
  shows "Token_Verify k keys (token_of (marshal_payload p) sig) (p_CID p) (p_Size p) now = None"
  using assms by (rule Token_Verify_minted)

theorem minted_token_accepted_witness:
  "Token_Verify demo_sdk (keys_for ''op'') (token_of (marshal_payload (payload_for ''op'')) [7])
     (p_CID (payload_for ''op'')) (p_Size (payload_for ''op'')) 50 = None"
  by (rule minted_token_accepted [OF payload_for_ascii [OF demo_kid_ascii(1)], where pk = "[7]"])
    (simp_all add: payload_for_def keys_for_def unix_def)

text \<open>
  C23. A refused token carries exactly one of the seven token sentinels in its error chain,
  so the logged reason is decided by it and never falls through to the default.
\<close>

theorem token_refusal_classified:
  "case Token_Verify k keys token cidstr sz now of
     None \<Rightarrow> True
   | Some e \<Rightarrow> \<exists>x \<in> set token_sentinels. (\<forall>y. errors_is e y = (y = x)) \<and>
       classifyTokenError e =
         (case x of ErrTokenUnknownKid \<Rightarrow> ''token_unknown_kid'' | ErrTokenBadSignature \<Rightarrow> ''token_invalid''
          | ErrTokenExpired \<Rightarrow> ''token_expired'' | ErrTokenCIDMismatch \<Rightarrow> ''token_cid_mismatch''
          | ErrTokenSizeMismatch \<Rightarrow> ''token_size_mismatch'' | _ \<Rightarrow> ''token_malformed'')"
proof (cases "Token_Verify k keys token cidstr sz now")
  case (Some e)
  from Token_Verify_one_sentinel [OF this] obtain x where x: "x \<in> set token_sentinels"
    "\<forall>y. errors_is e y = (y = x)" by blast
  then show ?thesis
    using Some by (intro option.case_eq_if [THEN iffD2])
      (auto simp: classifyTokenError_def token_sentinels_def)
qed simp

text \<open>
  C36. The sentinel collides with a kid: if a key is registered under the name
  \<^verbatim>\<open><rejected>\<close>, an upload whose token verifies under it is taken for rejected, nothing is
  stored or logged, and the client is answered 200 with an empty body.
\<close>

theorem rejected_kid_swallows_upload:
  assumes "push_admitted k h now r c d" "h_tokenPolicy h = ''required''"
    and "h_tokenVerifier h = Some (Token_Verify k keys)"
    and "token_authorises k keys (upload_token r) (claimed_cid r) (of_nat (length d)) now p"
    and "p_Kid p = tokenRejected"
  shows "Push_ServeHTTP k h bp now r s = (no_reply, [], s)"
proof (rule push_collision [OF assms(1)])
  have "upload_token r \<noteq> []"
    using assms(4) by (auto simp: token_authorises_def token_parts_def)
  then show "kid_collides h r"
    using extractKid_authorised [OF assms(4)] assms(2,3,5) by (simp add: kid_collides_def)
qed

theorem rejected_kid_swallows_upload_witness:
  "Push_ServeHTTP demo_sdk (push_handler (cfg_for tokenRejected)) (InMemoryBackend map_store) 50
     (push_for tokenRejected) (\<lambda>_. None) = (no_reply, [], \<lambda>_. None)"
proof (rule rejected_kid_swallows_upload [OF push_for_admitted [OF demo_kid_ascii(2)]])
  show "token_authorises demo_sdk (keys_for tokenRejected) (upload_token (push_for tokenRejected))
      (claimed_cid (push_for tokenRejected)) (of_nat (length demo_d)) 50 (payload_for tokenRejected)"
    unfolding push_for_sel demo_length by (rule token_for_authorises [OF demo_kid_ascii(2)])
qed (simp_all add: push_handler_def cfg_for_def payload_for_def)

section \<open>The mirrored store with one side down\<close>

text \<open>
  C24. Writes survive a dead mirror: with the GCS primary up, a push succeeds and is read
  back byte for byte, whatever the RustFS mirror does.
\<close>

theorem mirror_failure_hidden:
  assumes "gcs_up k reg g (mi_primary s)" "reg c"
    and "Mirrored_Push k (GCS_provider k g) (RustFS_provider k b) c d s = (r, s1)"
  shows "r = None \<and> fst (Mirrored_Fetch k (GCS_provider k g) (RustFS_provider k b) c s1) = Inr d"
  using assms by (rule gr_primary.push_then_fetch)

theorem mirror_failure_hidden_witness:
  "\<exists>s1. Mirrored_Push demo_sdk (GCS_provider demo_sdk demo_gcs) (RustFS_provider demo_sdk demo_rustfs) demo_c [9]
          \<lparr>mi_primary = NewGCSFake, mi_mirror = NewS3Fake\<lparr>sf_PushStatus := 503\<rparr>, mi_log = []\<rparr> = (None, s1) \<and>
     fst (Mirrored_Fetch demo_sdk (GCS_provider demo_sdk demo_gcs) (RustFS_provider demo_sdk demo_rustfs) demo_c s1) = Inr [9]"
proof -
  let ?s = "\<lparr>mi_primary = NewGCSFake, mi_mirror = NewS3Fake\<lparr>sf_PushStatus := 503\<rparr>, mi_log = []\<rparr> :: gcs_rustfs"
  have up: "gcs_up demo_sdk demo_reg demo_gcs (mi_primary ?s)" using demo_gcs_up by simp
  obtain r s1 where p: "Mirrored_Push demo_sdk (GCS_provider demo_sdk demo_gcs)
      (RustFS_provider demo_sdk demo_rustfs) demo_c [9] ?s = (r, s1)" by fastforce
  from mirror_failure_hidden [OF up demo_reg_c p] p show ?thesis by blast
qed

text \<open>
  C25. Reads fail over: when the primary's fetch fails for any reason, and the RustFS mirror
  is up and holds the object, the fetch returns it.
\<close>

theorem primary_failure_hidden:
  assumes "rustfs_up k reg b (mi_mirror s)" "reg c" "rustfs_contents k b (mi_mirror s) c = Some d"
    and "GCS_Fetch k g c (mi_primary s) = (Inl e, p1)"
  shows "fst (Mirrored_Fetch k (GCS_provider k g) (RustFS_provider k b) c s) = Inr d"
  by (rule gr_mirror.fetch_fails_over [OF assms(1-3)]) (use assms(4) in simp)

theorem primary_failure_hidden_witness:
  "fst (Mirrored_Fetch demo_sdk (GCS_provider demo_sdk demo_gcs) (RustFS_provider demo_sdk demo_rustfs) demo_c
     \<lparr>mi_primary = NewGCSFake, mi_mirror = demo_s3, mi_log = []\<rparr>) = Inr demo_d"
proof -
  let ?s = "\<lparr>mi_primary = NewGCSFake, mi_mirror = demo_s3, mi_log = []\<rparr> :: gcs_rustfs"
  obtain q p1 where f: "GCS_Fetch demo_sdk demo_gcs demo_c NewGCSFake = (q, p1)" by fastforce
  have "gcs_contents demo_sdk demo_gcs NewGCSFake demo_c = None"
    by (simp add: gcs_contents_def NewGCSFake_def)
  then have "q = Inl (Sentinel ErrContentNotFound)"
    using gcs.fetch_ok [OF demo_gcs_up demo_reg_c] f by fastforce
  with f have "GCS_Fetch demo_sdk demo_gcs demo_c (mi_primary ?s) = (Inl (Sentinel ErrContentNotFound), p1)" by simp
  with demo_s3_up demo_s3_contents show ?thesis
    by (intro primary_failure_hidden [of demo_sdk demo_reg demo_rustfs ?s demo_c]) simp_all
qed

text \<open>
  C38. A delete can be undone by a mirror: when the primary deletes an object and the mirror
  refuses to (any status from 300), the store reports success and a later fetch still
  returns the mirror's copy.
\<close>

theorem mirrored_delete_not_final:
  assumes "gcs_up k reg g (mi_primary s)" "reg c" "gcs_contents k g (mi_primary s) c \<noteq> None"
    and "rustfs_wired b" "plain_cids k reg" "rustfs_sign_ok b"
    and "300 \<le> sf_DeleteStatus (mi_mirror s)" "sf_FetchStatus (mi_mirror s) = 0"
    and "rustfs_contents k b (mi_mirror s) c = Some d"
    and "Mirrored_Delete k (GCS_provider k g) (RustFS_provider k b) c s = (r, s1)"
  shows "r = None \<and> fst (Mirrored_Fetch k (GCS_provider k g) (RustFS_provider k b) c s1) = Inr d"
proof -
  note kc = plain_cidsD [OF assms(5,2)]
  obtain e m1 where m: "RustFS_Delete k b c (mi_mirror s) = (Some e, m1)"
    "sf_overrides m1 = sf_overrides (mi_mirror s)" "sf_objects m1 = sf_objects (mi_mirror s)"
    using RustFS_Delete_refused [OF assms(4) conjunct1 [OF kc] conjunct2 [OF kc] assms(6,7)] by blast
  obtain q m2 where f: "RustFS_Fetch k b c m1 = (q, m2)" by fastforce
  have fs: "sf_FetchStatus m1 = 0" using sf_overrides_eqD [OF m(2)] assms(8) by simp
  have ct: "rustfs_contents k b m1 c = Some d"
    using assms(9) rustfs_contents_same [OF m(3), of k b] by (simp only:)
  have "q = (case rustfs_contents k b m1 c of None \<Rightarrow> Inl (Sentinel ErrContentNotFound) | Some d \<Rightarrow> Inr d)"
    using RustFS_Fetch_step [OF assms(4) conjunct1 [OF kc] conjunct2 [OF kc] f] assms(6) fs by blast
  then have "q = Inr d" by (simp only: ct option.case)
  with f m(1) show ?thesis
    by (intro gr_primary.delete_masks_mirror [OF assms(1-3) _ _ assms(10)]) simp_all
qed

theorem mirrored_delete_not_final_witness:
  "\<exists>s1. Mirrored_Delete demo_sdk (GCS_provider demo_sdk demo_gcs) (RustFS_provider demo_sdk demo_rustfs) demo_c
          \<lparr>mi_primary = demo_store, mi_mirror = demo_s3\<lparr>sf_DeleteStatus := 503\<rparr>, mi_log = []\<rparr> = (None, s1) \<and>
     fst (Mirrored_Fetch demo_sdk (GCS_provider demo_sdk demo_gcs) (RustFS_provider demo_sdk demo_rustfs) demo_c s1) = Inr demo_d"
proof -
  let ?s = "\<lparr>mi_primary = demo_store, mi_mirror = demo_s3\<lparr>sf_DeleteStatus := 503\<rparr>, mi_log = []\<rparr> :: gcs_rustfs"
  obtain r s1 where p: "Mirrored_Delete demo_sdk (GCS_provider demo_sdk demo_gcs)
      (RustFS_provider demo_sdk demo_rustfs) demo_c ?s = (r, s1)" by fastforce
  have a: "gcs_up demo_sdk demo_reg demo_gcs (mi_primary ?s)" using demo_store_up by simp
  have b: "gcs_contents demo_sdk demo_gcs (mi_primary ?s) demo_c \<noteq> None"
    using demo_store_contents [OF demo_reg_c] by simp
  have c: "300 \<le> sf_DeleteStatus (mi_mirror ?s)" by simp
  have d: "sf_FetchStatus (mi_mirror ?s) = 0" by (simp add: demo_s3_def S3Fake_Put_def NewS3Fake_def)
  have e: "rustfs_contents demo_sdk demo_rustfs (mi_mirror ?s) demo_c = Some demo_d"
    using demo_s3_contents by (simp add: rustfs_contents_def)
  from mirrored_delete_not_final [OF a demo_reg_c b demo_rustfs_wired demo_plain_cids
      rustfs_upD(3) [OF demo_rustfs_up] c d e p] p show ?thesis by auto
qed

section \<open>Routes and handlers\<close>

text \<open>
  C29. Every CID string that is not a dot segment has its five routes when it is
  path-escaped into the URL, and the two fixed routes are served: no CID is redirected,
  mangled or answered by another endpoint.
\<close>

theorem every_cid_is_routed:
  assumes "segment_cid cs"
  shows "route ''GET'' (artifact_path cs []) = Serve (EpFetch cs) \<and>
    route ''HEAD'' (artifact_path cs []) = Serve (EpExists cs) \<and>
    route ''DELETE'' (artifact_path cs []) = Serve (EpDelete cs) \<and>
    route ''GET'' (artifact_path cs [''resolve'']) = Serve (EpResolve cs) \<and>
    route ''POST'' (artifact_path cs [''pin'']) = Serve (EpPin cs) \<and>
    route ''POST'' ''/v1/artifacts'' = Serve EpPush \<and> route ''GET'' ''/healthz'' = Serve EpHealth"
  using route_artifact [OF assms] route_fixed by simp

theorem every_cid_is_routed_witness:
  "route ''GET'' (artifact_path ''sha256:a/b c'' []) = Serve (EpFetch ''sha256:a/b c'')"
proof -
  have "segment_cid ''sha256:a/b c''" by (simp add: segment_cid_def)
  from every_cid_is_routed [OF this] show ?thesis by blast
qed

text \<open>
  C30. What resolve writes, a client reads: the JSON body of a successful resolve parses back
  to the credential the backend made, its expiry truncated to the second.
\<close>

theorem resolve_body_readable:
  assumes "printable_expiry c" "ascii (rc_Method c)" "ascii (rc_URL c)"
  shows "parse_resolve_body (rp_body (json_reply 200 (wire_json (retrievalCredentialToWire c)))) =
           Some (truncate_expiry c)"
  using assms by (rule resolve_body_roundtrip)

theorem resolve_body_readable_witness:
  "parse_resolve_body (rp_body (json_reply 200 (wire_json (retrievalCredentialToWire
     \<lparr>rc_Method = ''signed_url'', rc_URL = ''https://x/?a=b&c'', rc_Expiry = Some 1700000000123456789\<rparr>)))) =
   Some \<lparr>rc_Method = ''signed_url'', rc_URL = ''https://x/?a=b&c'', rc_Expiry = Some 1700000000000000000\<rparr>"
proof -
  let ?c = "\<lparr>rc_Method = ''signed_url'', rc_URL = ''https://x/?a=b&c'', rc_Expiry = Some 1700000000123456789\<rparr>"
  have "year_of 1700000000123456789 = 2023" by code_simp
  then have "printable_expiry ?c" by (simp add: printable_expiry_def)
  moreover have "ascii (rc_Method ?c)" "ascii (rc_URL ?c)" by (simp_all add: ascii_def code_def)
  ultimately show ?thesis
    using resolve_body_readable [of ?c] by (simp add: truncate_expiry_def unix_def)
qed

end
